(* ===== verification/Cvp_Prelude.thy ===== *)
theory Cvp_Prelude
  imports Main "HOL-Library.Word"
begin

text \<open>
  Shared vocabulary of the development: the type synonyms for C++ values, the lemma
  collections that carry the component proofs, and generic facts on results that thread a
  state, on byte strings and on decimal numerals. Nothing here models a particular class of
  the repository.
\<close>

section \<open>Lemma collections\<close>

named_theorems svc_frame \<open>which parts of a state an operation leaves alone\<close>
named_theorems cvp_sel \<open>results and successor states of the operations, by selector\<close>

section \<open>C++ values\<close>

text \<open>
  \<open>std::string\<close> and \<open>std::string_view\<close> are byte strings: Isabelle's \<open>string\<close>, whose
  characters are bytes. \<open>int\<close> values that the code only compares or stores are \<open>int\<close>;
  fixed-width unsigned fields are words. A raw byte of a buffer is an \<open>8 word\<close>.
\<close>

type_synonym byte = "8 word"
type_synonym u16 = "16 word"
type_synonym u32 = "32 word"

text \<open>
  A steady or wall clock and every other service outside the repository (sockets, the MQTT
  library, the authentication cloud) act on a world of type \<open>'w\<close> that each operation takes and
  returns. A call has the shape \<open>'s \<Rightarrow> 'w \<Rightarrow> 'a \<times> 's \<times> 'w\<close>: result, new object, new world.
\<close>

type_synonym ('s, 'w, 'a) opr = "'s \<Rightarrow> 'w \<Rightarrow> 'a \<times> 's \<times> 'w"

definition res :: "'a \<times> 's \<times> 'w \<Rightarrow> 'a" where
  "res x = fst x"

definition obj :: "'a \<times> 's \<times> 'w \<Rightarrow> 's" where
  "obj x = fst (snd x)"

definition wld :: "'a \<times> 's \<times> 'w \<Rightarrow> 'w" where
  "wld x = snd (snd x)"

lemma res_simp [simp]: "res (a, s, w) = a"
  by (simp add: res_def)

lemma obj_simp [simp]: "obj (a, s, w) = s"
  by (simp add: obj_def)

lemma wld_simp [simp]: "wld (a, s, w) = w"
  by (simp add: wld_def)

lemma opr_collapse: "(res x, obj x, wld x) = x"
  by (simp add: res_def obj_def wld_def)

lemma opr_eq_iff: "x = (a, s, w) \<longleftrightarrow> res x = a \<and> obj x = s \<and> wld x = w"
  by (cases x) auto

section \<open>Lists\<close>

lemma takeWhile_append_stop:
  assumes "\<forall>x \<in> set xs. P x" and "\<not> P y"
  shows "takeWhile P (xs @ y # ys) = xs"
  using assms by (induction xs) auto

lemma append_cancel_stop:
  assumes "xs @ y # us = xs' @ y # vs" and "y \<notin> set xs" and "y \<notin> set xs'"
  shows "xs = xs' \<and> us = vs"
proof -
  have "takeWhile (\<lambda>x. x \<noteq> y) (xs @ y # us) = xs"
    using assms(2) by (intro takeWhile_append_stop) auto
  moreover have "takeWhile (\<lambda>x. x \<noteq> y) (xs' @ y # vs) = xs'"
    using assms(3) by (intro takeWhile_append_stop) auto
  ultimately have "xs = xs'" using assms(1) by simp
  with assms(1) show ?thesis by simp
qed

section \<open>Bytes and characters\<close>

definition bytes_of_string :: "string \<Rightarrow> byte list" where
  "bytes_of_string s = map (\<lambda>c. word_of_nat (of_char c)) s"

definition string_of_bytes :: "byte list \<Rightarrow> string" where
  "string_of_bytes bs = map (\<lambda>b. char_of (unat b)) bs"

lemma length_bytes_of_string [simp]: "length (bytes_of_string s) = length s"
  by (simp add: bytes_of_string_def)

lemma length_string_of_bytes [simp]: "length (string_of_bytes bs) = length bs"
  by (simp add: string_of_bytes_def)

lemma unat_byte_of_char: "unat (word_of_nat (of_char c) :: byte) = of_char c"
proof -
  have "of_char c < (256 :: nat)"
    by simp
  then show ?thesis by (simp add: unat_of_nat take_bit_nat_eq_self_iff unsigned_of_nat)
qed

lemma string_of_bytes_of_string [simp]: "string_of_bytes (bytes_of_string s) = s"
  by (simp add: string_of_bytes_def bytes_of_string_def comp_def unat_byte_of_char
      del: unsigned_of_nat)

lemma string_of_bytes_take: "string_of_bytes (take n bs) = take n (string_of_bytes bs)"
  by (simp add: string_of_bytes_def take_map)

lemma string_of_bytes_drop: "string_of_bytes (drop n bs) = drop n (string_of_bytes bs)"
  by (simp add: string_of_bytes_def drop_map)

text \<open>Unsigned integers as \<open>k\<close> bytes, least significant byte first.\<close>

fun le_bytes :: "nat \<Rightarrow> nat \<Rightarrow> byte list" where
  "le_bytes 0 n = []"
| "le_bytes (Suc k) n = word_of_nat (n mod 256) # le_bytes k (n div 256)"

fun le_value :: "byte list \<Rightarrow> nat" where
  "le_value [] = 0"
| "le_value (b # bs) = unat b + 256 * le_value bs"

lemma length_le_bytes [simp]: "length (le_bytes k n) = k"
  by (induction k arbitrary: n) auto

lemma le_value_le_bytes: "le_value (le_bytes k n) = n mod 256 ^ k"
proof (induction k arbitrary: n)
  case 0
  then show ?case by simp
next
  case (Suc k)
  have "unat (word_of_nat (n mod 256) :: byte) = n mod 256"
    by (simp add: unsigned_of_nat take_bit_eq_mod)
  with Suc show ?case
    by (simp add: mod_mult2_eq)
qed

lemma unat_byte_bound: "unat (b :: byte) < 256"
  using unsigned_less [of b, where ?'a = nat] by simp

lemma unat_mod_u16: "unat (w :: u16) mod 65536 = unat w"
  using unsigned_less [of w, where ?'a = nat] by simp

lemma unat_mod_u32: "unat (w :: u32) mod 4294967296 = unat w"
  using unsigned_less [of w, where ?'a = nat] by simp

lemma le_bytes_le_value: "length bs = k \<Longrightarrow> le_bytes k (le_value bs) = bs"
proof (induction bs arbitrary: k)
  case Nil
  then show ?case by simp
next
  case (Cons b bs)
  have "(unat b + 256 * le_value bs) mod 256 = unat b"
    and "(unat b + 256 * le_value bs) div 256 = le_value bs"
    using unat_byte_bound [of b] by simp_all
  with Cons show ?case by (cases k) simp_all
qed

lemma le_value_bound: "le_value bs < 256 ^ length bs"
proof (induction bs)
  case Nil
  then show ?case by simp
next
  case (Cons b bs)
  then show ?case using unat_byte_bound [of b] by simp
qed

text \<open>A step that is refused under a condition.\<close>

lemma guarded_Some [simp]: "(if b then None else x) = Some y \<longleftrightarrow> \<not> b \<and> x = Some y"
  by simp

end
