(* ===== verification/Cxx_Format.thy ===== *)
theory Cxx_Format
  imports Cvp_Prelude
begin

text \<open>
  The pieces of the C++ standard library the repository formats text with:
  \<open>std::to_string(int)\<close>, \<open>std::put_time\<close> with the two formats the code passes, and
  \<open>std::ostream << double\<close> with the default precision of 6. Each printer has a reader that
  recovers the printed value, so that printing is known to be injective.
\<close>

section \<open>Decimal numerals\<close>

fun show_nat :: "nat \<Rightarrow> string" where
  "show_nat n =
     (if n < 10 then [char_of (48 + n)]
      else show_nat (n div 10) @ [char_of (48 + n mod 10)])"

declare show_nat.simps [simp del]

definition show_int :: "int \<Rightarrow> string" where
  "show_int i = (if i < 0 then CHR ''-'' # show_nat (nat (- i)) else show_nat (nat i))"

definition digit_val :: "char \<Rightarrow> nat" where
  "digit_val c = of_char c - 48"

definition is_digit :: "char \<Rightarrow> bool" where
  "is_digit c \<longleftrightarrow> 48 \<le> (of_char c :: nat) \<and> (of_char c :: nat) < 58"

definition read_nat :: "string \<Rightarrow> nat" where
  "read_nat s = foldl (\<lambda>a c. 10 * a + digit_val c) 0 s"

definition read_int :: "string \<Rightarrow> int" where
  "read_int s =
     (case s of [] \<Rightarrow> 0
      | c # cs \<Rightarrow> if c = CHR ''-'' then - int (read_nat cs) else int (read_nat s))"

lemma digit_val_char_of: "d < 10 \<Longrightarrow> digit_val (char_of (48 + d)) = d"
  by (simp add: digit_val_def)

lemma is_digit_char_of: "d < (10::nat) \<Longrightarrow> is_digit (char_of (48 + d))"
  by (simp add: is_digit_def)

lemma read_nat_snoc: "read_nat (s @ [c]) = 10 * read_nat s + digit_val c"
  by (simp add: read_nat_def)

lemma read_show_nat [simp]: "read_nat (show_nat n) = n"
proof (induction n rule: show_nat.induct)
  case (1 n)
  show ?case
  proof (cases "n < 10")
    case True
    then show ?thesis
      by (simp add: show_nat.simps [of n] read_nat_def digit_val_char_of)
  next
    case False
    with 1 show ?thesis
      by (simp add: show_nat.simps [of n] read_nat_snoc digit_val_char_of)
  qed
qed

lemma show_nat_digits: "c \<in> set (show_nat n) \<Longrightarrow> is_digit c"
proof (induction n rule: show_nat.induct)
  case (1 n)
  then show ?case
    by (cases "n < 10") (auto simp: show_nat.simps [of n] is_digit_char_of)
qed

lemma show_nat_not_Nil [simp]: "show_nat n \<noteq> []"
  by (subst show_nat.simps) simp

lemma show_nat_inj: "show_nat m = show_nat n \<longleftrightarrow> m = n"
  by (metis read_show_nat)

lemma read_show_int [simp]: "read_int (show_int i) = i"
proof (cases "i < 0")
  case True
  then show ?thesis by (simp add: read_int_def show_int_def)
next
  case False
  obtain c cs where s: "show_nat (nat i) = c # cs"
    by (cases "show_nat (nat i)") auto
  then have "is_digit c" using show_nat_digits [of c "nat i"] by simp
  then have "c \<noteq> CHR ''-''" by (auto simp: is_digit_def)
  moreover have "read_nat (c # cs) = nat i" by (metis s read_show_nat)
  ultimately show ?thesis
    using False s by (simp add: read_int_def show_int_def)
qed

lemma show_int_inj: "show_int i = show_int j \<longleftrightarrow> i = j"
  by (metis read_show_int)

lemma show_int_chars: "c \<in> set (show_int i) \<Longrightarrow> is_digit c \<or> c = CHR ''-''"
  by (auto simp: show_int_def dest: show_nat_digits split: if_splits)

lemma length_show_nat: "0 < k \<Longrightarrow> 10 ^ (k - 1) \<le> n \<Longrightarrow> n < 10 ^ k \<Longrightarrow> length (show_nat n) = k"
proof (induction n arbitrary: k rule: show_nat.induct)
  case (1 n)
  show ?case
  proof (cases "n < 10")
    case True
    have "k = 1"
    proof (rule ccontr)
      assume "k \<noteq> 1"
      with "1.prems"(1) have "(10::nat) ^ 1 \<le> 10 ^ (k - 1)"
        by (intro power_increasing) auto
      with "1.prems"(2) True show False by simp
    qed
    with True show ?thesis by (simp add: show_nat.simps [of n])
  next
    case False
    with "1.prems" obtain j where k: "k = Suc (Suc j)"
      by (cases k; cases "k - 1") auto
    with "1.prems" have "10 ^ (Suc j - 1) \<le> n div 10" "n div 10 < 10 ^ Suc j"
      by (auto simp: less_mult_imp_div_less mult.commute div_le_mono less_eq_div_iff_mult_less_eq)
    with "1.IH" [OF False, of "Suc j"] False k show ?thesis
      by (simp add: show_nat.simps [of n])
  qed
qed

section \<open>Calendar time: \<open>std::tm\<close> and \<open>std::put_time\<close>\<close>

text \<open>
  \<open>localtime_r\<close> fills a \<open>std::tm\<close>: years since 1900, months from 0. The two formats the code
  uses differ in one character between date and time.
\<close>

record tm =
  tm_year :: int
  tm_mon :: nat
  tm_mday :: nat
  tm_hour :: nat
  tm_min :: nat
  tm_sec :: nat

definition wf_tm :: "tm \<Rightarrow> bool" where
  "wf_tm t \<longleftrightarrow> -900 \<le> tm_year t \<and> tm_year t < 8100 \<and> tm_mon t < 12 \<and> 1 \<le> tm_mday t
     \<and> tm_mday t \<le> 31 \<and> tm_hour t < 24 \<and> tm_min t < 60 \<and> tm_sec t \<le> 60"

definition pad2 :: "nat \<Rightarrow> string" where
  "pad2 n = (if n < 10 then CHR ''0'' # show_nat n else show_nat n)"

definition put_time :: "char \<Rightarrow> tm \<Rightarrow> string" where
  "put_time sep t =
     show_int (tm_year t + 1900) @ ''-'' @ pad2 (tm_mon t + 1) @ ''-'' @ pad2 (tm_mday t)
     @ [sep] @ pad2 (tm_hour t) @ '':'' @ pad2 (tm_min t) @ '':'' @ pad2 (tm_sec t)"

definition read_time :: "string \<Rightarrow> tm" where
  "read_time s =
     \<lparr>tm_year = int (read_nat (take 4 s)) - 1900,
      tm_mon = read_nat (take 2 (drop 5 s)) - 1,
      tm_mday = read_nat (take 2 (drop 8 s)),
      tm_hour = read_nat (take 2 (drop 11 s)),
      tm_min = read_nat (take 2 (drop 14 s)),
      tm_sec = read_nat (take 2 (drop 17 s))\<rparr>"

lemma length_pad2: "n < 100 \<Longrightarrow> length (pad2 n) = 2"
  using length_show_nat [of 2 n] length_show_nat [of 1 n]
  by (cases "n = 0") (auto simp: pad2_def show_nat.simps [of 0])

lemma read_pad2 [simp]: "read_nat (pad2 n) = n"
proof (cases "n < 10")
  case True
  have "read_nat (CHR ''0'' # show_nat n) = read_nat (show_nat n)"
    by (simp add: read_nat_def digit_val_def)
  with True show ?thesis by (simp add: pad2_def)
next
  case False
  then show ?thesis by (simp add: pad2_def)
qed

lemma put_time_year:
  assumes "wf_tm t"
  shows "show_int (tm_year t + 1900) = show_nat (nat (tm_year t + 1900))"
    and "length (show_nat (nat (tm_year t + 1900))) = 4"
  using assms length_show_nat [of 4 "nat (tm_year t + 1900)"]
  by (auto simp: wf_tm_def show_int_def nat_less_iff le_nat_iff)

lemma wf_tm_pad2:
  assumes "wf_tm t"
  shows "length (pad2 (tm_mon t + 1)) = 2" "length (pad2 (tm_mday t)) = 2"
    "length (pad2 (tm_hour t)) = 2" "length (pad2 (tm_min t)) = 2" "length (pad2 (tm_sec t)) = 2"
  using assms by (auto simp: wf_tm_def intro!: length_pad2)

lemma length_put_time: "wf_tm t \<Longrightarrow> length (put_time sep t) = 19"
  using put_time_year [of t] wf_tm_pad2 [of t]
  by (simp add: put_time_def)

lemma read_put_time: "wf_tm t \<Longrightarrow> read_time (put_time sep t) = t"
  using put_time_year [of t] wf_tm_pad2 [of t]
  by (simp add: put_time_def read_time_def del: One_nat_def)
     (simp add: wf_tm_def)

lemma put_time_inj:
  "wf_tm t \<Longrightarrow> wf_tm u \<Longrightarrow> put_time sep t = put_time sep u \<Longrightarrow> t = u"
  by (metis read_put_time)

section \<open>\<open>std::to_string(int)\<close>\<close>

definition to_string :: "int \<Rightarrow> string" where
  "to_string i = show_int i"

lemma read_to_string [simp]: "read_int (to_string i) = i"
  by (simp add: to_string_def)

section \<open>\<open>double\<close> values and \<open>operator<<\<close>\<close>

text \<open>
  A finite double is a sign, a magnitude and a power of two, so its value is exact. The stream
  prints like \<open>%g\<close> with six significant digits: the value is rounded to six digits, half to
  even, printed in fixed notation when the decimal exponent is at least \<open>-4\<close> and below 6 and
  in scientific notation otherwise, and trailing zeros of the fraction are dropped.
\<close>

datatype double = Fin bool nat int | Inf bool | NaN bool

definition double_num :: "nat \<Rightarrow> int \<Rightarrow> nat" where
  "double_num m e = m * 2 ^ nat e"

definition double_den :: "int \<Rightarrow> nat" where
  "double_den e = 2 ^ nat (- e)"

function exp_up :: "nat \<Rightarrow> nat \<Rightarrow> int" where
  "exp_up n d = (if 0 < d \<and> 10 * d \<le> n then 1 + exp_up n (10 * d) else 0)"
  by pat_completeness auto
termination
  by (relation "measure (\<lambda>(n, d). n - d)") auto

function exp_down :: "nat \<Rightarrow> nat \<Rightarrow> int" where
  "exp_down n d = (if 0 < n \<and> n < d then exp_down (10 * n) d - 1 else 0)"
  by pat_completeness auto
termination
  by (relation "measure (\<lambda>(n, d). d - n)") auto

declare exp_up.simps [simp del] exp_down.simps [simp del]

definition dec_exp :: "nat \<Rightarrow> nat \<Rightarrow> int" where
  "dec_exp n d = (if n < d then exp_down n d else exp_up n d)"

definition round_half_even :: "nat \<Rightarrow> nat \<Rightarrow> nat" where
  "round_half_even n d =
     (let q = n div d; r = n mod d
      in if 2 * r < d \<or> (2 * r = d \<and> even q) then q else q + 1)"

text \<open>Six significant digits (as a number from 100000 to 999999) and the decimal exponent.\<close>

definition sig6 :: "nat \<Rightarrow> nat \<Rightarrow> nat \<times> int" where
  "sig6 n d =
     (let x = dec_exp n d;
          s = round_half_even (n * 10 ^ nat (5 - x)) (d * 10 ^ nat (x - 5))
      in if s = 1000000 then (100000, x + 1) else (s, x))"

definition strip_zeros :: "string \<Rightarrow> string" where
  "strip_zeros s = rev (dropWhile (\<lambda>c. c = CHR ''0'') (rev s))"

definition with_frac :: "string \<Rightarrow> string \<Rightarrow> string" where
  "with_frac i f = (if strip_zeros f = [] then i else i @ ''.'' @ strip_zeros f)"

definition show_fixed :: "string \<Rightarrow> int \<Rightarrow> string" where
  "show_fixed ds x =
     (if 0 \<le> x then with_frac (take (nat x + 1) ds) (drop (nat x + 1) ds)
      else with_frac ''0'' (replicate (nat (- x) - 1) (CHR ''0'') @ ds))"

definition show_sci :: "string \<Rightarrow> int \<Rightarrow> string" where
  "show_sci ds x =
     with_frac (take 1 ds) (drop 1 ds) @ ''e'' @ (if x < 0 then ''-'' else ''+'')
     @ pad2 (nat \<bar>x\<bar>)"

definition show_magnitude :: "nat \<Rightarrow> nat \<Rightarrow> string" where
  "show_magnitude n d =
     (if n = 0 then ''0''
      else let (s, x) = sig6 n d
           in if -4 \<le> x \<and> x < 6 then show_fixed (show_nat s) x else show_sci (show_nat s) x)"

definition sign_str :: "bool \<Rightarrow> string" where
  "sign_str neg = (if neg then ''-'' else [])"

fun show_double :: "double \<Rightarrow> string" where
  "show_double (Fin neg m e) = sign_str neg @ show_magnitude (double_num m e) (double_den e)"
| "show_double (Inf neg) = sign_str neg @ ''inf''"
| "show_double (NaN neg) = sign_str neg @ ''nan''"

lemmas double_defs = double_num_def double_den_def dec_exp_def round_half_even_def sig6_def
  strip_zeros_def with_frac_def show_fixed_def show_sci_def show_magnitude_def sign_str_def
  pad2_def Let_def

lemma exp_up_step: "0 < d \<Longrightarrow> 10 * d \<le> n \<Longrightarrow> exp_up n d = 1 + exp_up n (10 * d)"
  by (subst exp_up.simps) simp

lemma exp_up_stop: "n < 10 * d \<Longrightarrow> exp_up n d = 0"
  by (subst exp_up.simps) simp

text \<open>The exponent found is the right one: the value lies between two powers of ten.\<close>

lemma exp_up_bounds:
  "0 < d \<Longrightarrow> d \<le> n \<Longrightarrow> 0 \<le> exp_up n d \<and> d * 10 ^ nat (exp_up n d) \<le> n
     \<and> n < 10 * d * 10 ^ nat (exp_up n d)"
proof (induction n d rule: exp_up.induct)
  case (1 n d)
  show ?case
  proof (cases "10 * d \<le> n")
    case True
    with 1 have "0 \<le> exp_up n (10 * d) \<and> 10 * d * 10 ^ nat (exp_up n (10 * d)) \<le> n
        \<and> n < 10 * (10 * d) * 10 ^ nat (exp_up n (10 * d))" by simp
    with True "1.prems" show ?thesis
      by (simp add: exp_up_step nat_add_distrib mult_ac)
  next
    case False
    with "1.prems" show ?thesis by (simp add: exp_up_stop)
  qed
qed

lemma char_of_digits [simp]:
  "char_of (48::nat) = CHR ''0''" "char_of (49::nat) = CHR ''1''"
  "char_of (50::nat) = CHR ''2''" "char_of (51::nat) = CHR ''3''"
  "char_of (52::nat) = CHR ''4''" "char_of (53::nat) = CHR ''5''"
  "char_of (54::nat) = CHR ''6''" "char_of (55::nat) = CHR ''7''"
  "char_of (56::nat) = CHR ''8''" "char_of (57::nat) = CHR ''9''"
  by (simp_all add: char_of_def bit_0)

lemma show_double_12_6:
  "show_double (Fin False 7093169413108531 (-49)) = ''12.6''"
  by (simp add: double_defs exp_up_step exp_up_stop show_nat.simps)

end
