(* ===== verification/Logger.thy ===== *)
theory Logger
  imports Cxx_Format
begin

text \<open>
  The logger (\<open>include/connected_vehicle_platform/logger.hpp\<close>, \<open>src/Logger/logger.cpp\<close>): the
  level names, the line format, the constructor that creates the directory of the log file,
  \<open>log\<close> with its two sinks, and the locked section that makes concurrent calls atomic.
\<close>

section \<open>Levels and lines\<close>

datatype LogLevel = Trace | Debug | Info | Warning | Error | Fatal

fun levelToString :: "LogLevel \<Rightarrow> string" where
  "levelToString Trace = ''TRACE''"
| "levelToString Debug = ''DEBUG''"
| "levelToString Info = ''INFO''"
| "levelToString Warning = ''WARNING''"
| "levelToString Error = ''ERROR''"
| "levelToString Fatal = ''FATAL''"

record source_location =
  file_name :: string
  line :: nat

definition format_line :: "tm \<Rightarrow> LogLevel \<Rightarrow> string \<Rightarrow> source_location \<Rightarrow> string" where
  "format_line t level message location =
     put_time (CHR '' '') t @ '' ['' @ levelToString level @ ''] '' @ message
     @ '' @ '' @ file_name location @ '':'' @ show_nat (line location)"

text \<open>Reading a line back: the time stamp, the level name, and what follows it.\<close>

definition read_line :: "string \<Rightarrow> tm \<times> string \<times> string" where
  "read_line s =
     (let r = drop 21 s in
      (read_time (take 19 s), takeWhile (\<lambda>c. c \<noteq> CHR '']'') r,
       drop 2 (dropWhile (\<lambda>c. c \<noteq> CHR '']'') r)))"

lemma levelToString_inj: "levelToString a = levelToString b \<longleftrightarrow> a = b"
  by (cases a; cases b) simp_all

lemma levelToString_no_bracket: "CHR '']'' \<notin> set (levelToString l)"
  by (cases l) simp_all

section \<open>The file system the logger uses\<close>

text \<open>
  Console output and files by path. \<open>fs_denied\<close> says where the operating system refuses to
  create or open; everything else follows from the directories that exist.
\<close>

record log_io =
  stdout_text :: string
  fs_files :: "string \<Rightarrow> string"
  fs_dirs :: "string list"
  fs_denied :: "string \<Rightarrow> bool"

definition strip_separators :: "string \<Rightarrow> string" where
  "strip_separators d =
     (let e = dropWhile (\<lambda>c. c = CHR ''/'') d
      in if d = [] then [] else if e = [] then ''/'' else rev e)"

definition parent_path :: "string \<Rightarrow> string" where
  "parent_path p = strip_separators (dropWhile (\<lambda>c. c \<noteq> CHR ''/'') (rev p))"

lemma length_strip_separators:
  "length (strip_separators (CHR ''/'' # d)) < length (CHR ''/'' # d) \<or> d = []"
  using length_dropWhile_le [of "\<lambda>c. c = CHR ''/''" d]
  by (cases d) (auto simp: strip_separators_def Let_def)

lemma length_parent_path:
  assumes "parent_path p \<noteq> []" and "parent_path p \<noteq> p"
  shows "length (parent_path p) < length p"
proof (cases "dropWhile (\<lambda>c. c \<noteq> CHR ''/'') (rev p)")
  case Nil
  with assms(1) show ?thesis by (simp add: parent_path_def strip_separators_def)
next
  case (Cons c d)
  then have c: "c = CHR ''/''"
    using iffD1 [OF dropWhile_eq_Cons_conv Cons] by blast
  have le: "length (c # d) \<le> length p"
    using Cons length_dropWhile_le [of "\<lambda>c. c \<noteq> CHR ''/''" "rev p"] by simp
  show ?thesis
  proof (cases "d = []")
    case True
    with Cons c have pp: "parent_path p = ''/''"
      by (simp add: parent_path_def strip_separators_def)
    have "length p \<noteq> 1"
    proof
      assume "length p = 1"
      then obtain x where x: "p = [x]" by (cases p) simp_all
      from Cons have "dropWhile (\<lambda>c. c \<noteq> CHR ''/'') [x] = c # d" by (simp only: x rev.simps append.simps)
      then have "x = c" by (simp only: dropWhile.simps split: if_splits) (simp_all only: list.inject list.distinct)
      with c have "x = CHR ''/''" by simp
      with x pp assms(2) show False by simp
    qed
    moreover have "p \<noteq> []" using Cons by auto
    ultimately have "1 < length p" by (simp add: le_neq_implies_less Suc_leI)
    with pp show ?thesis by simp
  next
    case False
    with Cons c le length_strip_separators [of d] show ?thesis
      by (simp add: parent_path_def)
  qed
qed

function path_chain :: "string \<Rightarrow> string list" where
  "path_chain p =
     p # (if parent_path p = [] \<or> parent_path p = p then [] else path_chain (parent_path p))"
  by pat_completeness auto
termination
  by (relation "measure length") (auto intro: length_parent_path)

declare path_chain.simps [simp del]

lemma path_chain_self: "p \<in> set (path_chain p)"
  by (subst path_chain.simps) simp

text \<open>\<open>std::filesystem::create_directories\<close>: \<open>None\<close> is the \<open>filesystem_error\<close> it throws.\<close>

definition create_directories :: "string \<Rightarrow> log_io \<Rightarrow> log_io option" where
  "create_directories p io =
     (if \<exists>d \<in> set (path_chain p). d \<notin> set (fs_dirs io) \<and> fs_denied io d then None
      else Some (io\<lparr>fs_dirs := remdups (path_chain p @ fs_dirs io)\<rparr>))"

definition can_append :: "string \<Rightarrow> log_io \<Rightarrow> bool" where
  "can_append p io \<longleftrightarrow>
     \<not> fs_denied io p \<and> (parent_path p = [] \<or> parent_path p \<in> set (fs_dirs io))"

section \<open>The class\<close>

record Logger =
  log_path :: string

definition kDefaultLogPath :: string where
  "kDefaultLogPath = ''logs/vehicle.log''"

definition Logger_new :: "string \<Rightarrow> log_io \<Rightarrow> (Logger \<times> log_io) option" where
  "Logger_new path io =
     (let lg = \<lparr>log_path = path\<rparr>; parent = parent_path path
      in if parent \<noteq> []
         then (case create_directories parent io of None \<Rightarrow> None | Some io' \<Rightarrow> Some (lg, io'))
         else Some (lg, io))"

definition Logger_write :: "Logger \<Rightarrow> string \<Rightarrow> log_io \<Rightarrow> log_io" where
  "Logger_write lg l io =
     (let io1 = io\<lparr>stdout_text := stdout_text io @ l @ [CHR 0x0A]\<rparr>
      in if can_append (log_path lg) io1
         then io1\<lparr>fs_files := (fs_files io1)(log_path lg :=
                fs_files io1 (log_path lg) @ l @ [CHR 0x0A])\<rparr>
         else io1)"

definition Logger_log ::
  "Logger \<Rightarrow> tm \<Rightarrow> LogLevel \<Rightarrow> string \<Rightarrow> source_location \<Rightarrow> log_io \<Rightarrow> log_io" where
  "Logger_log lg t level message location io =
     Logger_write lg (format_line t level message location) io"

definition Logger_trace :: "Logger \<Rightarrow> tm \<Rightarrow> string \<Rightarrow> source_location \<Rightarrow> log_io \<Rightarrow> log_io" where
  "Logger_trace lg t message location io = Logger_log lg t Trace message location io"

definition Logger_debug :: "Logger \<Rightarrow> tm \<Rightarrow> string \<Rightarrow> source_location \<Rightarrow> log_io \<Rightarrow> log_io" where
  "Logger_debug lg t message location io = Logger_log lg t Debug message location io"

definition Logger_info :: "Logger \<Rightarrow> tm \<Rightarrow> string \<Rightarrow> source_location \<Rightarrow> log_io \<Rightarrow> log_io" where
  "Logger_info lg t message location io = Logger_log lg t Info message location io"

definition Logger_warning :: "Logger \<Rightarrow> tm \<Rightarrow> string \<Rightarrow> source_location \<Rightarrow> log_io \<Rightarrow> log_io" where
  "Logger_warning lg t message location io = Logger_log lg t Warning message location io"

definition Logger_error :: "Logger \<Rightarrow> tm \<Rightarrow> string \<Rightarrow> source_location \<Rightarrow> log_io \<Rightarrow> log_io" where
  "Logger_error lg t message location io = Logger_log lg t Error message location io"

definition Logger_fatal :: "Logger \<Rightarrow> tm \<Rightarrow> string \<Rightarrow> source_location \<Rightarrow> log_io \<Rightarrow> log_io" where
  "Logger_fatal lg t message location io = Logger_log lg t Fatal message location io"

lemmas Logger_level_defs = Logger_trace_def Logger_debug_def Logger_info_def
  Logger_warning_def Logger_error_def Logger_fatal_def

lemma Logger_write_stdout [simp]:
  "stdout_text (Logger_write lg l io) = stdout_text io @ l @ [CHR 0x0A]"
  by (simp add: Logger_write_def Let_def)

lemma Logger_write_dirs [simp]:
  "fs_dirs (Logger_write lg l io) = fs_dirs io" "fs_denied (Logger_write lg l io) = fs_denied io"
  by (simp_all add: Logger_write_def Let_def)

lemma can_append_stdout [simp]: "can_append p (io\<lparr>stdout_text := x\<rparr>) = can_append p io"
  by (simp add: can_append_def)

lemma can_append_files [simp]: "can_append p (io\<lparr>fs_files := f\<rparr>) = can_append p io"
  by (simp add: can_append_def)

lemma can_append_write [simp]: "can_append p (Logger_write lg l io) = can_append p io"
  by (simp add: can_append_def)

lemma Logger_write_file:
  "fs_files (Logger_write lg l io) p =
     (if p = log_path lg \<and> can_append p io then fs_files io p @ l @ [CHR 0x0A]
      else fs_files io p)"
  by (simp add: Logger_write_def Let_def)

lemma Logger_new_can_append:
  assumes "Logger_new path io = Some (lg, io')" and "\<not> fs_denied io path"
  shows "log_path lg = path" and "can_append path io'"
  using assms path_chain_self [of "parent_path path"]
  by (auto simp: Logger_new_def create_directories_def can_append_def Let_def
      split: if_splits option.splits)

section \<open>Concurrent calls\<close>

text \<open>
  \<open>log\<close> formats its line first, then holds \<open>mutex_\<close> over the writes: the line and the newline go
  to \<open>std::cout\<close> by two insertions, the file is opened, and the line and the newline go to the file
  by two more. Each is a step of its own, so a thread can be preempted between any two of them.
  \<open>lt_calls\<close> records the lines each thread has formatted, \<open>lt_lines\<close> the calls that have left the
  locked section, with their threads, in that order.
\<close>

datatype log_pc =
    LIdle | LFormatted string | LLocked string | LEndl string | LPrinted string | LOpen string
  | LFileEndl string | LWritten string

record log_threads =
  lt_pc :: "nat \<Rightarrow> log_pc"
  lt_mutex :: "nat option"
  lt_io :: log_io
  lt_calls :: "nat \<Rightarrow> string list"
  lt_lines :: "(nat \<times> string) list"

definition put_console :: "string \<Rightarrow> log_io \<Rightarrow> log_io" where
  "put_console x io = io\<lparr>stdout_text := stdout_text io @ x\<rparr>"

definition put_file :: "Logger \<Rightarrow> string \<Rightarrow> log_io \<Rightarrow> log_io" where
  "put_file lg x io = io\<lparr>fs_files := (fs_files io)(log_path lg := fs_files io (log_path lg) @ x)\<rparr>"

inductive log_step :: "Logger \<Rightarrow> log_threads \<Rightarrow> log_threads \<Rightarrow> bool" for lg where
  call: "lt_pc s i = LIdle \<Longrightarrow> l = format_line t level message location \<Longrightarrow>
    log_step lg s (s\<lparr>lt_pc := (lt_pc s)(i := LFormatted l),
      lt_calls := (lt_calls s)(i := lt_calls s i @ [l])\<rparr>)"
| lock: "lt_pc s i = LFormatted l \<Longrightarrow> lt_mutex s = None \<Longrightarrow>
    log_step lg s (s\<lparr>lt_pc := (lt_pc s)(i := LLocked l), lt_mutex := Some i\<rparr>)"
| console: "lt_pc s i = LLocked l \<Longrightarrow>
    log_step lg s (s\<lparr>lt_pc := (lt_pc s)(i := LEndl l), lt_io := put_console l (lt_io s)\<rparr>)"
| console_newline: "lt_pc s i = LEndl l \<Longrightarrow>
    log_step lg s (s\<lparr>lt_pc := (lt_pc s)(i := LPrinted l), lt_io := put_console [CHR 0x0A] (lt_io s)\<rparr>)"
| open_file: "lt_pc s i = LPrinted l \<Longrightarrow>
    log_step lg s (s\<lparr>lt_pc := (lt_pc s)(i :=
      (if can_append (log_path lg) (lt_io s) then LOpen l else LWritten l))\<rparr>)"
| write_file: "lt_pc s i = LOpen l \<Longrightarrow>
    log_step lg s (s\<lparr>lt_pc := (lt_pc s)(i := LFileEndl l), lt_io := put_file lg l (lt_io s)\<rparr>)"
| file_newline: "lt_pc s i = LFileEndl l \<Longrightarrow>
    log_step lg s (s\<lparr>lt_pc := (lt_pc s)(i := LWritten l), lt_io := put_file lg [CHR 0x0A] (lt_io s)\<rparr>)"
| unlock: "lt_pc s i = LWritten l \<Longrightarrow>
    log_step lg s (s\<lparr>lt_pc := (lt_pc s)(i := LIdle), lt_mutex := None,
      lt_lines := lt_lines s @ [(i, l)]\<rparr>)"

definition log_start :: "log_io \<Rightarrow> log_threads" where
  "log_start io =
     \<lparr>lt_pc = (\<lambda>_. LIdle), lt_mutex = None, lt_io = io, lt_calls = (\<lambda>_. []), lt_lines = []\<rparr>"

inductive log_reach :: "Logger \<Rightarrow> log_io \<Rightarrow> log_threads \<Rightarrow> bool" for lg io where
  log_init: "log_reach lg io (log_start io)"
| log_next: "log_reach lg io s \<Longrightarrow> log_step lg s s' \<Longrightarrow> log_reach lg io s'"

definition text_of_lines :: "string list \<Rightarrow> string" where
  "text_of_lines ls = concat (map (\<lambda>l. l @ [CHR 0x0A]) ls)"

lemma text_of_lines_simps [simp]:
  "text_of_lines [] = []" "text_of_lines (ls @ [l]) = text_of_lines ls @ l @ [CHR 0x0A]"
  by (simp_all add: text_of_lines_def)

fun log_critical :: "log_pc \<Rightarrow> bool" where
  "log_critical LIdle = False"
| "log_critical (LFormatted l) = False"
| "log_critical pc = True"

text \<open>What the thread inside the locked section has written so far, on the console and to the file,
  and the lines a thread has formatted and not yet finished.\<close>

fun console_part :: "log_pc \<Rightarrow> string" where
  "console_part LIdle = []"
| "console_part (LFormatted l) = []"
| "console_part (LLocked l) = []"
| "console_part (LEndl l) = l"
| "console_part (LPrinted l) = l @ [CHR 0x0A]"
| "console_part (LOpen l) = l @ [CHR 0x0A]"
| "console_part (LFileEndl l) = l @ [CHR 0x0A]"
| "console_part (LWritten l) = l @ [CHR 0x0A]"

fun file_part :: "log_pc \<Rightarrow> string" where
  "file_part (LFileEndl l) = l"
| "file_part (LWritten l) = l @ [CHR 0x0A]"
| "file_part pc = []"

fun unfinished :: "log_pc \<Rightarrow> string list" where
  "unfinished LIdle = []"
| "unfinished (LFormatted l) = [l]"
| "unfinished (LLocked l) = [l]"
| "unfinished (LEndl l) = [l]"
| "unfinished (LPrinted l) = [l]"
| "unfinished (LOpen l) = [l]"
| "unfinished (LFileEndl l) = [l]"
| "unfinished (LWritten l) = [l]"

definition in_section :: "(log_pc \<Rightarrow> string) \<Rightarrow> log_threads \<Rightarrow> string" where
  "in_section part s = (case lt_mutex s of None \<Rightarrow> [] | Some i \<Rightarrow> part (lt_pc s i))"

definition lines_of :: "nat \<Rightarrow> (nat \<times> string) list \<Rightarrow> string list" where
  "lines_of i ls = map snd (filter (\<lambda>p. fst p = i) ls)"

lemma lines_of_simps [simp]:
  "lines_of i [] = []" "lines_of i (ls @ [(j, l)]) = lines_of i ls @ (if j = i then [l] else [])"
  by (simp_all add: lines_of_def)

text \<open>
  The invariant: the mutex is held exactly by the thread in its critical section; console and file
  hold the finished lines and what that thread has written; every thread's finished lines are the
  lines of its calls, in order, but for the one it is in.
\<close>

definition log_sinks :: "Logger \<Rightarrow> log_io \<Rightarrow> log_threads \<Rightarrow> bool" where
  "log_sinks lg io s \<longleftrightarrow>
     stdout_text (lt_io s) =
       stdout_text io @ text_of_lines (map snd (lt_lines s)) @ in_section console_part s
     \<and> can_append (log_path lg) (lt_io s) = can_append (log_path lg) io
     \<and> fs_files (lt_io s) (log_path lg) = fs_files io (log_path lg) @
         (if can_append (log_path lg) io
          then text_of_lines (map snd (lt_lines s)) @ in_section file_part s else [])"

fun log_files_open :: "log_pc \<Rightarrow> bool" where
  "log_files_open (LOpen l) = True"
| "log_files_open (LFileEndl l) = True"
| "log_files_open pc = False"

definition log_inv :: "Logger \<Rightarrow> log_io \<Rightarrow> log_threads \<Rightarrow> bool" where
  "log_inv lg io s \<longleftrightarrow>
     (\<forall>i. log_critical (lt_pc s i) \<longleftrightarrow> lt_mutex s = Some i)
     \<and> (\<forall>i. log_files_open (lt_pc s i) \<longrightarrow> can_append (log_path lg) io)
     \<and> (\<forall>i. lt_calls s i = lines_of i (lt_lines s) @ unfinished (lt_pc s i))
     \<and> log_sinks lg io s"

lemma can_append_put [simp]:
  "can_append p (put_console x io) = can_append p io" "can_append p (put_file lg x io) = can_append p io"
  by (simp_all add: put_console_def put_file_def can_append_def)

lemma put_simps [simp]:
  "stdout_text (put_console x io) = stdout_text io @ x" "fs_files (put_console x io) = fs_files io"
  "stdout_text (put_file lg x io) = stdout_text io"
  "fs_files (put_file lg x io) (log_path lg) = fs_files io (log_path lg) @ x"
  by (simp_all add: put_console_def put_file_def)

text \<open>The steps of the locked section compute \<open>Logger_write\<close>, the section as a function.\<close>

lemma Logger_write_split:
  "Logger_write lg l io =
     (let io1 = put_console [CHR 0x0A] (put_console l io)
      in if can_append (log_path lg) io then put_file lg [CHR 0x0A] (put_file lg l io1) else io1)"
  by (simp add: Logger_write_def put_file_def put_console_def Let_def)

lemma log_inv_start: "log_inv lg io (log_start io)"
  by (simp add: log_inv_def log_sinks_def log_start_def in_section_def)

lemma log_inv_mutex: "log_inv lg io s \<Longrightarrow> lt_mutex s = Some i \<longleftrightarrow> log_critical (lt_pc s i)"
  by (simp add: log_inv_def)

lemma log_inv_open: "log_inv lg io s \<Longrightarrow> log_files_open (lt_pc s i) \<Longrightarrow> can_append (log_path lg) io"
  unfolding log_inv_def by blast

lemma log_inv_calls:
  "log_inv lg io s \<Longrightarrow> lt_calls s i = lines_of i (lt_lines s) @ unfinished (lt_pc s i)"
  by (simp add: log_inv_def)

lemma log_inv_sinks: "log_inv lg io s \<Longrightarrow> log_sinks lg io s"
  by (simp add: log_inv_def)

text \<open>A step of the thread that holds the mutex, inside the section.\<close>

lemma log_inv_section:
  assumes inv: "log_inv lg io s" and c: "log_critical (lt_pc s i)" "log_critical pc"
    and u: "unfinished pc = unfinished (lt_pc s i)"
    and o: "log_files_open pc \<Longrightarrow> can_append (log_path lg) io"
    and k: "log_sinks lg io (s\<lparr>lt_pc := (lt_pc s)(i := pc), lt_io := io'\<rparr>)"
  shows "log_inv lg io (s\<lparr>lt_pc := (lt_pc s)(i := pc), lt_io := io'\<rparr>)"
  using inv c u o k by (auto simp: log_inv_def)

lemma in_section_at: "lt_mutex s = Some i \<Longrightarrow> in_section part s = part (lt_pc s i)"
  by (simp add: in_section_def)

lemmas log_section_simps = log_sinks_def in_section_def

lemma log_step_inv:
  assumes "log_step lg s s'" and inv: "log_inv lg io s"
  shows "log_inv lg io s'"
  using assms(1)
proof cases
  case (call i l t level message location)
  then have m: "lt_mutex s \<noteq> Some i" using log_inv_mutex [OF inv, of i] by simp
  then have "log_sinks lg io s'"
    using call log_inv_sinks [OF inv] by (auto simp: log_section_simps split: option.splits)
  with call inv m show ?thesis
    by (auto simp: log_inv_def)
next
  case (lock i l)
  then have "\<not> log_critical (lt_pc s j)" for j
    using log_inv_mutex [OF inv, of j] by simp
  moreover have "log_sinks lg io s'"
    using lock log_inv_sinks [OF inv] by (simp add: log_section_simps)
  ultimately show ?thesis
    using lock inv by (auto simp: log_inv_def)
next
  case (console i l)
  then have m: "lt_mutex s = Some i" using log_inv_mutex [OF inv, of i] by simp
  from console show ?thesis
    using log_inv_sinks [OF inv] m by (auto intro!: log_inv_section [OF inv] simp: log_section_simps)
next
  case (console_newline i l)
  then have m: "lt_mutex s = Some i" using log_inv_mutex [OF inv, of i] by simp
  from console_newline show ?thesis
    using log_inv_sinks [OF inv] m by (auto intro!: log_inv_section [OF inv] simp: log_section_simps)
next
  case (open_file i l)
  then have m: "lt_mutex s = Some i" using log_inv_mutex [OF inv, of i] by simp
  have c: "can_append (log_path lg) (lt_io s) = can_append (log_path lg) io"
    using log_inv_sinks [OF inv] by (simp add: log_sinks_def)
  define pc where "pc = (if can_append (log_path lg) (lt_io s) then LOpen l else LWritten l)"
  then have "log_critical pc" "unfinished pc = [l]" "console_part pc = l @ [CHR 0x0A]"
    "log_files_open pc \<Longrightarrow> can_append (log_path lg) io"
    "can_append (log_path lg) io \<Longrightarrow> file_part pc = []"
    using c by (simp_all split: if_splits)
  then have "log_inv lg io (s\<lparr>lt_pc := (lt_pc s)(i := pc), lt_io := lt_io s\<rparr>)"
    using open_file log_inv_sinks [OF inv] m
    by (intro log_inv_section [OF inv]) (simp_all add: log_section_simps)
  then show ?thesis using open_file(1) pc_def by simp
next
  case (write_file i l)
  then have m: "lt_mutex s = Some i" using log_inv_mutex [OF inv, of i] by simp
  have a: "can_append (log_path lg) io" using log_inv_open [OF inv, of i] write_file by simp
  from write_file show ?thesis
    using log_inv_sinks [OF inv] m a
    by (auto intro!: log_inv_section [OF inv] simp: log_section_simps)
next
  case (file_newline i l)
  then have m: "lt_mutex s = Some i" using log_inv_mutex [OF inv, of i] by simp
  have a: "can_append (log_path lg) io" using log_inv_open [OF inv, of i] file_newline by simp
  from file_newline show ?thesis
    using log_inv_sinks [OF inv] m a
    by (auto intro!: log_inv_section [OF inv] simp: log_section_simps)
next
  case (unlock i l)
  then have m: "lt_mutex s = Some i" using log_inv_mutex [OF inv, of i] by simp
  then have "log_sinks lg io s'"
    using unlock log_inv_sinks [OF inv] by (simp add: log_section_simps)
  moreover have "\<not> log_critical (lt_pc s j)" if "j \<noteq> i" for j
    using m log_inv_mutex [OF inv, of j] that by simp
  moreover have "lt_calls s j = lines_of j (lt_lines s) @ unfinished (lt_pc s j)" for j
    by (rule log_inv_calls [OF inv])
  ultimately show ?thesis
    using unlock inv by (auto simp: log_inv_def)
qed

lemma log_reach_inv: "log_reach lg io s \<Longrightarrow> log_inv lg io s"
  by (induction rule: log_reach.induct) (auto intro: log_inv_start log_step_inv)

section \<open>Properties\<close>

text \<open>A sequence of calls, one after the other.\<close>

fun Logger_log_all ::
  "Logger \<Rightarrow> (tm \<times> LogLevel \<times> string \<times> source_location) list \<Rightarrow> log_io \<Rightarrow> log_io" where
  "Logger_log_all lg [] io = io"
| "Logger_log_all lg ((t, level, message, location) # calls) io =
     Logger_log_all lg calls (Logger_log lg t level message location io)"

definition call_lines :: "(tm \<times> LogLevel \<times> string \<times> source_location) list \<Rightarrow> string list" where
  "call_lines calls = map (\<lambda>(t, level, message, location). format_line t level message location) calls"

lemma text_of_lines_Cons: "text_of_lines (l # ls) = l @ [CHR 0x0A] @ text_of_lines ls"
  by (simp add: text_of_lines_def)

lemma Logger_log_all_sinks:
  "stdout_text (Logger_log_all lg calls io) = stdout_text io @ text_of_lines (call_lines calls)
   \<and> (can_append (log_path lg) io \<longrightarrow> fs_files (Logger_log_all lg calls io) =
       (fs_files io)(log_path lg := fs_files io (log_path lg) @ text_of_lines (call_lines calls)))"
proof (induction lg calls io rule: Logger_log_all.induct)
  case (1 lg io)
  then show ?case by (simp add: call_lines_def)
next
  case (2 lg t level message location calls io)
  let ?l = "format_line t level message location"
  have "fs_files (Logger_write lg ?l io) = (fs_files io)(log_path lg :=
      fs_files io (log_path lg) @ ?l @ [CHR 0x0A])" if "can_append (log_path lg) io"
    using that by (simp add: fun_eq_iff Logger_write_file)
  with 2 show ?case
    by (auto simp: call_lines_def Logger_log_def text_of_lines_Cons fun_eq_iff)
qed

text \<open>C38: However many threads log at once, in every reachable state the console has grown by
  whole lines and, while a thread is inside the locked section, by the part of its line that this
  thread alone has written so far; the log file, when it can be appended to, has grown by the same
  lines in the same order and that thread's part, and otherwise not at all. The lines of each thread
  are those of its calls, in their order: none is lost, torn or repeated.\<close>

theorem log_threads_atomic:
  assumes "log_reach lg io s"
  shows "stdout_text (lt_io s) = stdout_text io @ text_of_lines (map snd (lt_lines s)) @
      (case lt_mutex s of None \<Rightarrow> [] | Some i \<Rightarrow> console_part (lt_pc s i))
    \<and> fs_files (lt_io s) (log_path lg) = fs_files io (log_path lg) @
      (if can_append (log_path lg) io then text_of_lines (map snd (lt_lines s)) @
         (case lt_mutex s of None \<Rightarrow> [] | Some i \<Rightarrow> file_part (lt_pc s i)) else [])
    \<and> lt_calls s j = map snd (filter (\<lambda>p. fst p = j) (lt_lines s)) @ unfinished (lt_pc s j)"
  using log_reach_inv [OF assms]
  by (simp add: log_inv_def log_sinks_def in_section_def lines_of_def)

text \<open>A run of one thread that logs one line, for the witness below.\<close>

definition demo_io :: log_io where
  "demo_io = \<lparr>stdout_text = [], fs_files = (\<lambda>_. []), fs_dirs = [], fs_denied = (\<lambda>_. False)\<rparr>"

definition demo_tm :: tm where
  "demo_tm = \<lparr>tm_year = 125, tm_mon = 0, tm_mday = 2, tm_hour = 3, tm_min = 4, tm_sec = 5\<rparr>"

definition demo_loc :: source_location where
  "demo_loc = \<lparr>file_name = ''a.cpp'', line = 7\<rparr>"

text \<open>Thread 0 has printed its line and not the newline, thread 1 waits for the mutex.\<close>

lemma log_reach_demo:
  assumes "l = format_line t level message location"
  shows "log_reach lg io \<lparr>lt_pc = (\<lambda>_. LIdle)(0 := LEndl l, 1 := LFormatted l), lt_mutex = Some 0,
    lt_io = put_console l io, lt_calls = (\<lambda>_. [])(0 := [l], 1 := [l]), lt_lines = []\<rparr>"
proof -
  have "log_reach lg io (log_start io)" by (rule log_init)
  from log_next [OF this call [where i = 0, OF _ assms]]
  have "log_reach lg io \<lparr>lt_pc = (\<lambda>_. LIdle)(0 := LFormatted l), lt_mutex = None,
      lt_io = io, lt_calls = (\<lambda>_. [])(0 := [l]), lt_lines = []\<rparr>" (is "log_reach _ _ ?s1")
    by (simp add: log_start_def)
  from log_next [OF this lock [where i = 0 and l = l]]
  have "log_reach lg io (?s1\<lparr>lt_pc := (\<lambda>_. LIdle)(0 := LLocked l), lt_mutex := Some 0\<rparr>)"
    (is "log_reach _ _ ?s2") by simp
  from log_next [OF this console [where i = 0 and l = l]]
  have "log_reach lg io (?s2\<lparr>lt_pc := (\<lambda>_. LIdle)(0 := LEndl l), lt_io := put_console l io\<rparr>)" by simp
  from log_next [OF this call [where i = 1, OF _ assms]] show ?thesis by simp
qed

theorem log_threads_atomic_witness:
  "stdout_text (put_console (format_line demo_tm Info ''hi'' demo_loc) demo_io)
    = format_line demo_tm Info ''hi'' demo_loc"
  using log_threads_atomic [OF log_reach_demo [of "format_line demo_tm Info ''hi'' demo_loc"
      demo_tm Info "''hi''" demo_loc "\<lparr>log_path = ''x.log''\<rparr>" demo_io, OF refl]]
  by (simp add: demo_io_def)

text \<open>Once the constructor has returned, a log path the system does not refuse receives every
  later call: the directory of the file exists, each call appends its formatted line to the
  console and to the log file, in call order, and no other file changes.\<close>

theorem Logger_new_log_all:
  assumes "Logger_new path io = Some (lg, io')" and "\<not> fs_denied io path"
  shows "stdout_text (Logger_log_all lg calls io') = stdout_text io @ text_of_lines (call_lines calls) \<and>
    fs_files (Logger_log_all lg calls io') =
      (fs_files io)(path := fs_files io path @ text_of_lines (call_lines calls))"
proof -
  have "stdout_text io' = stdout_text io" and "fs_files io' = fs_files io"
    using assms(1) by (auto simp: Logger_new_def create_directories_def Let_def
        split: if_splits option.splits)
  with Logger_log_all_sinks [of lg calls io'] Logger_new_can_append [OF assms] show ?thesis by simp
qed

theorem Logger_new_log_all_witness:
  "\<exists>lg io'. Logger_new kDefaultLogPath demo_io = Some (lg, io') \<and>
     stdout_text (Logger_log_all lg [(demo_tm, Error, ''x'', demo_loc)] io') =
       ''2025-01-02 03:04:05 [ERROR] x @ a.cpp:7'' @ [CHR 0x0A]"
proof -
  obtain lg io' where n: "Logger_new kDefaultLogPath demo_io = Some (lg, io')"
    by (cases "Logger_new kDefaultLogPath demo_io")
      (auto simp: Logger_new_def create_directories_def demo_io_def Let_def split: if_splits)
  have "\<not> fs_denied demo_io kDefaultLogPath" by (simp add: demo_io_def)
  from Logger_new_log_all [OF n this, of "[(demo_tm, Error, ''x'', demo_loc)]"]
  have "stdout_text (Logger_log_all lg [(demo_tm, Error, ''x'', demo_loc)] io') =
       ''2025-01-02 03:04:05 [ERROR] x @ a.cpp:7'' @ [CHR 0x0A]"
    by (simp add: demo_io_def text_of_lines_def call_lines_def format_line_def put_time_def
        demo_tm_def demo_loc_def show_int_def pad2_def show_nat.simps)
  with n show ?thesis by blast
qed

text \<open>A log line can be read back: the time stamp, the level and the text after the level are
  recovered from any line printed for a valid calendar time.\<close>

theorem read_format_line:
  assumes "wf_tm t"
  shows "read_line (format_line t level message location) =
    (t, levelToString level, message @ '' @ '' @ file_name location @ '':'' @ show_nat (line location))"
proof -
  let ?tail = "message @ '' @ '' @ file_name location @ '':'' @ show_nat (line location)"
  have tw: "takeWhile (\<lambda>c. c \<noteq> CHR '']'') (levelToString level @ CHR '']'' # CHR '' '' # ?tail)
      = levelToString level"
    using levelToString_no_bracket by (intro takeWhile_append_stop) auto
  have dw: "dropWhile (\<lambda>c. c \<noteq> CHR '']'') (levelToString level @ CHR '']'' # CHR '' '' # ?tail)
      = CHR '']'' # CHR '' '' # ?tail"
    by (cases level) simp_all
  show ?thesis
    using tw dw length_put_time [OF assms] read_put_time [OF assms]
    by (simp add: read_line_def format_line_def Let_def)
qed

theorem read_format_line_witness:
  "read_line (format_line demo_tm Warning ''low fuel'' demo_loc) =
     (demo_tm, ''WARNING'', ''low fuel @ a.cpp:7'')"
  using read_format_line [of demo_tm Warning "''low fuel''" demo_loc]
  by (simp add: demo_tm_def wf_tm_def demo_loc_def show_nat.simps)

end
