(* ===== verification/Auth_Interface.thy ===== *)
theory Auth_Interface
  imports Cvp_Prelude
begin

text \<open>
  The contract shared by the two classes that hold a credential, \<open>AuthClient\<close> and
  \<open>AuthSession\<close>: a login stores a token exactly when it reports success. Both interpret the
  locale on their own definitions; the connectivity service relies on its facts.
\<close>

text \<open>A sequence of logins, collecting the reported results.\<close>

fun run_logins :: "('i \<Rightarrow> ('s, 'w, bool) opr) \<Rightarrow> 'i list \<Rightarrow> ('s, 'w, bool list) opr" where
  "run_logins login [] s w = ([], s, w)"
| "run_logins login (i # is) s w =
     (case login i s w of (r, s1, w1) \<Rightarrow>
      case run_logins login is s1 w1 of (rs, s2, w2) \<Rightarrow> (r # rs, s2, w2))"

lemma run_logins_length: "run_logins login is s w = (rs, s', w') \<Longrightarrow> length rs = length is"
  by (induction "is" arbitrary: s w rs) (auto split: prod.splits)

locale credential_holder =
  fixes login :: "'i \<Rightarrow> ('s, 'w, bool) opr"
    and token :: "'s \<Rightarrow> string"
    and ready :: "'s \<Rightarrow> bool"
  assumes login_true: "login i s w = (True, s', w') \<Longrightarrow> token s' \<noteq> []"
    and login_false: "ready s \<Longrightarrow> login i s w = (False, s', w') \<Longrightarrow> token s' = []"
    and login_ready: "login i s w = (r, s', w') \<Longrightarrow> ready s' = ready s"
begin

lemma login_result: "ready s \<Longrightarrow> login i s w = (r, s', w') \<Longrightarrow> r \<longleftrightarrow> token s' \<noteq> []"
  using login_true login_false by (cases r) auto

lemma logins_last:
  "ready s \<Longrightarrow> is \<noteq> [] \<Longrightarrow> run_logins login is s w = (rs, s', w') \<Longrightarrow>
     rs \<noteq> [] \<and> (last rs \<longleftrightarrow> token s' \<noteq> [])"
proof (induction "is" arbitrary: s w rs s' w')
  case Nil
  then show ?case by simp
next
  case (Cons i "is")
  obtain r s1 w1 where l: "login i s w = (r, s1, w1)" by (cases "login i s w") auto
  obtain rs' s2 w2 where ls: "run_logins login is s1 w1 = (rs', s2, w2)" by (cases "run_logins login is s1 w1") auto
  with Cons.prems(3) l have eq: "rs = r # rs'" "s' = s2" by simp_all
  show ?case
  proof (cases "is = []")
    case True
    with ls have "rs' = []" "s2 = s1" by simp_all
    with eq login_result [OF Cons.prems(1) l] show ?thesis by simp
  next
    case False
    from Cons.IH [OF _ False ls] Cons.prems(1) login_ready [OF l] eq show ?thesis by simp
  qed
qed

end

end
