(* ===== verification/Auth_Client.thy ===== *)
theory Auth_Client
  imports Auth_Interface
begin

text \<open>
  \<open>AuthClient\<close> (\<open>include/connected_vehicle_platform/auth_client.hpp\<close>,
  \<open>src/AuthClient/auth_client.cpp\<close>). The injected \<open>IAuthBackend\<close> is a function field, \<open>None\<close>
  for a null pointer. A \<open>steady_clock\<close> time point is its count of nanoseconds; reading the clock
  is an operation on the world.
\<close>

section \<open>The class\<close>

record AuthRequest =
  vehicle_id :: string
  vehicle_secret :: string

record AuthResponse =
  access_token :: string
  expires_in :: int

type_synonym 'w auth_backend = "AuthRequest \<Rightarrow> 'w \<Rightarrow> AuthResponse \<times> 'w"
type_synonym 'w clock = "'w \<Rightarrow> int \<times> 'w"

definition empty_response :: AuthResponse where
  "empty_response = \<lparr>access_token = [], expires_in = 0\<rparr>"

record 'w AuthClient =
  ac_backend :: "'w auth_backend option"
  ac_vehicle_id :: string
  ac_vehicle_secret :: string
  ac_token :: string
  ac_expires_at :: int

definition nanos :: "int \<Rightarrow> int" where
  "nanos s = s * 1000000000"

definition AuthClient_new ::
  "'w clock \<Rightarrow> 'w auth_backend option \<Rightarrow> string \<Rightarrow> string \<Rightarrow> 'w \<Rightarrow> 'w AuthClient \<times> 'w" where
  "AuthClient_new now backend vid secret w =
     (case now w of (t, w') \<Rightarrow>
      (\<lparr>ac_backend = backend, ac_vehicle_id = vid, ac_vehicle_secret = secret,
        ac_token = [], ac_expires_at = t\<rparr>, w'))"

definition AuthClient_authenticate :: "'w clock \<Rightarrow> ('w AuthClient, 'w, bool) opr" where
  "AuthClient_authenticate now ac w =
     (case ac_backend ac of
        None \<Rightarrow> (False, ac, w)
      | Some backend \<Rightarrow>
          (case backend \<lparr>vehicle_id = ac_vehicle_id ac, vehicle_secret = ac_vehicle_secret ac\<rparr> w of
             (response, w1) \<Rightarrow>
               if access_token response = []
               then (case now w1 of (t, w2) \<Rightarrow>
                     (False, ac\<lparr>ac_token := [], ac_expires_at := t\<rparr>, w2))
               else (case now w1 of (t, w2) \<Rightarrow>
                     (True, ac\<lparr>ac_token := access_token response,
                               ac_expires_at := t + nanos (expires_in response)\<rparr>, w2))))"

definition AuthClient_refreshToken :: "'w clock \<Rightarrow> ('w AuthClient, 'w, bool) opr" where
  "AuthClient_refreshToken now ac w = AuthClient_authenticate now ac w"

definition AuthClient_isTokenValid :: "'w clock \<Rightarrow> 'w AuthClient \<Rightarrow> 'w \<Rightarrow> bool \<times> 'w" where
  "AuthClient_isTokenValid now ac w =
     (if ac_token ac = [] then (False, w)
      else (case now w of (t, w') \<Rightarrow> (t < ac_expires_at ac, w')))"

definition AuthClient_clearToken :: "'w clock \<Rightarrow> 'w AuthClient \<Rightarrow> 'w \<Rightarrow> 'w AuthClient \<times> 'w" where
  "AuthClient_clearToken now ac w =
     (case now w of (t, w') \<Rightarrow> (ac\<lparr>ac_token := [], ac_expires_at := t\<rparr>, w'))"

definition AuthClient_token :: "'w AuthClient \<Rightarrow> string" where
  "AuthClient_token ac = ac_token ac"

definition AuthClient_expiresAt :: "'w AuthClient \<Rightarrow> int" where
  "AuthClient_expiresAt ac = ac_expires_at ac"

section \<open>Facts\<close>

lemma authenticate_backend:
  "AuthClient_authenticate now ac w = (r, ac', w') \<Longrightarrow> ac_backend ac' = ac_backend ac"
  by (auto simp: AuthClient_authenticate_def split: option.splits prod.splits if_splits)

lemma authenticate_true:
  "AuthClient_authenticate now ac w = (True, ac', w') \<Longrightarrow> ac_token ac' \<noteq> []"
  by (auto simp: AuthClient_authenticate_def split: option.splits prod.splits if_splits)

lemma authenticate_false:
  "AuthClient_authenticate now ac w = (False, ac', w') \<Longrightarrow> ac_backend ac \<noteq> None \<Longrightarrow> ac_token ac' = []"
  by (auto simp: AuthClient_authenticate_def split: option.splits prod.splits if_splits)

interpretation client_login: credential_holder
  "\<lambda>now. AuthClient_authenticate now" ac_token "\<lambda>ac. ac_backend ac \<noteq> None"
  by unfold_locales (auto dest: authenticate_true authenticate_false authenticate_backend)

text \<open>The token and its expiry, when there is one.\<close>

definition session_of :: "'w AuthClient \<Rightarrow> (string \<times> int) option" where
  "session_of ac = (if ac_token ac = [] then None else Some (ac_token ac, ac_expires_at ac))"

section \<open>Histories of calls\<close>

text \<open>A history is any sequence of calls of the public operations, each with the world it finds: other code
  may do anything in between.\<close>

datatype auth_call = CallAuthenticate | CallRefreshToken | CallClearToken | CallIsTokenValid

fun auth_step :: "'w clock \<Rightarrow> auth_call \<times> 'w \<Rightarrow> 'w AuthClient \<Rightarrow> 'w AuthClient" where
  "auth_step now (CallAuthenticate, w) ac = obj (AuthClient_authenticate now ac w)"
| "auth_step now (CallRefreshToken, w) ac = obj (AuthClient_refreshToken now ac w)"
| "auth_step now (CallClearToken, w) ac = fst (AuthClient_clearToken now ac w)"
| "auth_step now (CallIsTokenValid, w) ac = ac"

fun auth_history :: "'w clock \<Rightarrow> (auth_call \<times> 'w) list \<Rightarrow> 'w AuthClient \<Rightarrow> 'w AuthClient" where
  "auth_history now [] ac = ac"
| "auth_history now (c # cs) ac = auth_history now cs (auth_step now c ac)"

text \<open>What a login is answered: with the stored credentials, a token that is not empty and the clock
  reading at which it arrives, which its lifetime is counted from.\<close>

definition granted :: "'w clock \<Rightarrow> 'w AuthClient \<Rightarrow> 'w \<Rightarrow> string \<Rightarrow> int \<Rightarrow> bool" where
  "granted now ac w tok e \<longleftrightarrow>
     (\<exists>backend response w1 t w2. ac_backend ac = Some backend \<and>
        backend \<lparr>vehicle_id = ac_vehicle_id ac, vehicle_secret = ac_vehicle_secret ac\<rparr> w = (response, w1) \<and>
        now w1 = (t, w2) \<and> access_token response = tok \<and> tok \<noteq> [] \<and> e = t + nanos (expires_in response))"

text \<open>The calls after which an earlier token is gone: a login, unless the backend is null, and
  \<open>clearToken\<close>.\<close>

definition is_login :: "auth_call \<Rightarrow> bool" where
  "is_login c \<longleftrightarrow> c = CallAuthenticate \<or> c = CallRefreshToken"

definition forgets :: "'w AuthClient \<Rightarrow> auth_call \<Rightarrow> bool" where
  "forgets ac c \<longleftrightarrow> c = CallClearToken \<or> is_login c \<and> ac_backend ac \<noteq> None"

definition same_login :: "'w AuthClient \<Rightarrow> 'w AuthClient \<Rightarrow> bool" where
  "same_login a b \<longleftrightarrow> ac_backend a = ac_backend b \<and> ac_vehicle_id a = ac_vehicle_id b \<and>
     ac_vehicle_secret a = ac_vehicle_secret b"

lemma auth_step_same: "same_login (auth_step now c ac) ac"
  by (cases "(now, c, ac)" rule: auth_step.cases)
    (auto simp: same_login_def AuthClient_refreshToken_def AuthClient_authenticate_def
      AuthClient_clearToken_def obj_def split: option.split prod.split)

lemma same_login_facts:
  "same_login a b \<Longrightarrow> granted now a w tok e = granted now b w tok e" "same_login a b \<Longrightarrow> forgets a c = forgets b c"
  by (simp_all add: same_login_def granted_def forgets_def)

text \<open>One call: a login leaves what it is granted, \<open>clearToken\<close> nothing, any other call what there was.\<close>

lemma auth_step_session:
  "session_of (auth_step now (c, w) ac) = Some (tok, e) \<longleftrightarrow>
     is_login c \<and> granted now ac w tok e \<or> \<not> forgets ac c \<and> session_of ac = Some (tok, e)"
  by (cases c) (auto simp: session_of_def granted_def forgets_def is_login_def AuthClient_refreshToken_def
      AuthClient_authenticate_def AuthClient_clearToken_def obj_def split: option.splits prod.splits if_splits)

text \<open>Where the token of a history comes from.\<close>

definition origin :: "'w clock \<Rightarrow> (auth_call \<times> 'w) list \<Rightarrow> 'w AuthClient \<Rightarrow> string \<Rightarrow> int \<Rightarrow> bool" where
  "origin now hist ac tok e \<longleftrightarrow>
     (\<exists>pre c w post. hist = pre @ (c, w) # post \<and> is_login c \<and> granted now ac w tok e \<and>
        list_all (\<lambda>p. \<not> forgets ac (fst p)) post) \<or>
     list_all (\<lambda>p. \<not> forgets ac (fst p)) hist \<and> session_of ac = Some (tok, e)"

lemma last_such_snoc:
  "(\<exists>pre x post. xs @ [y] = pre @ x # post \<and> P x \<and> list_all Q post) \<longleftrightarrow>
     P y \<or> Q y \<and> (\<exists>pre x post. xs = pre @ x # post \<and> P x \<and> list_all Q post)" (is "?l \<longleftrightarrow> ?r")
proof
  assume ?l
  then obtain pre x post where "xs @ [y] = pre @ x # post" "P x" "list_all Q post" by blast
  then show ?r by (cases post rule: rev_cases) auto
next
  assume ?r
  then show ?l
  proof
    assume "P y"
    then show ?l by (intro exI [of _ xs] exI [of _ y] exI [of _ "[]"]) simp
  next
    assume "Q y \<and> (\<exists>pre x post. xs = pre @ x # post \<and> P x \<and> list_all Q post)"
    then obtain pre x post where "Q y" "xs = pre @ x # post" "P x" "list_all Q post" by blast
    then show ?l by (intro exI [of _ pre] exI [of _ x] exI [of _ "post @ [y]"]) simp
  qed
qed

lemma origin_snoc:
  "origin now (hist @ [(c, w)]) ac tok e \<longleftrightarrow>
     is_login c \<and> granted now ac w tok e \<or> \<not> forgets ac c \<and> origin now hist ac tok e"
  using last_such_snoc [of hist "(c, w)" "\<lambda>p. is_login (fst p) \<and> granted now ac (snd p) tok e"
      "\<lambda>p. \<not> forgets ac (fst p)"]
  by (auto simp: origin_def)

lemma auth_history_snoc: "auth_history now (hist @ [c]) ac = auth_step now c (auth_history now hist ac)"
  by (induction hist arbitrary: ac) simp_all

lemma auth_history_same: "same_login (auth_history now hist ac) ac"
proof (induction hist arbitrary: ac)
  case (Cons c hist)
  from Cons.IH [of "auth_step now c ac"] auth_step_same [of now c ac] show ?case by (simp add: same_login_def)
qed (simp add: same_login_def)

lemma auth_history_session:
  "session_of (auth_history now hist ac) = Some (tok, e) \<longleftrightarrow> origin now hist ac tok e"
proof (induction hist rule: rev_induct)
  case Nil
  then show ?case by (simp add: origin_def)
next
  case (snoc p hist)
  obtain c w where p: "p = (c, w)" by (cases p)
  note same = same_login_facts [OF auth_history_same]
  show ?case
    unfolding p auth_history_snoc auth_step_session origin_snoc snoc.IH [symmetric] same ..
qed

section \<open>Properties\<close>

text \<open>C35: \<open>AuthClient\<close> remembers its last login. After any history of \<open>authenticate\<close>, \<open>refreshToken\<close>,
  \<open>clearToken\<close> and \<open>isTokenValid\<close>, whatever the backend and the clock answer and whether there is a backend
  or not: the client holds token \<open>tok\<close> with expiry \<open>e\<close> exactly when some login of the history was granted
  them, for the stored credentials and counted from the clock reading after the answer, and no later
  call has cleared the token or logged in with a backend; or when it held them before and no call of
  the history has done so. A null backend changes nothing. \<open>isTokenValid\<close> then answers whether the
  clock is before that expiry.\<close>

theorem auth_client_remembers_last_login:
  "(AuthClient_token (auth_history now hist ac) = tok \<and> tok \<noteq> [] \<and>
     AuthClient_expiresAt (auth_history now hist ac) = e \<longleftrightarrow>
     (\<exists>pre c w post. hist = pre @ (c, w) # post \<and> is_login c \<and> granted now ac w tok e \<and>
        list_all (\<lambda>p. \<not> forgets ac (fst p)) post) \<or>
     list_all (\<lambda>p. \<not> forgets ac (fst p)) hist \<and> session_of ac = Some (tok, e))
   \<and> fst (AuthClient_isTokenValid now (auth_history now hist ac) v) =
     (\<exists>tok e. session_of (auth_history now hist ac) = Some (tok, e) \<and> fst (now v) < e)"
  using auth_history_session [of now hist ac tok e]
  by (auto simp: origin_def session_of_def AuthClient_token_def AuthClient_expiresAt_def
      AuthClient_isTokenValid_def case_prod_unfold)

definition tick_clock :: "int clock" where
  "tick_clock w = (w, w + 1)"

definition const_backend :: "string \<Rightarrow> int \<Rightarrow> 'w auth_backend" where
  "const_backend tok ttl request w = (\<lparr>access_token = tok, expires_in = ttl\<rparr>, w)"

definition demo_client :: "string \<Rightarrow> int \<Rightarrow> int AuthClient" where
  "demo_client tok ttl =
     \<lparr>ac_backend = Some (const_backend tok ttl), ac_vehicle_id = ''ECU_001'',
      ac_vehicle_secret = ''secret123'', ac_token = [], ac_expires_at = 0\<rparr>"

text \<open>After a login that succeeded at clock reading \<open>t\<close>, the token is valid exactly until
  \<open>t\<close> plus the lifetime of the response; after a failed login or \<open>clearToken\<close> no clock
  reading makes it valid again.\<close>

theorem token_validity_window:
  assumes "AuthClient_authenticate now ac w = (r, ac', w')" and "ac_backend ac = Some backend"
    and "now w3 = (t', w4)"
  shows "\<exists>response w1 t. backend \<lparr>vehicle_id = ac_vehicle_id ac, vehicle_secret = ac_vehicle_secret ac\<rparr> w
        = (response, w1) \<and> now w1 = (t, w') \<and>
      fst (AuthClient_isTokenValid now ac' w3) = (r \<and> t' < t + nanos (expires_in response)) \<and>
      \<not> fst (AuthClient_isTokenValid now (fst (AuthClient_clearToken now ac' w3)) w4)"
  using assms
  by (auto simp: AuthClient_authenticate_def AuthClient_isTokenValid_def AuthClient_clearToken_def
      split: prod.splits if_splits)

theorem token_validity_window_witness:
  "fst (AuthClient_isTokenValid tick_clock
     (obj (AuthClient_authenticate tick_clock (demo_client ''jwt'' 1) 0)) 999999999) \<and>
   \<not> fst (AuthClient_isTokenValid tick_clock
     (obj (AuthClient_authenticate tick_clock (demo_client ''jwt'' 1) 0)) 1000000000)"
proof -
  have a: "AuthClient_authenticate tick_clock (demo_client ''jwt'' 1) 0 =
      (True, obj (AuthClient_authenticate tick_clock (demo_client ''jwt'' 1) 0), 1)"
    by (simp add: AuthClient_authenticate_def demo_client_def const_backend_def tick_clock_def)
  have b: "ac_backend (demo_client ''jwt'' 1) = Some (const_backend ''jwt'' 1)"
    by (simp add: demo_client_def)
  show ?thesis
    using token_validity_window [OF a b, of 999999999 999999999 1000000000]
      token_validity_window [OF a b, of 1000000000 1000000000 1000000001]
    by (auto simp: tick_clock_def const_backend_def nanos_def)
qed

text \<open>A response with a token but no remaining lifetime is still reported as a successful
  login, and the token it stores is never valid for a clock that does not run backwards.\<close>

theorem expired_login_reports_success:
  assumes "ac_backend ac = Some backend"
    and "backend \<lparr>vehicle_id = ac_vehicle_id ac, vehicle_secret = ac_vehicle_secret ac\<rparr> w = (response, w1)"
    and "access_token response \<noteq> []" and "expires_in response \<le> 0"
    and "now w1 = (t, w2)" and "now w3 = (t', w4)" and "t \<le> t'"
  shows "\<exists>ac'. AuthClient_authenticate now ac w = (True, ac', w2) \<and>
    \<not> fst (AuthClient_isTokenValid now ac' w3)"
  using assms by (auto simp: AuthClient_authenticate_def AuthClient_isTokenValid_def nanos_def)

theorem expired_login_reports_success_witness:
  "\<exists>ac'. AuthClient_authenticate tick_clock (demo_client ''jwt'' 0) 7 = (True, ac', 8) \<and>
    \<not> fst (AuthClient_isTokenValid tick_clock ac' 8)"
  using expired_login_reports_success [of "demo_client ''jwt'' 0" "const_backend ''jwt'' 0" 7
      "\<lparr>access_token = ''jwt'', expires_in = 0\<rparr>" 7 tick_clock 7 8 8 8 9]
  by (simp add: demo_client_def const_backend_def tick_clock_def)

text \<open>The expiry computation stays inside the signed 64-bit nanosecond count of a time point for
  every clock reading up to 100 years and every lifetime up to 100 years.\<close>

theorem expiry_in_range:
  assumes "AuthClient_authenticate now ac w = (r, ac', w')"
    and "\<And>u. 0 \<le> fst (now u) \<and> fst (now u) \<le> nanos 3153600000"
    and "\<And>b req u. ac_backend ac = Some b \<Longrightarrow>
      0 \<le> expires_in (fst (b req u)) \<and> expires_in (fst (b req u)) \<le> 3153600000"
    and "0 \<le> ac_expires_at ac" and "ac_expires_at ac < 2 ^ 63"
  shows "0 \<le> ac_expires_at ac' \<and> ac_expires_at ac' < 2 ^ 63"
proof (cases "ac_backend ac")
  case None
  with assms show ?thesis by (simp add: AuthClient_authenticate_def)
next
  case (Some b)
  obtain response w1 where b: "b \<lparr>vehicle_id = ac_vehicle_id ac, vehicle_secret = ac_vehicle_secret ac\<rparr> w
      = (response, w1)" by fastforce
  obtain t w2 where t: "now w1 = (t, w2)" by fastforce
  have "0 \<le> t" "t \<le> nanos 3153600000" using assms(2) [of w1] t by simp_all
  moreover have "0 \<le> expires_in response" "expires_in response \<le> 3153600000"
    using assms(3) [OF Some, of "\<lparr>vehicle_id = ac_vehicle_id ac, vehicle_secret = ac_vehicle_secret ac\<rparr>" w] b
    by simp_all
  ultimately show ?thesis
    using assms(1) Some b t
    by (auto simp: AuthClient_authenticate_def nanos_def split: if_splits)
qed

theorem expiry_in_range_witness:
  "ac_expires_at (obj (AuthClient_authenticate (\<lambda>w. (0, w)) (demo_client ''jwt'' 3600) 0)) < 2 ^ 63"
  using expiry_in_range [of "\<lambda>w. (0, w)" "demo_client ''jwt'' 3600" 0 True
      "obj (AuthClient_authenticate (\<lambda>w. (0, w)) (demo_client ''jwt'' 3600) 0)" 0]
  by (simp add: AuthClient_authenticate_def demo_client_def const_backend_def nanos_def)

text \<open>Over any number of logins with a backend, the token present at the end tells whether the
  last login succeeded, whatever the earlier ones did.\<close>

theorem last_login_decides:
  assumes "ac_backend ac = Some backend"
    and "run_logins AuthClient_authenticate (replicate (Suc n) now) ac w = (rs, ac', w')"
  shows "length rs = Suc n \<and> (last rs \<longleftrightarrow> session_of ac' \<noteq> None)"
  using client_login.logins_last [OF _ _ assms(2)] run_logins_length [OF assms(2)] assms(1)
  by (simp add: session_of_def)

theorem last_login_decides_witness:
  "session_of (obj (run_logins AuthClient_authenticate (replicate 2 tick_clock) (demo_client ''jwt'' 1) 0)) \<noteq> None"
  using last_login_decides [of "demo_client ''jwt'' 1" "const_backend ''jwt'' 1" 1 tick_clock 0
      "res (run_logins AuthClient_authenticate (replicate 2 tick_clock) (demo_client ''jwt'' 1) 0)"
      "obj (run_logins AuthClient_authenticate (replicate 2 tick_clock) (demo_client ''jwt'' 1) 0)"
      "wld (run_logins AuthClient_authenticate (replicate 2 tick_clock) (demo_client ''jwt'' 1) 0)"]
  by (simp add: demo_client_def opr_collapse numeral_2_eq_2 AuthClient_authenticate_def
      const_backend_def tick_clock_def)

end
