(* ===== verification/Auth_Session.thy ===== *)
theory Auth_Session
  imports Auth_Interface
begin

text \<open>
  \<open>AuthSession\<close> (\<open>include/connected_vehicle_platform/auth_session.hpp\<close>,
  \<open>src/auth/auth_session.cpp\<close>): the retry loop around an optional token provider. The provider
  and \<open>sleep_for\<close> act on the world; a null \<open>std::function\<close> is \<open>None\<close>. The \<open>int\<close> counter never
  passes \<open>max_retries\<close>, so it cannot overflow and is an \<open>int\<close> here.
\<close>

section \<open>The class\<close>

definition kDefaultTenant :: string where
  "kDefaultTenant = ''vehicle''"

definition kDefaultMaxRetries :: int where
  "kDefaultMaxRetries = 3"

definition kRetryDelayMs :: int where
  "kRetryDelayMs = 200"

record AuthSession =
  as_tenant :: string
  as_token :: string
  as_authenticated :: bool

definition AuthSession_new :: "string \<Rightarrow> AuthSession" where
  "AuthSession_new tenant = \<lparr>as_tenant = tenant, as_token = [], as_authenticated = False\<rparr>"

function retry_loop ::
  "('w \<Rightarrow> string \<times> 'w) option \<Rightarrow> (int \<Rightarrow> 'w \<Rightarrow> 'w) \<Rightarrow> int \<Rightarrow> int \<Rightarrow> string \<Rightarrow> 'w
    \<Rightarrow> string \<times> 'w" where
  "retry_loop provider sleep max_retries attempts tok w =
     (case provider of
        None \<Rightarrow> (tok, w)
      | Some p \<Rightarrow>
          if tok = [] \<and> attempts < max_retries
          then (case p w of (tok', w1) \<Rightarrow>
                retry_loop provider sleep max_retries (attempts + 1) tok'
                  (if tok' = [] \<and> attempts + 1 < max_retries then sleep kRetryDelayMs w1 else w1))
          else (tok, w))"
  by pat_completeness auto
termination
  by (relation "measure (\<lambda>(p, sl, m, a, tok, w). nat (m - a))") auto

declare retry_loop.simps [simp del]

definition AuthSession_authenticate ::
  "(int \<Rightarrow> 'w \<Rightarrow> 'w) \<Rightarrow> string \<times> ('w \<Rightarrow> string \<times> 'w) option \<times> int \<Rightarrow> (AuthSession, 'w, bool) opr"
where
  "AuthSession_authenticate sleep args s w =
     (case args of (tok, provider, max_retries) \<Rightarrow>
      case retry_loop provider sleep max_retries 0 tok w of (tok', w') \<Rightarrow>
        (tok' \<noteq> [], s\<lparr>as_token := tok', as_authenticated := (tok' \<noteq> [])\<rparr>, w'))"

definition AuthSession_isAuthenticated :: "AuthSession \<Rightarrow> bool" where
  "AuthSession_isAuthenticated s = as_authenticated s"

definition AuthSession_tenant :: "AuthSession \<Rightarrow> string" where
  "AuthSession_tenant s = as_tenant s"

definition AuthSession_get_token :: "AuthSession \<Rightarrow> string" where
  "AuthSession_get_token s = as_token s"

interpretation session_login: credential_holder "AuthSession_authenticate sleep" as_token "\<lambda>_. True"
  by unfold_locales (auto simp: AuthSession_authenticate_def split: prod.splits)

section \<open>The loop against a reference search\<close>

text \<open>
  The reference counts down the calls that are left: it asks the provider, stops at the first
  non-empty token and pauses only between two calls.
\<close>

fun first_token :: "('w \<Rightarrow> string \<times> 'w) \<Rightarrow> (int \<Rightarrow> 'w \<Rightarrow> 'w) \<Rightarrow> nat \<Rightarrow> 'w \<Rightarrow> string \<times> 'w" where
  "first_token p sleep 0 w = ([], w)"
| "first_token p sleep (Suc 0) w = p w"
| "first_token p sleep (Suc (Suc n)) w =
     (case p w of (tok, w1) \<Rightarrow>
      if tok = [] then first_token p sleep (Suc n) (sleep kRetryDelayMs w1) else (tok, w1))"

lemma retry_loop_stop: "tok \<noteq> [] \<Longrightarrow> retry_loop provider sleep m a tok w = (tok, w)"
  by (subst retry_loop.simps) (simp split: option.splits)

lemma retry_loop_null: "retry_loop None sleep m a tok w = (tok, w)"
  by (subst retry_loop.simps) simp

lemma retry_loop_eq_first_token:
  "retry_loop (Some p) sleep m a [] w = first_token p sleep (nat (m - a)) w"
proof (induction "nat (m - a)" arbitrary: a w rule: less_induct)
  case less
  consider "m \<le> a" | "m = a + 1" | k where "nat (m - a) = Suc (Suc k)" "a + 1 < m"
  proof -
    have "m \<le> a \<or> m = a + 1 \<or> nat (m - a) = Suc (Suc (nat (m - a - 2))) \<and> a + 1 < m" by linarith
    then show ?thesis using that by blast
  qed
  then show ?case
  proof cases
    case 1
    then show ?thesis by (subst retry_loop.simps) simp
  next
    case 2
    have "retry_loop (Some p) sleep (a + 1) (a + 1) tok u = (tok, u)" for tok u
      by (subst retry_loop.simps) simp
    then show ?thesis using 2 by (subst retry_loop.simps) (simp split: prod.splits)
  next
    case (3 k)
    then have "nat (m - (a + 1)) = Suc k" and "nat (m - (a + 1)) < nat (m - a)" by linarith+
    with less [of "a + 1"] 3 show ?thesis
      by (subst retry_loop.simps) (auto simp: retry_loop_stop split: prod.splits)
  qed
qed

section \<open>Counting calls and pauses\<close>

text \<open>Any provider and any pause, instrumented with a counter of each.\<close>

definition counted_provider ::
  "('w \<Rightarrow> string \<times> 'w) \<Rightarrow> 'w \<times> nat \<times> nat \<Rightarrow> string \<times> 'w \<times> nat \<times> nat" where
  "counted_provider p w = (case w of (v, calls, naps) \<Rightarrow>
     case p v of (tok, v') \<Rightarrow> (tok, v', Suc calls, naps))"

definition counted_sleep :: "(int \<Rightarrow> 'w \<Rightarrow> 'w) \<Rightarrow> int \<Rightarrow> 'w \<times> nat \<times> nat \<Rightarrow> 'w \<times> nat \<times> nat" where
  "counted_sleep sleep ms w = (case w of (v, calls, naps) \<Rightarrow> (sleep ms v, calls, Suc naps))"

lemma counted_simps [simp]:
  "counted_provider p (v, calls, naps) = (case p v of (tok, v') \<Rightarrow> (tok, v', Suc calls, naps))"
  "counted_sleep sleep ms (v, calls, naps) = (sleep ms v, calls, Suc naps)"
  by (simp_all add: counted_provider_def counted_sleep_def)

lemma first_token_counts:
  "first_token (counted_provider p) (counted_sleep sleep) n (v, c, d) = (tok, v', c', d') \<Longrightarrow>
     c \<le> c' \<and> c' \<le> c + n \<and> (0 < n \<longrightarrow> c < c' \<and> d' + c + 1 = d + c') \<and> (n = 0 \<longrightarrow> c' = c \<and> d' = d)
     \<and> (tok = [] \<longrightarrow> c' = c + n)"
proof (induction n arbitrary: v c d)
  case 0
  then show ?case by simp
next
  case (Suc n)
  obtain t u where t: "p v = (t, u)" by fastforce
  show ?case
  proof (cases n)
    case 0
    with Suc.prems t show ?thesis by simp
  next
    case (Suc k)
    show ?thesis
    proof (cases "t = []")
      case True
      with Suc.prems t Suc have "first_token (counted_provider p) (counted_sleep sleep) n
          (sleep kRetryDelayMs u, Suc c, Suc d) = (tok, v', c', d')"
        by simp
      from Suc.IH [OF this] Suc show ?thesis by simp
    next
      case False
      with Suc.prems t Suc show ?thesis by auto
    qed
  qed
qed

section \<open>Properties\<close>

text \<open>C39: \<open>authenticate\<close> with an empty token and a provider is the reference search: it asks the
  provider at most \<open>max_retries\<close> times, stops at the first non-empty token, pauses 200 ms between
  two calls only, and stores and reports what the search found.\<close>

theorem session_authenticate_is_search:
  "AuthSession_authenticate sleep ([], Some p, max_retries) s w =
     (case first_token p sleep (nat max_retries) w of (tok, w') \<Rightarrow>
      (tok \<noteq> [], s\<lparr>as_token := tok, as_authenticated := (tok \<noteq> [])\<rparr>, w'))"
  by (simp add: AuthSession_authenticate_def retry_loop_eq_first_token)

text \<open>Whatever the provider returns, the retry loop ends after at least one and at most
  \<open>max_retries\<close> calls with exactly one pause fewer than calls; when it fails it has used every
  call it was given.\<close>

theorem session_retry_counts:
  assumes "AuthSession_authenticate (counted_sleep sleep)
      ([], Some (counted_provider p), max_retries) s (v, 0, 0) = (ok, s', v', calls, naps)"
    and "0 < max_retries"
  shows "1 \<le> calls \<and> int calls \<le> max_retries \<and> naps + 1 = calls \<and>
    (\<not> ok \<longrightarrow> int calls = max_retries)"
proof -
  from assms(1) obtain tok where
    "first_token (counted_provider p) (counted_sleep sleep) (nat max_retries) (v, 0, 0)
       = (tok, v', calls, naps)" and "ok \<longleftrightarrow> tok \<noteq> []"
    by (auto simp: AuthSession_authenticate_def retry_loop_eq_first_token split: prod.splits)
  with first_token_counts [of p sleep "nat max_retries" v 0 0 tok v' calls naps] assms(2)
  show ?thesis by auto
qed

text \<open>A provider that serves a list of answers, then empty strings.\<close>

definition list_provider :: "string list \<Rightarrow> string \<times> string list" where
  "list_provider xs = (case xs of [] \<Rightarrow> ([], []) | x # ys \<Rightarrow> (x, ys))"

definition no_sleep :: "int \<Rightarrow> 'w \<Rightarrow> 'w" where
  "no_sleep ms w = w"

theorem session_retry_counts_witness:
  "AuthSession_authenticate (counted_sleep no_sleep) ([], Some (counted_provider list_provider), 3)
     (AuthSession_new ''test-tenant'') ([[], [], ''provided-token-2''], 0, 0) =
     (True, \<lparr>as_tenant = ''test-tenant'', as_token = ''provided-token-2'', as_authenticated = True\<rparr>,
      [], 3, 2) \<and> int 3 \<le> 3"
proof -
  have e: "AuthSession_authenticate (counted_sleep no_sleep)
      ([], Some (counted_provider list_provider), 3)
     (AuthSession_new ''test-tenant'') ([[], [], ''provided-token-2''], 0, 0) =
     (True, \<lparr>as_tenant = ''test-tenant'', as_token = ''provided-token-2'', as_authenticated = True\<rparr>,
      [], 3, 2)"
    by (simp add: AuthSession_authenticate_def retry_loop_eq_first_token numeral_3_eq_3
        numeral_2_eq_2 list_provider_def no_sleep_def
        AuthSession_new_def)
  with session_retry_counts [OF e] show ?thesis by simp
qed

text \<open>A session is authenticated exactly when it holds a token, from construction on and after
  every call; a call that is given a token, or no provider, leaves the world alone.\<close>

definition session_inv :: "AuthSession \<Rightarrow> bool" where
  "session_inv s \<longleftrightarrow> (AuthSession_isAuthenticated s \<longleftrightarrow> as_token s \<noteq> [])"

theorem session_authenticated_iff_token:
  "session_inv (AuthSession_new tenant) \<and>
   session_inv (obj (AuthSession_authenticate sleep (tok, provider, max_retries) s w)) \<and>
   as_tenant (obj (AuthSession_authenticate sleep (tok, provider, max_retries) s w)) = as_tenant s \<and>
   (tok = [] \<or> wld (AuthSession_authenticate sleep (tok, provider, max_retries) s w) = w) \<and>
   wld (AuthSession_authenticate sleep (tok, None, max_retries) s w) = w"
  by (cases "tok = []")
    (auto simp: session_inv_def AuthSession_isAuthenticated_def AuthSession_new_def
      AuthSession_authenticate_def retry_loop_stop retry_loop_null split: prod.splits)

end
