(* ===== verification/Mqtt_Interface.thy ===== *)
theory Mqtt_Interface
  imports Cvp_Prelude
begin

text \<open>
  The two abstract classes of \<open>include/connected_vehicle_platform/mqtt_client.hpp\<close>,
  \<open>IMqttBackend\<close> and \<open>IMqttClient\<close>, as records of operations (one field per virtual function),
  and the contract they share: a connection that is up or down, calls that send only while it is
  up, and a connect whose result tells whether it is up afterwards.
\<close>

section \<open>Configuration and the abstract classes\<close>

definition kDefaultQos :: int where
  "kDefaultQos = 1"

record MqttConfig =
  broker :: string
  client_id :: string
  telemetry_topic :: string
  command_topic :: string
  qos :: int

record ('b, 'w) backend_ops =
  b_connect :: "string \<Rightarrow> string \<Rightarrow> ('b, 'w, bool) opr"
  b_disconnect :: "('b, 'w, bool) opr"
  b_publish :: "string \<Rightarrow> string \<Rightarrow> int \<Rightarrow> ('b, 'w, bool) opr"
  b_subscribe :: "string \<Rightarrow> int \<Rightarrow> ('b, 'w, bool) opr"
  b_isConnected :: "'b \<Rightarrow> 'w \<Rightarrow> bool"

record ('c, 'w) client_ops =
  m_connect :: "('c, 'w, bool) opr"
  m_disconnect :: "('c, 'w, bool) opr"
  m_reconnect :: "('c, 'w, bool) opr"
  m_publish :: "string \<Rightarrow> string \<Rightarrow> int \<Rightarrow> ('c, 'w, bool) opr"
  m_subscribe :: "string \<Rightarrow> int \<Rightarrow> ('c, 'w, bool) opr"
  m_isConnected :: "'c \<Rightarrow> bool"
  m_config :: "'c \<Rightarrow> MqttConfig"

text \<open>What a connected object sends: a publication or a subscription request.\<close>

datatype request = Publish string string int | Subscribe string int

fun send_backend :: "('b, 'w) backend_ops \<Rightarrow> request \<Rightarrow> ('b, 'w, bool) opr" where
  "send_backend B (Publish topic payload q) = b_publish B topic payload q"
| "send_backend B (Subscribe topic q) = b_subscribe B topic q"

fun send_client :: "('c, 'w) client_ops \<Rightarrow> request \<Rightarrow> ('c, 'w, bool) opr" where
  "send_client M (Publish topic payload q) = m_publish M topic payload q"
| "send_client M (Subscribe topic q) = m_subscribe M topic q"

section \<open>Connections\<close>

datatype call = Connect | Disconnect | Send request

fun run_call ::
  "('s, 'w, bool) opr \<Rightarrow> ('s, 'w, bool) opr \<Rightarrow> (request \<Rightarrow> ('s, 'w, bool) opr) \<Rightarrow> call
    \<Rightarrow> ('s, 'w, bool) opr" where
  "run_call conn disc send Connect s w = conn s w"
| "run_call conn disc send Disconnect s w = disc s w"
| "run_call conn disc send (Send m) s w = send m s w"

fun run_calls ::
  "('s, 'w, bool) opr \<Rightarrow> ('s, 'w, bool) opr \<Rightarrow> (request \<Rightarrow> ('s, 'w, bool) opr) \<Rightarrow> call list
    \<Rightarrow> ('s, 'w, bool list) opr" where
  "run_calls conn disc send [] s w = ([], s, w)"
| "run_calls conn disc send (c # cs) s w =
     (case run_call conn disc send c s w of (r, s1, w1) \<Rightarrow>
      case run_calls conn disc send cs s1 w1 of (rs, s2, w2) \<Rightarrow> (r # rs, s2, w2))"

text \<open>
  The abstract machine has one bit. A trace of calls with their results takes it from \<open>up\<close> to
  \<open>link_after up trace\<close>; \<open>link_ok\<close> says that no send of the trace reported success while down.
\<close>

fun link_step :: "bool \<Rightarrow> call \<times> bool \<Rightarrow> bool" where
  "link_step up (Connect, r) = r"
| "link_step up (Disconnect, r) = False"
| "link_step up (Send m, r) = up"

definition link_after :: "bool \<Rightarrow> (call \<times> bool) list \<Rightarrow> bool" where
  "link_after up trace = foldl link_step up trace"

fun link_ok :: "bool \<Rightarrow> (call \<times> bool) list \<Rightarrow> bool" where
  "link_ok up [] = True"
| "link_ok up ((Send m, r) # trace) = ((r \<longrightarrow> up) \<and> link_ok up trace)"
| "link_ok up (x # trace) = link_ok (link_step up x) trace"

lemma link_after_simps [simp]:
  "link_after up [] = up" "link_after up (x # trace) = link_after (link_step up x) trace"
  by (simp_all add: link_after_def)

locale connection =
  fixes conn disc :: "('s, 'w, bool) opr"
    and send :: "request \<Rightarrow> ('s, 'w, bool) opr"
    and up :: "'s \<Rightarrow> bool"
    and inv :: "'s \<Rightarrow> bool"
  assumes conn_up: "inv s \<Longrightarrow> conn s w = (r, s', w') \<Longrightarrow> up s' = r \<and> inv s'"
    and conn_idem: "inv s \<Longrightarrow> up s \<Longrightarrow> conn s w = (True, s, w)"
    and disc_down: "inv s \<Longrightarrow> disc s w = (r, s', w') \<Longrightarrow> \<not> up s' \<and> inv s'"
    and send_up: "inv s \<Longrightarrow> send m s w = (r, s', w') \<Longrightarrow> up s' = up s \<and> inv s'"
    and send_down: "inv s \<Longrightarrow> \<not> up s \<Longrightarrow> send m s w = (False, s, w)"
begin

lemma call_link:
  "inv s \<Longrightarrow> run_call conn disc send c s w = (r, s', w') \<Longrightarrow> up s' = link_step (up s) (c, r) \<and> inv s'"
  using conn_up [of s w r s' w'] disc_down [of s w r s' w'] send_up [of s _ w r s' w']
  by (cases c) simp_all

lemma calls_link:
  "inv s \<Longrightarrow> run_calls conn disc send cs s w = (rs, s', w') \<Longrightarrow>
     length rs = length cs \<and> up s' = link_after (up s) (zip cs rs) \<and>
     link_ok (up s) (zip cs rs) \<and> inv s'"
proof (induction cs arbitrary: s w rs s' w')
  case Nil
  then show ?case by simp
next
  case (Cons c cs)
  obtain r s1 w1 where c: "run_call conn disc send c s w = (r, s1, w1)"
    by (cases "run_call conn disc send c s w") auto
  obtain rs' s2 w2 where cs: "run_calls conn disc send cs s1 w1 = (rs', s2, w2)"
    by (cases "run_calls conn disc send cs s1 w1") auto
  from Cons.prems(2) c cs have eq: "rs = r # rs'" "s' = s2" by simp_all
  from call_link [OF Cons.prems(1) c] have s1: "up s1 = link_step (up s) (c, r)" "inv s1" by simp_all
  have "r \<longrightarrow> up s" if "c = Send m" for m
    using send_down [OF Cons.prems(1), of m w] c that by auto
  then have "link_ok (up s) ((c, r) # zip cs rs') = link_ok (up s1) (zip cs rs')"
    using s1(1) by (cases c) simp_all
  with Cons.IH [OF s1(2) cs] eq s1(1) show ?case by simp
qed

text \<open>While the connection is down, sending has no effect at all.\<close>

lemma sends_down:
  "inv s \<Longrightarrow> \<not> up s \<Longrightarrow>
     run_calls conn disc send (map Send ms) s w = (replicate (length ms) False, s, w)"
  by (induction ms) (simp_all add: send_down)

end

text \<open>A call of any \<open>IMqttClient\<close>, \<open>reconnect\<close> included, and sequences of them.\<close>

datatype client_call = Call call | Reconnect

fun client_op :: "('c, 'w) client_ops \<Rightarrow> client_call \<Rightarrow> ('c, 'w, bool) opr" where
  "client_op M (Call k) c w = run_call (m_connect M) (m_disconnect M) (send_client M) k c w"
| "client_op M Reconnect c w = m_reconnect M c w"

fun client_run :: "('c, 'w) client_ops \<Rightarrow> client_call list \<Rightarrow> 'c \<Rightarrow> 'w \<Rightarrow> 'c \<times> 'w" where
  "client_run M [] c w = (c, w)"
| "client_run M (k # ks) c w =
     (case client_op M k c w of (_, c1, w1) \<Rightarrow> client_run M ks c1 w1)"

lemma client_run_invariant:
  assumes "\<And>k c w r c' w'. P c w \<Longrightarrow> client_op M k c w = (r, c', w') \<Longrightarrow> P c' w'"
  shows "P c w \<Longrightarrow> client_run M ks c w = (c', w') \<Longrightarrow> P c' w'"
proof (induction ks arbitrary: c w)
  case Nil
  then show ?case by simp
next
  case (Cons k ks)
  obtain r c1 w1 where k: "client_op M k c w = (r, c1, w1)"
    by (cases "client_op M k c w") auto
  from assms [OF Cons.prems(1) k] Cons.prems(2) k show ?case
    by (intro Cons.IH [of c1 w1]) simp_all
qed

lemma client_op_cases:
  assumes "client_op M k c w = (r, c', w')"
  obtains "m_connect M c w = (r, c', w')" | "m_disconnect M c w = (r, c', w')"
  | m where "send_client M m c w = (r, c', w')" | "m_reconnect M c w = (r, c', w')"
proof (cases k)
  case (Call j)
  with assms that show ?thesis by (cases j) auto
next
  case Reconnect
  with assms that show ?thesis by simp
qed

text \<open>
  An \<open>IMqttClient\<close> is a connection whose \<open>reconnect\<close> reports the state it leaves behind and
  whose configuration never changes.
\<close>

locale mqtt_client =
  fixes M :: "('c, 'w) client_ops"
    and inv :: "'c \<Rightarrow> bool"
  assumes client_connect: "inv c \<Longrightarrow> m_connect M c w = (r, c', w') \<Longrightarrow>
      m_isConnected M c' = r \<and> inv c' \<and> m_config M c' = m_config M c"
    and client_connect_idem: "inv c \<Longrightarrow> m_isConnected M c \<Longrightarrow> m_connect M c w = (True, c, w)"
    and client_disconnect: "inv c \<Longrightarrow> m_disconnect M c w = (r, c', w') \<Longrightarrow>
      \<not> m_isConnected M c' \<and> inv c' \<and> m_config M c' = m_config M c"
    and client_reconnect: "inv c \<Longrightarrow> m_reconnect M c w = (r, c', w') \<Longrightarrow>
      m_isConnected M c' = r \<and> inv c' \<and> m_config M c' = m_config M c"
    and client_send: "inv c \<Longrightarrow> send_client M m c w = (r, c', w') \<Longrightarrow>
      m_isConnected M c' = m_isConnected M c \<and> inv c' \<and> m_config M c' = m_config M c"
    and client_send_down: "inv c \<Longrightarrow> \<not> m_isConnected M c \<Longrightarrow> send_client M m c w = (False, c, w)"

sublocale mqtt_client \<subseteq> link: connection "m_connect M" "m_disconnect M" "send_client M" "m_isConnected M" inv
proof (unfold_locales, goal_cases)
  case (1 s w r s' w')
  then show ?case using client_connect [OF 1] by simp
next
  case (2 s w)
  then show ?case by (rule client_connect_idem)
next
  case (3 s w r s' w')
  then show ?case using client_disconnect [OF 3] by simp
next
  case (4 s m w r s' w')
  then show ?case using client_send [OF 4] by simp
next
  case (5 s m w)
  then show ?case by (rule client_send_down)
qed

context mqtt_client
begin

lemma client_publish:
  "inv c \<Longrightarrow> m_publish M topic payload q c w = (r, c', w') \<Longrightarrow>
     m_isConnected M c' = m_isConnected M c \<and> inv c' \<and> m_config M c' = m_config M c"
  using client_send [of c "Publish topic payload q"] by simp

lemma client_publish_down:
  "inv c \<Longrightarrow> \<not> m_isConnected M c \<Longrightarrow> m_publish M topic payload q c w = (False, c, w)"
  using client_send_down [of c "Publish topic payload q"] by simp

lemma client_publish_true:
  "inv c \<Longrightarrow> m_publish M topic payload q c w = (True, c', w') \<Longrightarrow> m_isConnected M c"
  using client_publish_down [of c topic payload q w] by fastforce

lemma client_op_inv:
  assumes "inv c" and "client_op M k c w = (r, c', w')"
  shows "inv c' \<and> m_config M c' = m_config M c"
  using assms(2)
proof (cases rule: client_op_cases)
  case 1
  with client_connect [OF assms(1)] show ?thesis by blast
next
  case 2
  with client_disconnect [OF assms(1)] show ?thesis by blast
next
  case (3 m)
  with client_send [OF assms(1)] show ?thesis by blast
next
  case 4
  with client_reconnect [OF assms(1)] show ?thesis by blast
qed

end

end
