(* ===== verification/Mqtt_Client.thy ===== *)
theory Mqtt_Client
  imports Mqtt_Interface
begin

text \<open>
  \<open>src/MqttClient/mqtt_client.cpp\<close>: the default backend \<open>PahoMqttBackend\<close> over the Paho library
  and \<open>MqttClient\<close> over any backend. The library is a record of operations, a parameter of the
  model; a call that may throw returns \<open>None\<close> when it does. Every method holds the mutex of its
  object for its whole body, except \<open>reconnect\<close>, which is two locked calls in a row.
\<close>

section \<open>The Paho library as a parameter\<close>

record connect_options =
  keep_alive_interval :: int
  clean_session :: bool

record ('h, 't, 'w) paho_ops =
  ph_new :: "string \<Rightarrow> string \<Rightarrow> 'w \<Rightarrow> 'h option \<times> 'w"
  ph_delete :: "'h \<Rightarrow> 'w \<Rightarrow> 'w"
  ph_connect :: "'h \<Rightarrow> connect_options \<Rightarrow> 'w \<Rightarrow> 't option \<times> 'w"
  ph_disconnect :: "'h \<Rightarrow> 'w \<Rightarrow> 't option \<times> 'w"
  ph_publish :: "'h \<Rightarrow> string \<Rightarrow> string \<Rightarrow> int \<Rightarrow> bool \<Rightarrow> 'w \<Rightarrow> 't option \<times> 'w"
  ph_subscribe :: "'h \<Rightarrow> string \<Rightarrow> int \<Rightarrow> 'w \<Rightarrow> 't option \<times> 'w"
  ph_wait_for :: "'t \<Rightarrow> int \<Rightarrow> 'w \<Rightarrow> bool option \<times> 'w"
  ph_return_code :: "'t \<Rightarrow> 'w \<Rightarrow> int"
  ph_is_connected :: "'h \<Rightarrow> 'w \<Rightarrow> bool"
  ph_SUCCESS :: int

section \<open>\<open>PahoMqttBackend\<close>\<close>

definition kMqttKeepAliveSeconds :: int where
  "kMqttKeepAliveSeconds = 20"

definition kMqttOperationTimeoutSec :: int where
  "kMqttOperationTimeoutSec = 5"

record 'h PahoMqttBackend =
  pb_client :: "'h option"
  pb_connected :: bool

definition PahoMqttBackend_new :: "'h PahoMqttBackend" where
  "PahoMqttBackend_new = \<lparr>pb_client = None, pb_connected = False\<rparr>"

definition Paho_connect ::
  "('h, 't, 'w) paho_ops \<Rightarrow> string \<Rightarrow> string \<Rightarrow> ('h PahoMqttBackend, 'w, bool) opr" where
  "Paho_connect P brk cid b w =
     (if pb_connected b then (True, b, w)
      else case ph_new P brk cid w of
        (None, w1) \<Rightarrow> (False, b\<lparr>pb_connected := False\<rparr>, w1)
      | (Some h, w1) \<Rightarrow>
          let w2 = (case pb_client b of None \<Rightarrow> w1 | Some old \<Rightarrow> ph_delete P old w1);
              b1 = b\<lparr>pb_client := Some h\<rparr>;
              options = \<lparr>keep_alive_interval = kMqttKeepAliveSeconds, clean_session = True\<rparr>
          in (case ph_connect P h options w2 of
                (None, w3) \<Rightarrow> (False, b1\<lparr>pb_connected := False\<rparr>, w3)
              | (Some tok, w3) \<Rightarrow>
                  (case ph_wait_for P tok kMqttOperationTimeoutSec w3 of
                     (None, w4) \<Rightarrow> (False, b1\<lparr>pb_connected := False\<rparr>, w4)
                   | (Some _, w4) \<Rightarrow>
                       (ph_is_connected P h w4, b1\<lparr>pb_connected := ph_is_connected P h w4\<rparr>, w4))))"

definition Paho_disconnect ::
  "('h, 't, 'w) paho_ops \<Rightarrow> ('h PahoMqttBackend, 'w, bool) opr" where
  "Paho_disconnect P b w =
     (case pb_client b of
        None \<Rightarrow> (True, b\<lparr>pb_connected := False\<rparr>, w)
      | Some h \<Rightarrow>
          (case ph_disconnect P h w of
             (None, w1) \<Rightarrow> (False, b\<lparr>pb_connected := False\<rparr>, w1)
           | (Some tok, w1) \<Rightarrow>
               (case ph_wait_for P tok kMqttOperationTimeoutSec w1 of
                  (None, w2) \<Rightarrow> (False, b\<lparr>pb_connected := False\<rparr>, w2)
                | (Some _, w2) \<Rightarrow> (True, b\<lparr>pb_connected := False\<rparr>, w2))))"

definition Paho_publish ::
  "('h, 't, 'w) paho_ops \<Rightarrow> string \<Rightarrow> string \<Rightarrow> int \<Rightarrow> ('h PahoMqttBackend, 'w, bool) opr" where
  "Paho_publish P topic payload q b w =
     (case pb_client b of
        None \<Rightarrow> (False, b, w)
      | Some h \<Rightarrow>
          if \<not> pb_connected b then (False, b, w)
          else (case ph_publish P h topic payload q False w of
             (None, w1) \<Rightarrow> (False, b, w1)
           | (Some tok, w1) \<Rightarrow>
               (case ph_wait_for P tok kMqttOperationTimeoutSec w1 of
                  (None, w2) \<Rightarrow> (False, b, w2)
                | (Some _, w2) \<Rightarrow> (ph_return_code P tok w2 = ph_SUCCESS P, b, w2))))"

definition Paho_subscribe ::
  "('h, 't, 'w) paho_ops \<Rightarrow> string \<Rightarrow> int \<Rightarrow> ('h PahoMqttBackend, 'w, bool) opr" where
  "Paho_subscribe P topic q b w =
     (case pb_client b of
        None \<Rightarrow> (False, b, w)
      | Some h \<Rightarrow>
          if \<not> pb_connected b then (False, b, w)
          else (case ph_subscribe P h topic q w of
             (None, w1) \<Rightarrow> (False, b, w1)
           | (Some tok, w1) \<Rightarrow>
               (case ph_wait_for P tok kMqttOperationTimeoutSec w1 of
                  (None, w2) \<Rightarrow> (False, b, w2)
                | (Some _, w2) \<Rightarrow> (ph_return_code P tok w2 = ph_SUCCESS P, b, w2))))"

definition Paho_isConnected :: "('h, 't, 'w) paho_ops \<Rightarrow> 'h PahoMqttBackend \<Rightarrow> 'w \<Rightarrow> bool" where
  "Paho_isConnected P b w \<longleftrightarrow>
     pb_connected b \<and> (case pb_client b of None \<Rightarrow> False | Some h \<Rightarrow> ph_is_connected P h w)"

definition paho_backend :: "('h, 't, 'w) paho_ops \<Rightarrow> ('h PahoMqttBackend, 'w) backend_ops" where
  "paho_backend P =
     \<lparr>b_connect = Paho_connect P, b_disconnect = Paho_disconnect P, b_publish = Paho_publish P,
      b_subscribe = Paho_subscribe P, b_isConnected = Paho_isConnected P\<rparr>"

definition paho_inv :: "'h PahoMqttBackend \<Rightarrow> bool" where
  "paho_inv b \<longleftrightarrow> (pb_connected b \<longrightarrow> pb_client b \<noteq> None)"

lemma Paho_connect_facts:
  assumes "paho_inv b" and "Paho_connect P brk cid b w = (r, b', w')"
  shows "pb_connected b' = r" and "paho_inv b'"
  using assms
  by (auto simp: Paho_connect_def paho_inv_def Let_def split: if_splits option.splits prod.splits)

lemma Paho_disconnect_facts:
  assumes "Paho_disconnect P b w = (r, b', w')"
  shows "\<not> pb_connected b'" and "pb_client b' = pb_client b"
  using assms by (auto simp: Paho_disconnect_def split: option.splits prod.splits)

lemma Paho_send_facts:
  assumes "send_backend (paho_backend P) m b w = (r, b', w')"
  shows "b' = b"
  using assms
  by (cases m) (auto simp: paho_backend_def Paho_publish_def Paho_subscribe_def
      split: option.splits prod.splits if_splits)

lemma Paho_send_down:
  "\<not> pb_connected b \<Longrightarrow> send_backend (paho_backend P) m b w = (False, b, w)"
  by (cases m) (auto simp: paho_backend_def Paho_publish_def Paho_subscribe_def split: option.splits)

interpretation paho_link: connection "Paho_connect P brk cid" "Paho_disconnect P"
  "send_backend (paho_backend P)" pb_connected paho_inv
proof (unfold_locales, goal_cases)
  case (1 s w r s' w')
  then show ?case using Paho_connect_facts [OF 1] by simp
next
  case (2 s w)
  then show ?case by (simp add: Paho_connect_def)
next
  case (3 s w r s' w')
  then show ?case using Paho_disconnect_facts [OF 3(2)] by (simp add: paho_inv_def)
next
  case (4 s m w r s' w')
  then show ?case using Paho_send_facts [OF 4(2)] by simp
next
  case (5 s m w)
  from 5(2) show ?case by (rule Paho_send_down)
qed

section \<open>\<open>MqttClient\<close>\<close>

record 'b MqttClient =
  mc_config :: MqttConfig
  mc_backend :: 'b
  mc_connected :: bool

text \<open>A null backend pointer is replaced by a freshly made default backend.\<close>

definition MqttClient_new :: "'b \<Rightarrow> MqttConfig \<Rightarrow> 'b option \<Rightarrow> 'b MqttClient" where
  "MqttClient_new default_backend config backend =
     \<lparr>mc_config = config,
      mc_backend = (case backend of None \<Rightarrow> default_backend | Some b \<Rightarrow> b),
      mc_connected = False\<rparr>"

definition MqttClient_connect :: "('b, 'w) backend_ops \<Rightarrow> ('b MqttClient, 'w, bool) opr" where
  "MqttClient_connect B c w =
     (if mc_connected c then (True, c, w)
      else case b_connect B (broker (mc_config c)) (client_id (mc_config c)) (mc_backend c) w of
        (r, b', w') \<Rightarrow> (r, c\<lparr>mc_backend := b', mc_connected := r\<rparr>, w'))"

definition MqttClient_disconnect :: "('b, 'w) backend_ops \<Rightarrow> ('b MqttClient, 'w, bool) opr" where
  "MqttClient_disconnect B c w =
     (case b_disconnect B (mc_backend c) w of
        (r, b', w') \<Rightarrow> (r, c\<lparr>mc_connected := False, mc_backend := b'\<rparr>, w'))"

definition effective_qos :: "'b MqttClient \<Rightarrow> int \<Rightarrow> int" where
  "effective_qos c q = (if q < 0 then qos (mc_config c) else q)"

definition MqttClient_publish ::
  "('b, 'w) backend_ops \<Rightarrow> string \<Rightarrow> string \<Rightarrow> int \<Rightarrow> ('b MqttClient, 'w, bool) opr" where
  "MqttClient_publish B topic payload q c w =
     (if \<not> mc_connected c then (False, c, w)
      else case b_publish B topic payload (effective_qos c q) (mc_backend c) w of
        (r, b', w') \<Rightarrow> (r, c\<lparr>mc_backend := b'\<rparr>, w'))"

definition MqttClient_subscribe ::
  "('b, 'w) backend_ops \<Rightarrow> string \<Rightarrow> int \<Rightarrow> ('b MqttClient, 'w, bool) opr" where
  "MqttClient_subscribe B topic q c w =
     (if \<not> mc_connected c then (False, c, w)
      else case b_subscribe B topic (effective_qos c q) (mc_backend c) w of
        (r, b', w') \<Rightarrow> (r, c\<lparr>mc_backend := b'\<rparr>, w'))"

definition MqttClient_isConnected :: "'b MqttClient \<Rightarrow> bool" where
  "MqttClient_isConnected c = mc_connected c"

definition MqttClient_reconnect :: "('b, 'w) backend_ops \<Rightarrow> ('b MqttClient, 'w, bool) opr" where
  "MqttClient_reconnect B c w =
     (case MqttClient_disconnect B c w of
        (r, c1, w1) \<Rightarrow> if r then MqttClient_connect B c1 w1 else (False, c1, w1))"

definition MqttClient_config :: "'b MqttClient \<Rightarrow> MqttConfig" where
  "MqttClient_config c = mc_config c"

definition mqtt_client_ops :: "('b, 'w) backend_ops \<Rightarrow> ('b MqttClient, 'w) client_ops" where
  "mqtt_client_ops B =
     \<lparr>m_connect = MqttClient_connect B, m_disconnect = MqttClient_disconnect B,
      m_reconnect = MqttClient_reconnect B, m_publish = MqttClient_publish B,
      m_subscribe = MqttClient_subscribe B, m_isConnected = MqttClient_isConnected,
      m_config = mc_config\<rparr>"

lemmas MqttClient_defs = MqttClient_connect_def MqttClient_disconnect_def MqttClient_publish_def
  MqttClient_subscribe_def MqttClient_isConnected_def

lemma MqttClient_connect_facts:
  assumes "MqttClient_connect B c w = (r, c', w')"
  shows "mc_connected c' = r" and "mc_config c' = mc_config c"
  using assms by (auto simp: MqttClient_defs split: if_splits prod.splits)

lemma MqttClient_disconnect_facts:
  assumes "MqttClient_disconnect B c w = (r, c', w')"
  shows "\<not> mc_connected c'" and "mc_config c' = mc_config c"
  using assms by (auto simp: MqttClient_defs split: prod.splits)

lemma MqttClient_reconnect_facts:
  assumes "MqttClient_reconnect B c w = (r, c', w')"
  shows "mc_connected c' = r" and "mc_config c' = mc_config c"
proof -
  obtain r1 c1 w1 where d: "MqttClient_disconnect B c w = (r1, c1, w1)"
    by (cases "MqttClient_disconnect B c w") auto
  note d_facts = MqttClient_disconnect_facts [OF d]
  show "mc_connected c' = r" and "mc_config c' = mc_config c"
    using assms d d_facts MqttClient_connect_facts [of B c1 w1 r c' w']
    by (auto simp: MqttClient_reconnect_def split: if_splits)
qed

lemma MqttClient_send_facts:
  assumes "send_client (mqtt_client_ops B) m c w = (r, c', w')"
  shows "mc_connected c' = mc_connected c" and "mc_config c' = mc_config c"
  using assms
  by (cases m; auto simp: mqtt_client_ops_def MqttClient_defs split: if_splits prod.splits)+

interpretation mqtt: mqtt_client "mqtt_client_ops B" "\<lambda>_. True"
proof (unfold_locales, goal_cases)
  case (1 c w r c' w')
  then show ?case using MqttClient_connect_facts [of B c w r c' w']
    by (simp add: mqtt_client_ops_def MqttClient_isConnected_def)
next
  case (2 c w)
  then show ?case by (simp add: mqtt_client_ops_def MqttClient_defs)
next
  case (3 c w r c' w')
  then show ?case using MqttClient_disconnect_facts [of B c w r c' w']
    by (simp add: mqtt_client_ops_def MqttClient_isConnected_def)
next
  case (4 c w r c' w')
  then show ?case using MqttClient_reconnect_facts [of B c w r c' w']
    by (simp add: mqtt_client_ops_def MqttClient_isConnected_def)
next
  case (5 c m w r c' w')
  then show ?case using MqttClient_send_facts [OF 5(2)]
    by (simp add: mqtt_client_ops_def MqttClient_isConnected_def)
next
  case (6 c m w)
  then show ?case by (cases m) (simp_all add: mqtt_client_ops_def MqttClient_defs)
qed

lemma mqtt_client_ops_sel [simp]:
  "m_connect (mqtt_client_ops B) = MqttClient_connect B"
  "m_disconnect (mqtt_client_ops B) = MqttClient_disconnect B"
  "m_reconnect (mqtt_client_ops B) = MqttClient_reconnect B"
  "m_publish (mqtt_client_ops B) = MqttClient_publish B"
  "m_subscribe (mqtt_client_ops B) = MqttClient_subscribe B"
  "m_isConnected (mqtt_client_ops B) = MqttClient_isConnected"
  "m_config (mqtt_client_ops B) = mc_config"
  by (simp_all add: mqtt_client_ops_def)

lemma paho_backend_sel [simp]:
  "b_connect (paho_backend P) = Paho_connect P" "b_disconnect (paho_backend P) = Paho_disconnect P"
  "b_isConnected (paho_backend P) = Paho_isConnected P"
  by (simp_all add: paho_backend_def)

text \<open>The facts of the interface, with the operations written out.\<close>

lemma mqtt_calls_link:
  assumes "run_calls (MqttClient_connect B) (MqttClient_disconnect B)
      (send_client (mqtt_client_ops B)) cs c w = (rs, c', w')"
  shows "length rs = length cs"
    and "MqttClient_isConnected c' = link_after (MqttClient_isConnected c) (zip cs rs)"
    and "link_ok (MqttClient_isConnected c) (zip cs rs)"
proof -
  have run: "run_calls (m_connect (mqtt_client_ops B)) (m_disconnect (mqtt_client_ops B))
      (send_client (mqtt_client_ops B)) cs c w = (rs, c', w')"
    using assms by (simp only: mqtt_client_ops_sel)
  note link = mqtt.link.calls_link [OF TrueI run]
  from link show "length rs = length cs" by blast
  from link show "MqttClient_isConnected c' = link_after (MqttClient_isConnected c) (zip cs rs)"
    by (simp only: mqtt_client_ops_sel)
  from link show "link_ok (MqttClient_isConnected c) (zip cs rs)"
    by (simp only: mqtt_client_ops_sel)
qed

text \<open>Client and default backend cache the connection twice; the two flags agree.\<close>

definition paho_agree :: "'h PahoMqttBackend MqttClient \<Rightarrow> bool" where
  "paho_agree c \<longleftrightarrow> paho_inv (mc_backend c) \<and> mc_connected c = pb_connected (mc_backend c)"

lemma paho_agree_connect:
  assumes "paho_agree c" and "MqttClient_connect (paho_backend P) c w = (r, c', w')"
  shows "paho_agree c'"
  using assms
  by (auto simp: paho_agree_def MqttClient_connect_def split: if_splits prod.splits
      dest: Paho_connect_facts)

lemma paho_agree_disconnect:
  assumes "paho_agree c" and "MqttClient_disconnect (paho_backend P) c w = (r, c', w')"
  shows "paho_agree c'"
  using assms
  by (auto simp: paho_agree_def MqttClient_disconnect_def paho_inv_def split: prod.splits
      dest: Paho_disconnect_facts)

lemma paho_agree_reconnect:
  assumes "paho_agree c" and "MqttClient_reconnect (paho_backend P) c w = (r, c', w')"
  shows "paho_agree c'"
proof -
  obtain r1 c1 w1 where d: "MqttClient_disconnect (paho_backend P) c w = (r1, c1, w1)"
    by (cases "MqttClient_disconnect (paho_backend P) c w") auto
  note c1 = paho_agree_disconnect [OF assms(1) d]
  show ?thesis
    using assms(2) d c1 paho_agree_connect [OF c1, of P w1 r c' w']
    by (simp add: MqttClient_reconnect_def split: if_splits)
qed

lemma paho_agree_send:
  assumes "paho_agree c" and "send_client (mqtt_client_ops (paho_backend P)) m c w = (r, c', w')"
  shows "paho_agree c'"
proof (cases m)
  case (Publish topic payload q)
  with assms Paho_send_facts [of P "Publish topic payload (effective_qos c q)" "mc_backend c" w]
  show ?thesis by (auto simp: paho_agree_def MqttClient_publish_def split: if_splits prod.splits)
next
  case (Subscribe topic q)
  with assms Paho_send_facts [of P "Subscribe topic (effective_qos c q)" "mc_backend c" w]
  show ?thesis by (auto simp: paho_agree_def MqttClient_subscribe_def split: if_splits prod.splits)
qed

lemma paho_agree_op:
  assumes "paho_agree c" and "client_op (mqtt_client_ops (paho_backend P)) k c w = (r, c', w')"
  shows "paho_agree c'"
  using assms(2)
proof (cases rule: client_op_cases)
  case 1
  with paho_agree_connect [OF assms(1)] show ?thesis by simp
next
  case 2
  with paho_agree_disconnect [OF assms(1)] show ?thesis by simp
next
  case (3 m)
  from paho_agree_send [OF assms(1) 3] show ?thesis .
next
  case 4
  with paho_agree_reconnect [OF assms(1)] show ?thesis by simp
qed

lemma paho_agree_run:
  assumes "paho_agree c" and "client_run (mqtt_client_ops (paho_backend P)) ks c w = (c', w')"
  shows "paho_agree c'"
  using client_run_invariant [where P = "\<lambda>c w. paho_agree c", OF paho_agree_op assms] .

section \<open>Properties\<close>

text \<open>Whatever the backend does, the results \<open>MqttClient\<close> returns describe one consistent link:
  after any sequence of connect, disconnect, publish and subscribe calls \<open>isConnected\<close> is what
  the results so far say, and no publish or subscribe reported success while the link was
  down.\<close>

theorem mqtt_client_is_link:
  assumes "run_calls (MqttClient_connect B) (MqttClient_disconnect B)
      (send_client (mqtt_client_ops B)) cs c w = (rs, c', w')"
  shows "length rs = length cs \<and>
    MqttClient_isConnected c' = link_after (MqttClient_isConnected c) (zip cs rs) \<and>
    link_ok (MqttClient_isConnected c) (zip cs rs) \<and> mc_config c' = mc_config c"
proof -
  have "mc_config c' = mc_config c"
    using assms
  proof (induction cs arbitrary: c w rs)
    case Nil
    then show ?case by simp
  next
    case (Cons k cs)
    obtain r1 c1 w1 where k: "run_call (MqttClient_connect B) (MqttClient_disconnect B)
        (send_client (mqtt_client_ops B)) k c w = (r1, c1, w1)" using prod_cases3 by blast
    have c1: "mc_config c1 = mc_config c"
      using k MqttClient_connect_facts(2) [of B c w r1 c1 w1]
        MqttClient_disconnect_facts(2) [of B c w r1 c1 w1] MqttClient_send_facts(2) [of B _ c w r1 c1 w1]
      by (cases k) simp_all
    from Cons.prems k obtain rs' where "run_calls (MqttClient_connect B) (MqttClient_disconnect B)
        (send_client (mqtt_client_ops B)) cs c1 w1 = (rs', c', w')" by (auto split: prod.splits)
    from Cons.IH [OF this] c1 show ?case by (rule trans)
  qed
  with mqtt_calls_link [OF assms] show ?thesis by blast
qed

text \<open>A backend that accepts everything and records what it is asked to publish.\<close>

definition recording_backend :: "(unit, (string \<times> string \<times> int) list) backend_ops" where
  "recording_backend =
     \<lparr>b_connect = (\<lambda>_ _ b w. (True, b, w)), b_disconnect = (\<lambda>b w. (True, b, w)),
      b_publish = (\<lambda>t p q b w. (True, b, w @ [(t, p, q)])),
      b_subscribe = (\<lambda>_ _ b w. (True, b, w)), b_isConnected = (\<lambda>_ _. False)\<rparr>"

definition demo_config :: MqttConfig where
  "demo_config =
     \<lparr>broker = ''tcp://localhost:1883'', client_id = ''ECU_001'',
      telemetry_topic = ''vehicle/ECU_001/telemetry'', command_topic = ''vehicle/ECU_001/commands'',
      qos = 1\<rparr>"

theorem mqtt_client_is_link_witness:
  "res (run_calls (MqttClient_connect recording_backend) (MqttClient_disconnect recording_backend)
     (send_client (mqtt_client_ops recording_backend))
     [Send (Publish ''t'' ''p'' 1), Connect, Send (Publish ''t'' ''p'' (-1)), Disconnect]
     (MqttClient_new () demo_config None) []) = [False, True, True, True]"
proof -
  let ?cs = "[Send (Publish ''t'' ''p'' 1), Connect, Send (Publish ''t'' ''p'' (-1)), Disconnect]"
  let ?c = "MqttClient_new () demo_config None :: unit MqttClient"
  let ?run = "run_calls (MqttClient_connect recording_backend) (MqttClient_disconnect recording_backend)
     (send_client (mqtt_client_ops recording_backend)) ?cs ?c []"
  have "?run = ([False, True, True, True], ?c, [(''t'', ''p'', 1)])"
    by (simp add: MqttClient_new_def MqttClient_defs recording_backend_def effective_qos_def
        demo_config_def)
  with mqtt_client_is_link [OF this] show ?thesis by simp
qed

text \<open>C34: With the default backend the connection state is cached twice, in the client and in the
  backend; the two flags agree after any sequence of calls, whatever the Paho library does, and a
  connected backend always holds a client handle.\<close>

theorem mqtt_client_agrees_with_paho:
  assumes "client_run (mqtt_client_ops (paho_backend P)) cs (MqttClient_new PahoMqttBackend_new config None) w = (c', w')"
  shows "MqttClient_isConnected c' = pb_connected (mc_backend c') \<and>
    (pb_client (mc_backend c') = None \<longrightarrow> \<not> pb_connected (mc_backend c'))"
proof -
  have "paho_agree (MqttClient_new PahoMqttBackend_new config None)"
    by (simp add: paho_agree_def paho_inv_def MqttClient_new_def PahoMqttBackend_new_def)
  from paho_agree_run [OF this assms] show ?thesis
    by (auto simp: paho_agree_def paho_inv_def MqttClient_isConnected_def)
qed

text \<open>A small library: one handle, a world that says whether the network link is up; disconnecting
  an unconnected handle throws, as the library documents.\<close>

definition demo_paho :: "(nat, unit, bool) paho_ops" where
  "demo_paho =
     \<lparr>ph_new = (\<lambda>_ _ w. (Some 0, w)), ph_delete = (\<lambda>_ w. w), ph_connect = (\<lambda>_ _ _. (Some (), True)),
      ph_disconnect = (\<lambda>_ w. if w then (Some (), False) else (None, w)),
      ph_publish = (\<lambda>_ _ _ _ _ w. (if w then Some () else None, w)),
      ph_subscribe = (\<lambda>_ _ _ w. (if w then Some () else None, w)),
      ph_wait_for = (\<lambda>_ _ w. (Some True, w)), ph_return_code = (\<lambda>_ _. 0),
      ph_is_connected = (\<lambda>_ w. w), ph_SUCCESS = 0\<rparr>"

theorem mqtt_client_agrees_with_paho_witness:
  "MqttClient_isConnected (fst (client_run (mqtt_client_ops (paho_backend demo_paho)) [Call Connect, Reconnect]
     (MqttClient_new PahoMqttBackend_new demo_config None) False))
   = pb_connected (mc_backend (fst (client_run (mqtt_client_ops (paho_backend demo_paho)) [Call Connect, Reconnect]
     (MqttClient_new PahoMqttBackend_new demo_config None) False)))"
  by (rule mqtt_client_agrees_with_paho [OF prod.collapse [symmetric], THEN conjunct1])

text \<open>Once connected, the client goes on reporting a connection while it only publishes and
  subscribes, and \<open>connect\<close> then returns success without touching the backend, even when every
  one of those calls failed and the backend itself reports that the connection is gone.\<close>

theorem mqtt_client_loss_unnoticed:
  assumes "MqttClient_isConnected c"
    and "run_calls (MqttClient_connect B) (MqttClient_disconnect B)
      (send_client (mqtt_client_ops B)) (map Send ms) c w = (rs, c', w')"
    and "\<not> b_isConnected B (mc_backend c') w'"
  shows "MqttClient_isConnected c' \<and> MqttClient_connect B c' w' = (True, c', w')"
proof -
  have sends: "link_after up (zip (map Send ms) rs) = up" for up and rs :: "bool list"
  proof (induction ms arbitrary: rs)
    case Nil
    then show ?case by simp
  next
    case (Cons m ms)
    then show ?case by (cases rs) simp_all
  qed
  with mqtt_calls_link(2) [OF assms(2)] assms(1) have "MqttClient_isConnected c'" by simp
  then show ?thesis by (simp add: MqttClient_isConnected_def MqttClient_connect_def)
qed

theorem mqtt_client_loss_unnoticed_witness:
  "\<exists>c'. run_calls (MqttClient_connect (paho_backend demo_paho)) (MqttClient_disconnect (paho_backend demo_paho))
      (send_client (mqtt_client_ops (paho_backend demo_paho))) (map Send [Publish ''t'' ''p'' 1])
      \<lparr>mc_config = demo_config, mc_backend = \<lparr>pb_client = Some 0, pb_connected = True\<rparr>,
       mc_connected = True\<rparr> False = ([False], c', False) \<and> MqttClient_isConnected c'"
proof -
  let ?c = "\<lparr>mc_config = demo_config, mc_backend = \<lparr>pb_client = Some 0, pb_connected = True\<rparr>,
       mc_connected = True\<rparr> :: nat PahoMqttBackend MqttClient"
  have r: "run_calls (MqttClient_connect (paho_backend demo_paho)) (MqttClient_disconnect (paho_backend demo_paho))
      (send_client (mqtt_client_ops (paho_backend demo_paho))) (map Send [Publish ''t'' ''p'' 1])
      ?c False = ([False], ?c, False)"
    by (simp add: MqttClient_publish_def paho_backend_def Paho_publish_def demo_paho_def)
  have "\<not> b_isConnected (paho_backend demo_paho) (mc_backend ?c) False"
    by (simp add: Paho_isConnected_def demo_paho_def)
  from mqtt_client_loss_unnoticed [OF _ r this] r show ?thesis
    by (simp add: MqttClient_isConnected_def)
qed

text \<open>Repeated attempts to reconnect.\<close>

fun reconnects :: "('b, 'w) backend_ops \<Rightarrow> nat \<Rightarrow> ('b MqttClient, 'w, bool list) opr" where
  "reconnects B 0 c w = ([], c, w)"
| "reconnects B (Suc n) c w =
     (case MqttClient_reconnect B c w of (r, c1, w1) \<Rightarrow>
      case reconnects B n c1 w1 of (rs, c2, w2) \<Rightarrow> (r # rs, c2, w2))"

lemma reconnects_stuck:
  assumes "\<And>u. lost u \<Longrightarrow> fst (ph_disconnect P h u) = None \<and> lost (snd (ph_disconnect P h u))"
  shows "pb_client (mc_backend c) = Some h \<Longrightarrow> lost w \<Longrightarrow>
    reconnects (paho_backend P) n c w = (rs, c', w') \<Longrightarrow>
    rs = replicate n False \<and> lost w' \<and> pb_client (mc_backend c') = Some h \<and>
    (n = 0 \<or> \<not> MqttClient_isConnected c')"
proof (induction n arbitrary: c w rs)
  case 0
  then show ?case by simp
next
  case (Suc n)
  obtain w1 where d: "ph_disconnect P h w = (None, w1)" "lost w1"
    using assms [OF Suc.prems(2)] by (cases "ph_disconnect P h w") auto
  let ?c1 = "c\<lparr>mc_connected := False, mc_backend := mc_backend c\<lparr>pb_connected := False\<rparr>\<rparr>"
  have r: "MqttClient_reconnect (paho_backend P) c w = (False, ?c1, w1)"
    using d Suc.prems(1) by (simp add: MqttClient_reconnect_def MqttClient_disconnect_def Paho_disconnect_def)
  obtain rs' c2 w2 where n: "reconnects (paho_backend P) n ?c1 w1 = (rs', c2, w2)"
    by (cases "reconnects (paho_backend P) n ?c1 w1") auto
  from Suc.IH [of ?c1 w1 rs'] Suc.prems r n d(2)
  show ?case by (cases n) (auto simp: MqttClient_isConnected_def)
qed

text \<open>When the library throws on disconnecting a handle whose link is lost, \<open>reconnect\<close> with
  the default backend never gets as far as connecting: every attempt reports failure, the client
  stays disconnected and keeps the dead handle, however often it is tried.\<close>

theorem paho_reconnect_never_recovers:
  assumes "\<And>u. lost u \<Longrightarrow> fst (ph_disconnect P h u) = None \<and> lost (snd (ph_disconnect P h u))"
    and "pb_client (mc_backend c) = Some h" and "lost w"
    and "reconnects (paho_backend P) (Suc n) c w = (rs, c', w')"
  shows "rs = replicate (Suc n) False \<and> \<not> MqttClient_isConnected c' \<and>
    pb_client (mc_backend c') = Some h"
  using reconnects_stuck [of lost P h c w "Suc n" rs c' w', OF assms(1)] assms(2-4) by simp

theorem paho_reconnect_never_recovers_witness:
  "res (reconnects (paho_backend demo_paho) 3
     (fst (client_run (mqtt_client_ops (paho_backend demo_paho)) [Call Connect]
       (MqttClient_new PahoMqttBackend_new demo_config None) True)) False) = [False, False, False]"
proof -
  let ?c = "fst (client_run (mqtt_client_ops (paho_backend demo_paho)) [Call Connect]
       (MqttClient_new PahoMqttBackend_new demo_config None) True)"
  have h: "pb_client (mc_backend ?c) = Some 0"
    by (simp add: MqttClient_connect_def Paho_connect_def demo_paho_def MqttClient_new_def
        PahoMqttBackend_new_def)
  have lost: "fst (ph_disconnect demo_paho 0 u) = None \<and> \<not> snd (ph_disconnect demo_paho 0 u)"
    if "\<not> u" for u using that by (simp add: demo_paho_def)
  have "res (reconnects (paho_backend demo_paho) (Suc 2) ?c False) = replicate (Suc 2) False"
    using paho_reconnect_never_recovers [where lost = Not and n = 2, OF lost h _ opr_collapse [symmetric]]
    by blast
  moreover have "Suc 2 = 3" "replicate 3 False = [False, False, False]"
    by (simp_all add: numeral_3_eq_3)
  ultimately show ?thesis by (simp only:)
qed

end
