(* ===== verification/Someip_Client.thy ===== *)
theory Someip_Client
  imports Mqtt_Interface
begin

text \<open>
  \<open>SomeipClient\<close> (\<open>include/connected_vehicle_platform/someip_client.hpp\<close>,
  \<open>src/SomeipClient/someip_client.cpp\<close>): a TCP transport behind the \<open>IMqttClient\<close> interface. The
  socket calls of the operating system are a record of operations, a parameter of the model; the
  frame is built byte by byte, in the byte order of the host.
\<close>

section \<open>The socket interface as a parameter\<close>

record sockaddr_in =
  sin_port :: u16
  sin_addr :: u32

record 'w socket_ops =
  sk_socket :: "'w \<Rightarrow> int \<times> 'w"
  sk_inet_pton :: "string \<Rightarrow> int \<times> u32"
  sk_connect :: "int \<Rightarrow> sockaddr_in \<Rightarrow> 'w \<Rightarrow> int \<times> 'w"
  sk_send :: "int \<Rightarrow> byte list \<Rightarrow> int \<Rightarrow> 'w \<Rightarrow> int \<times> 'w"
  sk_close :: "int \<Rightarrow> 'w \<Rightarrow> 'w"
  sk_big_endian :: bool

text \<open>The flag of \<open>send\<close> that suppresses the signal \<open>SIGPIPE\<close>, with its value on Linux.\<close>

unbundle bit_operations_syntax

definition MSG_NOSIGNAL :: int where
  "MSG_NOSIGNAL = 0x4000"

definition no_signal :: "int \<Rightarrow> bool" where
  "no_signal flags \<longleftrightarrow> flags AND MSG_NOSIGNAL \<noteq> 0"

lemma no_signal_simps [simp]: "\<not> no_signal 0" "no_signal MSG_NOSIGNAL"
  by (simp_all add: no_signal_def MSG_NOSIGNAL_def)

text \<open>How the host lays an unsigned integer of \<open>k\<close> bytes out in memory, and reads it back.\<close>

definition host_bytes :: "bool \<Rightarrow> nat \<Rightarrow> nat \<Rightarrow> byte list" where
  "host_bytes big k n = (if big then rev (le_bytes k n) else le_bytes k n)"

definition host_value :: "bool \<Rightarrow> byte list \<Rightarrow> nat" where
  "host_value big bs = le_value (if big then rev bs else bs)"

definition htons :: "bool \<Rightarrow> u16 \<Rightarrow> u16" where
  "htons big p = word_of_nat (host_value big (rev (le_bytes 2 (unat p))))"

definition c_str :: "string \<Rightarrow> string" where
  "c_str s = takeWhile (\<lambda>c. c \<noteq> CHR 0x00) s"

lemma length_host_bytes [simp]: "length (host_bytes big k n) = k"
  by (simp add: host_bytes_def)

lemma host_value_host_bytes: "host_value big (host_bytes big k n) = n mod 256 ^ k"
  by (simp add: host_value_def host_bytes_def le_value_le_bytes)

lemma le_bytes_2: "le_bytes 2 n = [word_of_nat (n mod 256), word_of_nat (n div 256 mod 256)]"
  unfolding numeral_2_eq_2 by simp

lemma le_bytes_4:
  "le_bytes 4 n = [word_of_nat (n mod 256), word_of_nat (n div 256 mod 256),
     word_of_nat (n div 256 div 256 mod 256), word_of_nat (n div 256 div 256 div 256 mod 256)]"
proof -
  have four: "(4 :: nat) = Suc (Suc (Suc (Suc 0)))" by simp
  show ?thesis unfolding four by simp
qed

text \<open>In memory a port converted by \<open>htons\<close> has its high byte first, whatever the host.\<close>

lemma htons_network_order:
  "host_bytes big 2 (unat (htons big p)) = rev (le_bytes 2 (unat p))"
proof -
  let ?v = "host_value big (rev (le_bytes 2 (unat p)))"
  have "?v < 65536"
    using le_value_bound [of "le_bytes 2 (unat p)"] le_value_bound [of "rev (le_bytes 2 (unat p))"]
    by (cases big) (simp_all add: host_value_def)
  then have "unat (htons big p) = ?v"
    by (simp add: htons_def unsigned_of_nat take_bit_eq_mod)
  then show ?thesis
    by (simp add: host_bytes_def host_value_def le_bytes_le_value)
qed

section \<open>Configuration and frames\<close>

definition kDefaultSomeipHost :: string where
  "kDefaultSomeipHost = ''127.0.0.1''"

definition kDefaultSomeipPort :: u16 where
  "kDefaultSomeipPort = 30509"

definition kDefaultServiceId :: u16 where
  "kDefaultServiceId = 0x1234"

definition kDefaultMethodId :: u16 where
  "kDefaultMethodId = 0x0001"

definition kDefaultEcuClientId :: string where
  "kDefaultEcuClientId = ''ECU_001''"

definition kInvalidSocketFd :: int where
  "kInvalidSocketFd = -1"

definition kTelemetryTopic :: string where
  "kTelemetryTopic = ''vehicle/telemetry''"

definition kCommandTopic :: string where
  "kCommandTopic = ''vehicle/commands''"

record SomeipConfig =
  sc_host :: string
  sc_port :: u16
  sc_service_id :: u16
  sc_method_id :: u16
  sc_client_id :: string

definition SomeipConfig_default :: SomeipConfig where
  "SomeipConfig_default =
     \<lparr>sc_host = kDefaultSomeipHost, sc_port = kDefaultSomeipPort,
      sc_service_id = kDefaultServiceId, sc_method_id = kDefaultMethodId,
      sc_client_id = kDefaultEcuClientId\<rparr>"

record SomeipHeader =
  hd_service_id :: u16
  hd_method_id :: u16
  hd_length :: u32

definition header_bytes :: "bool \<Rightarrow> SomeipHeader \<Rightarrow> byte list" where
  "header_bytes big h =
     host_bytes big 2 (unat (hd_service_id h)) @ host_bytes big 2 (unat (hd_method_id h))
     @ host_bytes big 4 (unat (hd_length h))"

definition someip_frame :: "bool \<Rightarrow> SomeipConfig \<Rightarrow> string \<Rightarrow> byte list" where
  "someip_frame big cfg payload =
     header_bytes big \<lparr>hd_service_id = sc_service_id cfg, hd_method_id = sc_method_id cfg,
       hd_length = word_of_nat (length payload)\<rparr> @ bytes_of_string payload"

definition parse_header :: "bool \<Rightarrow> byte list \<Rightarrow> SomeipHeader" where
  "parse_header big bs =
     \<lparr>hd_service_id = word_of_nat (host_value big (take 2 bs)),
      hd_method_id = word_of_nat (host_value big (take 2 (drop 2 bs))),
      hd_length = word_of_nat (host_value big (take 4 (drop 4 bs)))\<rparr>"

lemma length_header_bytes [simp]: "length (header_bytes big h) = 8"
  by (simp add: header_bytes_def)

lemma length_someip_frame [simp]: "length (someip_frame big cfg payload) = 8 + length payload"
  by (simp add: someip_frame_def)

lemma parse_header_bytes: "parse_header big (header_bytes big h @ bs) = h"
  by (simp add: parse_header_def header_bytes_def host_value_host_bytes unat_mod_u16 unat_mod_u32)

section \<open>The class\<close>

record SomeipClient =
  sc_config :: SomeipConfig
  sc_mqtt_config :: MqttConfig
  sc_socket_fd :: int
  sc_connected :: bool

definition SomeipClient_new :: "SomeipConfig \<Rightarrow> SomeipClient" where
  "SomeipClient_new config =
     \<lparr>sc_config = config,
      sc_mqtt_config = \<lparr>broker = sc_host config, client_id = sc_client_id config,
        telemetry_topic = kTelemetryTopic, command_topic = kCommandTopic, qos = kDefaultQos\<rparr>,
      sc_socket_fd = kInvalidSocketFd, sc_connected = False\<rparr>"

definition SomeipClient_connect :: "'w socket_ops \<Rightarrow> (SomeipClient, 'w, bool) opr" where
  "SomeipClient_connect S c w =
     (if sc_connected c then (True, c, w)
      else case sk_socket S w of (fd, w1) \<Rightarrow>
        let c1 = c\<lparr>sc_socket_fd := fd\<rparr> in
        if fd < 0 then (False, c1, w1)
        else case sk_inet_pton S (c_str (sc_host (sc_config c))) of (parsed, addr) \<Rightarrow>
          if parsed \<noteq> 1
          then (False, c1\<lparr>sc_socket_fd := kInvalidSocketFd\<rparr>, sk_close S fd w1)
          else case sk_connect S fd
              \<lparr>sin_port = htons (sk_big_endian S) (sc_port (sc_config c)), sin_addr = addr\<rparr> w1 of
            (rc, w2) \<Rightarrow>
              if rc \<noteq> 0
              then (False, c1\<lparr>sc_socket_fd := kInvalidSocketFd\<rparr>, sk_close S fd w2)
              else (True, c1\<lparr>sc_connected := True\<rparr>, w2))"

definition SomeipClient_disconnect :: "'w socket_ops \<Rightarrow> (SomeipClient, 'w, bool) opr" where
  "SomeipClient_disconnect S c w =
     (let w1 = (if 0 \<le> sc_socket_fd c then sk_close S (sc_socket_fd c) w else w)
      in (True, c\<lparr>sc_socket_fd := kInvalidSocketFd, sc_connected := False\<rparr>, w1))"

definition SomeipClient_reconnect :: "'w socket_ops \<Rightarrow> (SomeipClient, 'w, bool) opr" where
  "SomeipClient_reconnect S c w =
     (case SomeipClient_disconnect S c w of (_, c1, w1) \<Rightarrow> SomeipClient_connect S c1 w1)"

definition SomeipClient_publish ::
  "'w socket_ops \<Rightarrow> string \<Rightarrow> string \<Rightarrow> int \<Rightarrow> (SomeipClient, 'w, bool) opr" where
  "SomeipClient_publish S topic payload q c w =
     (if \<not> sc_connected c \<or> sc_socket_fd c < 0 then (False, c, w)
      else let frame = someip_frame (sk_big_endian S) (sc_config c) payload in
        case sk_send S (sc_socket_fd c) frame 0 w of (sent, w1) \<Rightarrow>
          (sent = int (length frame), c, w1))"

definition SomeipClient_isConnected :: "SomeipClient \<Rightarrow> bool" where
  "SomeipClient_isConnected c \<longleftrightarrow> sc_connected c \<and> 0 \<le> sc_socket_fd c"

definition SomeipClient_subscribe ::
  "'w socket_ops \<Rightarrow> string \<Rightarrow> int \<Rightarrow> (SomeipClient, 'w, bool) opr" where
  "SomeipClient_subscribe S topic q c w = (SomeipClient_isConnected c, c, w)"

definition SomeipClient_publish_payload ::
  "'w socket_ops \<Rightarrow> string \<Rightarrow> (SomeipClient, 'w, bool) opr" where
  "SomeipClient_publish_payload S payload c w = SomeipClient_publish S [] payload kDefaultQos c w"

definition SomeipClient_config :: "SomeipClient \<Rightarrow> MqttConfig" where
  "SomeipClient_config c = sc_mqtt_config c"

definition SomeipClient_someipConfig :: "SomeipClient \<Rightarrow> SomeipConfig" where
  "SomeipClient_someipConfig c = sc_config c"

definition someip_client_ops :: "'w socket_ops \<Rightarrow> (SomeipClient, 'w) client_ops" where
  "someip_client_ops S =
     \<lparr>m_connect = SomeipClient_connect S, m_disconnect = SomeipClient_disconnect S,
      m_reconnect = SomeipClient_reconnect S, m_publish = SomeipClient_publish S,
      m_subscribe = SomeipClient_subscribe S, m_isConnected = SomeipClient_isConnected,
      m_config = sc_mqtt_config\<rparr>"

lemma someip_client_ops_sel [simp]:
  "m_connect (someip_client_ops S) = SomeipClient_connect S"
  "m_disconnect (someip_client_ops S) = SomeipClient_disconnect S"
  "m_reconnect (someip_client_ops S) = SomeipClient_reconnect S"
  "m_publish (someip_client_ops S) = SomeipClient_publish S"
  "m_subscribe (someip_client_ops S) = SomeipClient_subscribe S"
  "m_isConnected (someip_client_ops S) = SomeipClient_isConnected"
  "m_config (someip_client_ops S) = sc_mqtt_config"
  by (simp_all add: someip_client_ops_def)

text \<open>The descriptor is valid exactly while the client is connected.\<close>

definition someip_inv :: "SomeipClient \<Rightarrow> bool" where
  "someip_inv c \<longleftrightarrow> (sc_connected c \<longleftrightarrow> 0 \<le> sc_socket_fd c)"

lemma SomeipClient_connect_facts:
  assumes "someip_inv c" and "SomeipClient_connect S c w = (r, c', w')"
  shows "SomeipClient_isConnected c' = r \<and> someip_inv c' \<and> sc_mqtt_config c' = sc_mqtt_config c"
  using assms
  by (auto simp: SomeipClient_connect_def someip_inv_def SomeipClient_isConnected_def
      kInvalidSocketFd_def Let_def split: if_splits prod.splits)

lemma SomeipClient_disconnect_facts:
  assumes "SomeipClient_disconnect S c w = (r, c', w')"
  shows "\<not> SomeipClient_isConnected c' \<and> someip_inv c' \<and> sc_mqtt_config c' = sc_mqtt_config c"
  using assms
  by (auto simp: SomeipClient_disconnect_def someip_inv_def SomeipClient_isConnected_def
      kInvalidSocketFd_def Let_def)

lemma SomeipClient_reconnect_facts:
  assumes "SomeipClient_reconnect S c w = (r, c', w')"
  shows "SomeipClient_isConnected c' = r \<and> someip_inv c' \<and> sc_mqtt_config c' = sc_mqtt_config c"
proof -
  obtain r1 c1 w1 where d: "SomeipClient_disconnect S c w = (r1, c1, w1)"
    by (cases "SomeipClient_disconnect S c w") auto
  from assms d have "SomeipClient_connect S c1 w1 = (r, c', w')"
    by (simp add: SomeipClient_reconnect_def)
  with SomeipClient_connect_facts [of c1 S w1 r c' w'] SomeipClient_disconnect_facts [OF d]
  show ?thesis by simp
qed

lemma SomeipClient_send_same:
  assumes "send_client (someip_client_ops S) m c w = (r, c', w')"
  shows "c' = c"
  using assms
  by (cases m) (auto simp: SomeipClient_publish_def SomeipClient_subscribe_def Let_def
      split: if_splits prod.splits)

interpretation someip: mqtt_client "someip_client_ops S" someip_inv
proof (unfold_locales, goal_cases)
  case (1 c w r c' w')
  then show ?case using SomeipClient_connect_facts [of c S w r c' w'] by simp
next
  case (2 c w)
  then show ?case by (simp add: SomeipClient_connect_def SomeipClient_isConnected_def)
next
  case (3 c w r c' w')
  then show ?case using SomeipClient_disconnect_facts [of S c w r c' w'] by simp
next
  case (4 c w r c' w')
  then show ?case using SomeipClient_reconnect_facts [of S c w r c' w'] by simp
next
  case (5 c m w r c' w')
  then show ?case using SomeipClient_send_same [OF 5(2)] by simp
next
  case (6 c m w)
  then show ?case
    by (cases m) (auto simp: SomeipClient_publish_def SomeipClient_subscribe_def
        SomeipClient_isConnected_def)
qed

section \<open>Tracking descriptors\<close>

text \<open>
  Any socket interface, instrumented with the list of descriptors that are open: a successful
  \<open>socket\<close> adds one, \<open>close\<close> removes it.
\<close>

definition tracked :: "'w socket_ops \<Rightarrow> ('w \<times> int list) socket_ops" where
  "tracked S =
     \<lparr>sk_socket = (\<lambda>(w, fds). case sk_socket S w of (fd, w') \<Rightarrow>
        (fd, w', if fd < 0 then fds else fd # fds)),
      sk_inet_pton = sk_inet_pton S,
      sk_connect = (\<lambda>fd a (w, fds). case sk_connect S fd a w of (rc, w') \<Rightarrow> (rc, w', fds)),
      sk_send = (\<lambda>fd bs flags (w, fds). case sk_send S fd bs flags w of (n, w') \<Rightarrow> (n, w', fds)),
      sk_close = (\<lambda>fd (w, fds). (sk_close S fd w, remove1 fd fds)),
      sk_big_endian = sk_big_endian S\<rparr>"

definition descriptors_ok :: "SomeipClient \<Rightarrow> 'w \<times> int list \<Rightarrow> bool" where
  "descriptors_ok c v \<longleftrightarrow>
     someip_inv c \<and> snd v = (if SomeipClient_isConnected c then [sc_socket_fd c] else [])"

lemma tracked_connect:
  assumes "descriptors_ok c v" and "SomeipClient_connect (tracked S) c v = (r, c', v')"
  shows "descriptors_ok c' v'"
  using assms
  by (cases v)
     (auto simp: descriptors_ok_def SomeipClient_connect_def someip_inv_def tracked_def
       SomeipClient_isConnected_def kInvalidSocketFd_def Let_def split: if_splits prod.splits)

lemma tracked_disconnect:
  assumes "descriptors_ok c v" and "SomeipClient_disconnect (tracked S) c v = (r, c', v')"
  shows "descriptors_ok c' v'"
  using assms
  by (cases v)
     (auto simp: descriptors_ok_def SomeipClient_disconnect_def someip_inv_def tracked_def
       SomeipClient_isConnected_def kInvalidSocketFd_def Let_def split: if_splits)

lemma tracked_reconnect:
  assumes "descriptors_ok c v" and "SomeipClient_reconnect (tracked S) c v = (r, c', v')"
  shows "descriptors_ok c' v'"
proof -
  obtain r1 c1 v1 where d: "SomeipClient_disconnect (tracked S) c v = (r1, c1, v1)"
    by (cases "SomeipClient_disconnect (tracked S) c v") auto
  from assms(2) d have "SomeipClient_connect (tracked S) c1 v1 = (r, c', v')"
    by (simp add: SomeipClient_reconnect_def)
  with tracked_disconnect [OF assms(1) d] show ?thesis by (rule tracked_connect)
qed

lemma tracked_send:
  assumes "descriptors_ok c v" and "send_client (someip_client_ops (tracked S)) m c v = (r, c', v')"
  shows "descriptors_ok c' v'"
  using assms
  by (cases v; cases m)
     (auto simp: descriptors_ok_def SomeipClient_publish_def SomeipClient_subscribe_def tracked_def
       Let_def split: if_splits prod.splits)

lemma tracked_op:
  assumes "descriptors_ok c v" and "client_op (someip_client_ops (tracked S)) k c v = (r, c', v')"
  shows "descriptors_ok c' v'"
  using assms(2)
proof (cases rule: client_op_cases)
  case 1
  with tracked_connect [OF assms(1)] show ?thesis by simp
next
  case 2
  with tracked_disconnect [OF assms(1)] show ?thesis by simp
next
  case (3 m)
  with tracked_send [OF assms(1)] show ?thesis by simp
next
  case 4
  with tracked_reconnect [OF assms(1)] show ?thesis by simp
qed

section \<open>Properties\<close>

text \<open>C37: A frame is decoded by its receiver: from the bytes \<open>publish\<close> builds, whatever the byte
  order of the host, the eight header bytes give back the configured service and method and the
  payload length modulo \<open>2 ^ 32\<close>, and the rest is the payload.\<close>

theorem someip_frame_roundtrip:
  "parse_header big (someip_frame big cfg payload) =
     \<lparr>hd_service_id = sc_service_id cfg, hd_method_id = sc_method_id cfg,
      hd_length = word_of_nat (length payload)\<rparr> \<and>
   unat (hd_length (parse_header big (someip_frame big cfg payload))) = length payload mod 2 ^ 32 \<and>
   string_of_bytes (drop 8 (someip_frame big cfg payload)) = payload"
  by (simp add: someip_frame_def parse_header_bytes unsigned_of_nat take_bit_eq_mod)

text \<open>\<open>publish\<close> on a connected client hands exactly one frame for the payload to the socket,
  whatever the topic and the quality of service, reports success only when the system took the
  whole frame, and never changes the client; a disconnected client sends nothing.\<close>

theorem someip_publish_sends_frame:
  assumes "someip_inv c"
    and "sk_send S (sc_socket_fd c) (someip_frame (sk_big_endian S) (sc_config c) payload) 0 w = (sent, w')"
  shows "SomeipClient_publish S topic payload q c w =
    (if SomeipClient_isConnected c then (sent = 8 + int (length payload), c, w') else (False, c, w))"
  using assms
  by (auto simp: SomeipClient_publish_def SomeipClient_isConnected_def someip_inv_def Let_def)

text \<open>A socket interface whose descriptor 3 accepts every frame and records it.\<close>

definition demo_sockets :: "byte list list socket_ops" where
  "demo_sockets =
     \<lparr>sk_socket = (\<lambda>w. (3, w)), sk_inet_pton = (\<lambda>h. (1, 0x0100007F)),
      sk_connect = (\<lambda>_ _ w. (0, w)), sk_send = (\<lambda>_ bs _ w. (int (length bs), w @ [bs])),
      sk_close = (\<lambda>_ w. w), sk_big_endian = False\<rparr>"

definition demo_someip :: SomeipClient where
  "demo_someip = (SomeipClient_new SomeipConfig_default)\<lparr>sc_socket_fd := 3, sc_connected := True\<rparr>"

theorem someip_publish_sends_frame_witness:
  "SomeipClient_publish demo_sockets ''t'' ''A'' 1 demo_someip [] =
     (True, demo_someip, [[0x34, 0x12, 0x01, 0x00, 0x01, 0x00, 0x00, 0x00, 0x41]])"
proof -
  have i: "someip_inv demo_someip" by (simp add: someip_inv_def demo_someip_def)
  have f: "someip_frame False (sc_config demo_someip) ''A'' =
      [0x34, 0x12, 0x01, 0x00, 0x01, 0x00, 0x00, 0x00, 0x41]"
    by (simp add: someip_frame_def header_bytes_def host_bytes_def demo_someip_def
        SomeipClient_new_def SomeipConfig_default_def kDefaultServiceId_def kDefaultMethodId_def
        bytes_of_string_def le_bytes_2 le_bytes_4)
  have "sk_send demo_sockets (sc_socket_fd demo_someip)
      (someip_frame (sk_big_endian demo_sockets) (sc_config demo_someip) ''A'') 0 [] =
      (9, [[0x34, 0x12, 0x01, 0x00, 0x01, 0x00, 0x00, 0x00, 0x41]])"
    using f by (simp add: demo_sockets_def)
  from someip_publish_sends_frame [OF i this, of "''t''" 1] show ?thesis
    by (simp add: demo_someip_def SomeipClient_isConnected_def)
qed

text \<open>No socket is leaked or closed twice: after any sequence of connect, disconnect, reconnect,
  publish and subscribe calls on a new client, successful or not and whatever the system answers,
  the open descriptors are exactly the one of a connected client.\<close>

theorem someip_no_descriptor_leak:
  assumes "client_run (someip_client_ops (tracked S)) ks (SomeipClient_new config) (w, []) = (c, v)"
  shows "snd v = (if SomeipClient_isConnected c then [sc_socket_fd c] else [])"
proof -
  have "descriptors_ok (SomeipClient_new config) (w, [])"
    by (simp add: descriptors_ok_def SomeipClient_new_def someip_inv_def
        SomeipClient_isConnected_def kInvalidSocketFd_def)
  with client_run_invariant [where P = descriptors_ok, OF tracked_op _ assms]
  show ?thesis by (simp add: descriptors_ok_def)
qed

theorem someip_no_descriptor_leak_witness:
  "snd (snd (client_run (someip_client_ops (tracked demo_sockets)) [Call Connect, Reconnect]
     (SomeipClient_new SomeipConfig_default) ([], []))) = [3]"
proof -
  have r: "client_run (someip_client_ops (tracked demo_sockets)) [Call Connect, Reconnect]
      (SomeipClient_new SomeipConfig_default) ([], []) = (demo_someip, [], [3])"
    by (simp add: SomeipClient_connect_def SomeipClient_reconnect_def SomeipClient_disconnect_def
        tracked_def demo_sockets_def SomeipClient_new_def demo_someip_def kInvalidSocketFd_def Let_def)
  from someip_no_descriptor_leak [OF r] r show ?thesis
    by (simp add: demo_someip_def SomeipClient_isConnected_def)
qed

text \<open>The results of \<open>SomeipClient\<close> describe one consistent link: after any sequence of connect,
  disconnect, publish and subscribe calls on a new client \<open>isConnected\<close> is what the results so
  far say, and nothing was reported as sent while the link was down.\<close>

theorem someip_client_is_link:
  assumes "run_calls (SomeipClient_connect S) (SomeipClient_disconnect S)
      (send_client (someip_client_ops S)) cs (SomeipClient_new config) w = (rs, c', w')"
  shows "length rs = length cs \<and>
    SomeipClient_isConnected c' = link_after False (zip cs rs) \<and> link_ok False (zip cs rs)"
proof -
  have i: "someip_inv (SomeipClient_new config)" "\<not> SomeipClient_isConnected (SomeipClient_new config)"
    by (simp_all add: SomeipClient_new_def someip_inv_def SomeipClient_isConnected_def kInvalidSocketFd_def)
  have "run_calls (m_connect (someip_client_ops S)) (m_disconnect (someip_client_ops S))
      (send_client (someip_client_ops S)) cs (SomeipClient_new config) w = (rs, c', w')"
    using assms by (simp only: someip_client_ops_sel)
  from someip.link.calls_link [OF i(1) this] i(2) show ?thesis
    by (simp only: someip_client_ops_sel)
qed

theorem someip_client_is_link_witness:
  "res (run_calls (SomeipClient_connect demo_sockets) (SomeipClient_disconnect demo_sockets)
     (send_client (someip_client_ops demo_sockets)) [Send (Subscribe ''t'' 1), Connect]
     (SomeipClient_new SomeipConfig_default) []) = [False, True]"
proof -
  have r: "run_calls (SomeipClient_connect demo_sockets) (SomeipClient_disconnect demo_sockets)
     (send_client (someip_client_ops demo_sockets)) [Send (Subscribe ''t'' 1), Connect]
     (SomeipClient_new SomeipConfig_default) [] = ([False, True], demo_someip, [])"
    by (simp add: SomeipClient_connect_def SomeipClient_subscribe_def SomeipClient_isConnected_def
        demo_sockets_def SomeipClient_new_def demo_someip_def kInvalidSocketFd_def Let_def)
  from someip_client_is_link [OF r] r show ?thesis by simp
qed

text \<open>The socket address carries the configured port in network byte order on either kind of
  host, but the header does not: on a little-endian host every frame with the default identifiers
  starts with the low byte of the service identifier.\<close>

theorem someip_byte_order:
  "host_bytes big 2 (unat (htons big port)) = rev (le_bytes 2 (unat port)) \<and>
   take 4 (someip_frame False SomeipConfig_default payload) = [0x34, 0x12, 0x01, 0x00] \<and>
   take 4 (someip_frame True SomeipConfig_default payload) = [0x12, 0x34, 0x00, 0x01]"
  by (rule conjI [OF htons_network_order])
     (simp add: someip_frame_def header_bytes_def host_bytes_def le_bytes_2
       SomeipConfig_default_def kDefaultServiceId_def kDefaultMethodId_def)

end
