(* ===== verification/Client_Threads.thy ===== *)
theory Client_Threads
  imports Mqtt_Client Someip_Client
begin

text \<open>
  The clients called from several threads (\<open>src/MqttClient/mqtt_client.cpp\<close>,
  \<open>src/SomeipClient/someip_client.cpp\<close>). Every method locks the client's mutex for its whole body,
  except \<open>reconnect\<close>, which locks it twice: in \<open>disconnect\<close> and again in \<open>connect\<close>. A body is a
  sequence of steps, at most one access to the world each; the steps of different threads
  interleave, and all of them read and write the same members. The theory shows that the methods
  behave as the sequential definitions, in the order in which they leave the mutex.
\<close>

section \<open>Critical sections\<close>

text \<open>What a thread does under the lock, and the sequential definition of it.\<close>

datatype locked_call = LConnect | LDisconnect | LSend request | LAsk

fun locked_op :: "('c, 'w) client_ops \<Rightarrow> locked_call \<Rightarrow> ('c, 'w, bool) opr" where
  "locked_op M LConnect c w = m_connect M c w"
| "locked_op M LDisconnect c w = m_disconnect M c w"
| "locked_op M (LSend m) c w = send_client M m c w"
| "locked_op M LAsk c w = (m_isConnected M c, c, w)"

fun locked_run :: "('c, 'w) client_ops \<Rightarrow> locked_call list \<Rightarrow> ('c, 'w, bool list) opr" where
  "locked_run M [] c w = ([], c, w)"
| "locked_run M (k # ks) c w =
     (case locked_op M k c w of (r, c1, w1) \<Rightarrow>
      case locked_run M ks c1 w1 of (rs, c2, w2) \<Rightarrow> (r # rs, c2, w2))"

lemma locked_run_snoc:
  "locked_run M (ks @ [k]) c w =
     (case locked_run M ks c w of (rs, c1, w1) \<Rightarrow>
      case locked_op M k c1 w1 of (r, c2, w2) \<Rightarrow> (rs @ [r], c2, w2))"
  by (induction ks arbitrary: c w) (simp_all split: prod.split)

lemma locked_run_invariant:
  assumes "\<And>k c w r c' w'. P c w \<Longrightarrow> locked_op M k c w = (r, c', w') \<Longrightarrow> P c' w'"
  shows "P c w \<Longrightarrow> locked_run M ks c w = (rs, c', w') \<Longrightarrow> P c' w'"
proof (induction ks arbitrary: c w rs)
  case Nil
  then show ?case by simp
next
  case (Cons k ks)
  obtain r c1 w1 where k: "locked_op M k c w = (r, c1, w1)" by (cases "locked_op M k c w") auto
  from Cons.prems(2) k have "\<exists>rs1. locked_run M ks c1 w1 = (rs1, c', w')" by (auto split: prod.splits)
  with Cons.IH [OF assms [OF Cons.prems(1) k]] show ?case by blast
qed

text \<open>
  The code of a client: where a section starts behind the lock, one step of a section, which goes on
  at another point or returns, and whether \<open>reconnect\<close> goes on to \<open>connect\<close> after a \<open>disconnect\<close> with
  the given result.
\<close>

record ('pc, 'c, 'w) client_code =
  cc_enter :: "locked_call \<Rightarrow> 'pc"
  cc_step :: "'pc \<Rightarrow> ('c, 'w, 'pc + bool) opr"
  cc_retry :: "bool \<Rightarrow> bool"

text \<open>A section on its own, with fuel.\<close>

fun finish :: "('pc, 'c, 'w) client_code \<Rightarrow> nat \<Rightarrow> 'pc \<Rightarrow> ('c, 'w, bool option) opr" where
  "finish C 0 pc c w = (None, c, w)"
| "finish C (Suc n) pc c w =
     (case cc_step C pc c w of
        (Inl pc', c', w') \<Rightarrow> finish C n pc' c' w'
      | (Inr r, c', w') \<Rightarrow> (Some r, c', w'))"

section \<open>Threads\<close>

text \<open>A call by a thread: one of the methods of \<open>IMqttClient\<close>.\<close>

datatype method_call = Method client_call | IsConnected

text \<open>A section is a whole method, or the first or the second half of \<open>reconnect\<close>.\<close>

datatype part = Whole | First | Second

fun first_part :: "method_call \<Rightarrow> part" where
  "first_part (Method Reconnect) = First"
| "first_part m = Whole"

fun first_lock :: "method_call \<Rightarrow> locked_call" where
  "first_lock (Method (Call Connect)) = LConnect"
| "first_lock (Method (Call Disconnect)) = LDisconnect"
| "first_lock (Method (Call (Send m))) = LSend m"
| "first_lock (Method Reconnect) = LDisconnect"
| "first_lock IsConnected = LAsk"

text \<open>A thread is outside of the client, waits for the mutex, is inside a section, or is about to
  release the mutex with a result.\<close>

datatype 'pc thread_pc =
    Outside
  | Wants part locked_call
  | Inside part locked_call 'pc
  | Leaves part locked_call bool

text \<open>History: calls, their returns, and the sections in between as they complete.\<close>

datatype client_event =
    Invoke nat method_call
  | Linearize nat locked_call bool
  | Return nat bool

record ('pc, 'c, 'w) monitor =
  mo_client :: 'c
  mo_world :: 'w
  mo_mutex :: "nat option"
  mo_threads :: "'pc thread_pc list"
  mo_events :: "client_event list"

definition monitor_start :: "nat \<Rightarrow> 'c \<Rightarrow> 'w \<Rightarrow> ('pc, 'c, 'w) monitor" where
  "monitor_start n c w =
     \<lparr>mo_client = c, mo_world = w, mo_mutex = None, mo_threads = replicate n Outside, mo_events = []\<rparr>"

definition moves :: "nat \<Rightarrow> 'pc thread_pc \<Rightarrow> ('pc, 'c, 'w) monitor \<Rightarrow> ('pc, 'c, 'w) monitor" where
  "moves i pc s = s\<lparr>mo_threads := (mo_threads s)[i := pc]\<rparr>"

definition record_event :: "client_event \<Rightarrow> ('pc, 'c, 'w) monitor \<Rightarrow> ('pc, 'c, 'w) monitor" where
  "record_event e s = s\<lparr>mo_events := mo_events s @ [e]\<rparr>"

fun thread_step ::
  "('pc, 'c, 'w) client_code \<Rightarrow> nat \<Rightarrow> 'pc thread_pc \<Rightarrow> ('pc, 'c, 'w) monitor
    \<Rightarrow> ('pc, 'c, 'w) monitor option" where
  "thread_step C i Outside s = None"
| "thread_step C i (Wants p k) s =
     (if mo_mutex s = None
      then Some (moves i (Inside p k (cc_enter C k)) (s\<lparr>mo_mutex := Some i\<rparr>)) else None)"
| "thread_step C i (Inside p k pc) s =
     (case cc_step C pc (mo_client s) (mo_world s) of
        (Inl pc', c, w) \<Rightarrow> Some (moves i (Inside p k pc') (s\<lparr>mo_client := c, mo_world := w\<rparr>))
      | (Inr r, c, w) \<Rightarrow>
          Some (moves i (Leaves p k r)
            (record_event (Linearize i k r) (s\<lparr>mo_client := c, mo_world := w\<rparr>))))"
| "thread_step C i (Leaves p k r) s =
     (let s1 = s\<lparr>mo_mutex := None\<rparr> in
      if p = First \<and> cc_retry C r then Some (moves i (Wants Second LConnect) s1)
      else Some (moves i Outside (record_event (Return i r) s1)))"

datatype mon_choice = Invokes nat method_call | Steps nat

fun mon_step ::
  "('pc, 'c, 'w) client_code \<Rightarrow> mon_choice \<Rightarrow> ('pc, 'c, 'w) monitor \<Rightarrow> ('pc, 'c, 'w) monitor option" where
  "mon_step C (Invokes i m) s =
     (if i < length (mo_threads s) \<and> mo_threads s ! i = Outside
      then Some (moves i (Wants (first_part m) (first_lock m)) (record_event (Invoke i m) s)) else None)"
| "mon_step C (Steps i) s =
     (if i < length (mo_threads s) then thread_step C i (mo_threads s ! i) s else None)"

inductive mon_reach ::
  "('pc, 'c, 'w) client_code \<Rightarrow> ('pc, 'c, 'w) monitor \<Rightarrow> ('pc, 'c, 'w) monitor \<Rightarrow> bool"
for C s0 where
  mon_refl: "mon_reach C s0 s0"
| mon_next: "mon_reach C s0 s \<Longrightarrow> mon_step C ch s = Some s' \<Longrightarrow> mon_reach C s0 s'"

fun run_choices ::
  "('pc, 'c, 'w) client_code \<Rightarrow> mon_choice list \<Rightarrow> ('pc, 'c, 'w) monitor \<Rightarrow> ('pc, 'c, 'w) monitor option" where
  "run_choices C [] s = Some s"
| "run_choices C (ch # chs) s =
     (case mon_step C ch s of None \<Rightarrow> None | Some s' \<Rightarrow> run_choices C chs s')"

lemma run_choices_reach:
  "mon_reach C s0 s \<Longrightarrow> run_choices C chs s = Some s' \<Longrightarrow> mon_reach C s0 s'"
  by (induction chs arbitrary: s) (auto split: option.splits intro: mon_next)

section \<open>What a thread may observe\<close>

text \<open>The sections of a history with their results, in order of completion.\<close>

fun sections :: "client_event list \<Rightarrow> (locked_call \<times> bool) list" where
  "sections [] = []"
| "sections (Linearize i k r # es) = (k, r) # sections es"
| "sections (e # es) = sections es"

lemma sections_append [simp]: "sections (es @ fs) = sections es @ sections fs"
  by (induction es rule: sections.induct) simp_all

text \<open>
  An automaton for the events of one thread: a call, then its section, or for \<open>reconnect\<close> the sections
  of \<open>disconnect\<close> and, if the code goes on, \<open>connect\<close>; then a return with the result of the last
  section.
\<close>

datatype observed = NoCall | Called part locked_call | Due bool

fun observe_step :: "(bool \<Rightarrow> bool) \<Rightarrow> nat \<Rightarrow> client_event \<Rightarrow> observed option \<Rightarrow> observed option" where
  "observe_step retry i (Invoke j m) x =
     (if j \<noteq> i then x
      else case x of Some NoCall \<Rightarrow> Some (Called (first_part m) (first_lock m)) | _ \<Rightarrow> None)"
| "observe_step retry i (Linearize j k r) x =
     (if j \<noteq> i then x
      else case x of
        Some (Called p k') \<Rightarrow>
          if k \<noteq> k' then None
          else Some (if p = First \<and> retry r then Called Second LConnect else Due r)
      | _ \<Rightarrow> None)"
| "observe_step retry i (Return j r) x =
     (if j \<noteq> i then x
      else case x of Some (Due r') \<Rightarrow> if r = r' then Some NoCall else None | _ \<Rightarrow> None)"

definition observe :: "(bool \<Rightarrow> bool) \<Rightarrow> nat \<Rightarrow> client_event list \<Rightarrow> observed option" where
  "observe retry i es = fold (observe_step retry i) es (Some NoCall)"

lemma observe_snoc [simp]:
  "observe retry i [] = Some NoCall"
  "observe retry i (es @ [e]) = observe_step retry i e (observe retry i es)"
  by (simp_all add: observe_def)

text \<open>What the automaton has seen of a thread at a point.\<close>

fun seen :: "(bool \<Rightarrow> bool) \<Rightarrow> 'pc thread_pc \<Rightarrow> observed" where
  "seen retry Outside = NoCall"
| "seen retry (Wants p k) = Called p k"
| "seen retry (Inside p k pc) = Called p k"
| "seen retry (Leaves p k r) = (if p = First \<and> retry r then Called Second LConnect else Due r)"

fun in_section :: "'pc thread_pc \<Rightarrow> bool" where
  "in_section (Inside p k pc) = True"
| "in_section (Leaves p k r) = True"
| "in_section pc = False"


section \<open>Monitors\<close>

lemma moves_sel [simp]:
  "mo_client (moves i pc s) = mo_client s" "mo_world (moves i pc s) = mo_world s"
  "mo_mutex (moves i pc s) = mo_mutex s" "mo_events (moves i pc s) = mo_events s"
  "length (mo_threads (moves i pc s)) = length (mo_threads s)"
  "i < length (mo_threads s) \<Longrightarrow> mo_threads (moves i pc s) ! j = (if j = i then pc else mo_threads s ! j)"
  by (simp_all add: moves_def)

lemma record_event_sel [simp]:
  "mo_client (record_event e s) = mo_client s" "mo_world (record_event e s) = mo_world s"
  "mo_mutex (record_event e s) = mo_mutex s" "mo_events (record_event e s) = mo_events s @ [e]"
  "mo_threads (record_event e s) = mo_threads s"
  by (simp_all add: record_event_def)

lemma mon_step_length:
  "mon_step C ch s = Some s' \<Longrightarrow> length (mo_threads s') = length (mo_threads s)"
proof (induction C ch s rule: mon_step.induct)
  case (1 C i m s)
  then show ?case by (auto split: if_splits)
next
  case (2 C i s)
  then show ?case
    by (cases "mo_threads s ! i") (auto simp: Let_def split: if_splits prod.splits sum.splits)
qed

text \<open>The mutex is held exactly by the thread that is in a section.\<close>

definition lock_inv :: "('pc, 'c, 'w) monitor \<Rightarrow> bool" where
  "lock_inv s \<longleftrightarrow>
     (\<forall>i < length (mo_threads s). in_section (mo_threads s ! i) \<longleftrightarrow> mo_mutex s = Some i) \<and>
     (\<forall>i. mo_mutex s = Some i \<longrightarrow> i < length (mo_threads s))"

definition observed_inv :: "(bool \<Rightarrow> bool) \<Rightarrow> ('pc, 'c, 'w) monitor \<Rightarrow> bool" where
  "observed_inv retry s \<longleftrightarrow>
     (\<forall>i < length (mo_threads s). observe retry i (mo_events s) = Some (seen retry (mo_threads s ! i)))"

text \<open>The cases of a step.\<close>

lemma mon_step_cases:
  assumes "mon_step C ch s = Some s'"
  obtains (call) i m where "i < length (mo_threads s)" "mo_threads s ! i = Outside"
      "s' = moves i (Wants (first_part m) (first_lock m)) (record_event (Invoke i m) s)"
  | (lock) i p k where "i < length (mo_threads s)" "mo_threads s ! i = Wants p k" "mo_mutex s = None"
      "s' = moves i (Inside p k (cc_enter C k)) (s\<lparr>mo_mutex := Some i\<rparr>)"
  | (inner) i p k pc pc' c w where "i < length (mo_threads s)" "mo_threads s ! i = Inside p k pc"
      "cc_step C pc (mo_client s) (mo_world s) = (Inl pc', c, w)"
      "s' = moves i (Inside p k pc') (s\<lparr>mo_client := c, mo_world := w\<rparr>)"
  | (result) i p k pc r c w where "i < length (mo_threads s)" "mo_threads s ! i = Inside p k pc"
      "cc_step C pc (mo_client s) (mo_world s) = (Inr r, c, w)"
      "s' = moves i (Leaves p k r)
         (record_event (Linearize i k r) (s\<lparr>mo_client := c, mo_world := w\<rparr>))"
  | (again) i k r where "i < length (mo_threads s)" "mo_threads s ! i = Leaves First k r" "cc_retry C r"
      "s' = moves i (Wants Second LConnect) (s\<lparr>mo_mutex := None\<rparr>)"
  | (return) i p k r where "i < length (mo_threads s)" "mo_threads s ! i = Leaves p k r"
      "\<not> (p = First \<and> cc_retry C r)"
      "s' = moves i Outside (record_event (Return i r) (s\<lparr>mo_mutex := None\<rparr>))"
proof (cases ch)
  case (Invokes i m)
  with assms call show ?thesis by (auto split: if_splits)
next
  case (Steps i)
  with assms have i: "i < length (mo_threads s)" "thread_step C i (mo_threads s ! i) s = Some s'"
    by (auto split: if_splits)
  show ?thesis
  proof (cases "mo_threads s ! i")
    case Outside
    with i show ?thesis by simp
  next
    case (Wants p k)
    with i lock show ?thesis by (auto split: if_splits)
  next
    case (Inside p k pc)
    with i inner result show ?thesis by (auto split: prod.splits sum.splits)
  next
    case (Leaves p k r)
    with i again return show ?thesis by (auto simp: Let_def split: if_splits)
  qed
qed

lemma mon_step_lock:
  assumes "mon_step C ch s = Some s'" and "lock_inv s"
  shows "lock_inv s'"
  using assms(1)
proof (cases rule: mon_step_cases)
  case (call i m)
  with assms(2) show ?thesis by (auto simp: lock_inv_def)
next
  case (lock i p k)
  with assms(2) show ?thesis by (auto simp: lock_inv_def)
next
  case (inner i p k pc pc' c w)
  with assms(2) show ?thesis by (auto simp: lock_inv_def)
next
  case (result i p k pc r c w)
  with assms(2) show ?thesis by (auto simp: lock_inv_def)
next
  case (again i k r)
  then have "mo_mutex s = Some i" using assms(2) by (auto simp: lock_inv_def)
  with again assms(2) show ?thesis by (auto simp: lock_inv_def)
next
  case (return i p k r)
  then have "mo_mutex s = Some i" using assms(2) by (auto simp: lock_inv_def)
  with return assms(2) show ?thesis by (auto simp: lock_inv_def)
qed

lemma mon_step_observed:
  assumes "mon_step C ch s = Some s'" and "observed_inv (cc_retry C) s"
  shows "observed_inv (cc_retry C) s'"
  using assms(1)
proof (cases rule: mon_step_cases)
  case (return i p k r)
  with assms(2) show ?thesis by (cases p) (auto simp: observed_inv_def)
qed (use assms(2) in \<open>auto simp: observed_inv_def\<close>)

lemma mon_start_inv:
  "lock_inv (monitor_start n c w)" "observed_inv retry (monitor_start n c w)"
  by (simp_all add: lock_inv_def observed_inv_def monitor_start_def)

lemma mon_reach_inv:
  assumes "mon_reach C (monitor_start n c w) s"
  shows "lock_inv s \<and> observed_inv (cc_retry C) s \<and> length (mo_threads s) = n"
  using assms
proof (induction rule: mon_reach.induct)
  case mon_refl
  show ?case by (simp add: mon_start_inv) (simp add: monitor_start_def)
next
  case (mon_next s ch s')
  then show ?case by (auto dest: mon_step_lock mon_step_observed mon_step_length)
qed


section \<open>The contract between a client and its code\<close>

text \<open>The section in progress, if there is one.\<close>

definition in_progress :: "('pc, 'c, 'w) monitor \<Rightarrow> (locked_call \<times> 'pc) option" where
  "in_progress s =
     (case mo_mutex s of
        None \<Rightarrow> None
      | Some i \<Rightarrow> (case mo_threads s ! i of Inside p k pc \<Rightarrow> Some (k, pc) | _ \<Rightarrow> None))"

text \<open>How many steps the thread that holds the mutex has left before it releases it.\<close>

definition lock_left :: "('pc \<Rightarrow> nat) \<Rightarrow> ('pc, 'c, 'w) monitor \<Rightarrow> nat" where
  "lock_left rank s =
     (case mo_mutex s of
        None \<Rightarrow> 0
      | Some i \<Rightarrow> (case mo_threads s ! i of Inside p k pc \<Rightarrow> rank pc + 2 | _ \<Rightarrow> 1))"

text \<open>Each section alone computes the method it belongs to, ends, and \<open>reconnect\<close> is \<open>disconnect\<close> and
  then, depending on its result, \<open>connect\<close>.\<close>

locale locked_client =
  fixes M :: "('c, 'w) client_ops"
    and C :: "('pc, 'c, 'w) client_code"
    and rank :: "'pc \<Rightarrow> nat"
  assumes section_computes: "finish C (Suc (rank (cc_enter C k))) (cc_enter C k) c w =
      (case locked_op M k c w of (r, c', w') \<Rightarrow> (Some r, c', w'))"
    and section_ends: "cc_step C pc c w = (Inl pc', c', w') \<Longrightarrow> rank pc' < rank pc"
    and two_sections: "m_reconnect M c w =
      (case m_disconnect M c w of (r, c1, w1) \<Rightarrow> if cc_retry C r then m_connect M c1 w1 else (r, c1, w1))"
begin

text \<open>The state is what the sections completed so far leave, run one after the other; during a
  section, what is left of it completes it.\<close>

definition linear_inv :: "'c \<Rightarrow> 'w \<Rightarrow> ('pc, 'c, 'w) monitor \<Rightarrow> bool" where
  "linear_inv c0 w0 s \<longleftrightarrow>
     (case locked_run M (map fst (sections (mo_events s))) c0 w0 of (rs, c, w) \<Rightarrow>
        rs = map snd (sections (mo_events s)) \<and>
        (case in_progress s of
           None \<Rightarrow> mo_client s = c \<and> mo_world s = w
         | Some (k, pc) \<Rightarrow> \<exists>n. finish C n pc (mo_client s) (mo_world s) =
             (case locked_op M k c w of (r, c', w') \<Rightarrow> (Some r, c', w'))))"

lemma holder:
  "lock_inv s \<Longrightarrow> i < length (mo_threads s) \<Longrightarrow> in_section (mo_threads s ! i) \<Longrightarrow> mo_mutex s = Some i"
  by (simp add: lock_inv_def)

lemma not_holder:
  "lock_inv s \<Longrightarrow> i < length (mo_threads s) \<Longrightarrow> \<not> in_section (mo_threads s ! i) \<Longrightarrow> mo_mutex s \<noteq> Some i"
  by (simp add: lock_inv_def)

lemma linear_step:
  assumes "mon_step C ch s = Some s'" and "lock_inv s" and "linear_inv c0 w0 s"
  shows "linear_inv c0 w0 s'"
proof -
  obtain rs c1 w1 where run: "locked_run M (map fst (sections (mo_events s))) c0 w0 = (rs, c1, w1)"
    by (cases "locked_run M (map fst (sections (mo_events s))) c0 w0") auto
  note lin = assms(3) [unfolded linear_inv_def run prod.case]
  from assms(1) show ?thesis
  proof (cases rule: mon_step_cases)
    case (call i m)
    then have "in_progress s' = in_progress s"
      using not_holder [OF assms(2) call(1)] by (auto simp: in_progress_def split: option.split)
    with call lin run show ?thesis by (cases "in_progress s") (auto simp: linear_inv_def)
  next
    case (lock i p k)
    then have "in_progress s = None" "in_progress s' = Some (k, cc_enter C k)"
      by (simp_all add: in_progress_def)
    moreover have "\<exists>n. finish C n (cc_enter C k) c1 w1 =
        (case locked_op M k c1 w1 of (r, c', w') \<Rightarrow> (Some r, c', w'))"
      using section_computes by blast
    ultimately show ?thesis using lock lin run by (auto simp: linear_inv_def)
  next
    case (inner i p k pc pc' c w)
    with holder [OF assms(2) inner(1)] have ip: "in_progress s = Some (k, pc)" "in_progress s' = Some (k, pc')"
      by (simp_all add: in_progress_def)
    with lin obtain n where n: "finish C n pc (mo_client s) (mo_world s) =
        (case locked_op M k c1 w1 of (r, c', w') \<Rightarrow> (Some r, c', w'))" by auto
    then obtain n' where "n = Suc n'" by (cases n) (auto split: prod.splits)
    with n inner(3) have "finish C n' pc' c w =
        (case locked_op M k c1 w1 of (r, c', w') \<Rightarrow> (Some r, c', w'))" by simp
    with ip inner(4) lin run show ?thesis by (auto simp: linear_inv_def)
  next
    case (result i p k pc r c w)
    with holder [OF assms(2) result(1)] have ip: "in_progress s = Some (k, pc)" "in_progress s' = None"
      by (simp_all add: in_progress_def)
    with lin obtain n where n: "finish C n pc (mo_client s) (mo_world s) =
        (case locked_op M k c1 w1 of (r, c', w') \<Rightarrow> (Some r, c', w'))" by auto
    then obtain n' where "n = Suc n'" by (cases n) (auto split: prod.splits)
    with n result(3) have "locked_op M k c1 w1 = (r, c, w)" by (auto split: prod.splits)
    with ip result(4) lin run show ?thesis by (simp add: linear_inv_def locked_run_snoc)
  next
    case (again i k r)
    with holder [OF assms(2) again(1)] have "in_progress s = None" "in_progress s' = None"
      by (simp_all add: in_progress_def)
    with again lin run show ?thesis by (simp add: linear_inv_def)
  next
    case (return i p k r)
    with holder [OF assms(2) return(1)] have "in_progress s = None" "in_progress s' = None"
      by (simp_all add: in_progress_def)
    with return lin run show ?thesis by (simp add: linear_inv_def)
  qed
qed

lemma reach_linear:
  assumes "mon_reach C (monitor_start n c0 w0) s"
  shows "linear_inv c0 w0 s"
  using assms
proof (induction rule: mon_reach.induct)
  case mon_refl
  show ?case by (simp add: linear_inv_def monitor_start_def in_progress_def)
next
  case (mon_next s ch s')
  with mon_reach_inv [OF mon_next(1)] show ?case by (blast intro: linear_step)
qed

theorem linearizable:
  assumes "mon_reach C (monitor_start n c0 w0) s" and "mo_mutex s = None"
  shows "locked_run M (map fst (sections (mo_events s))) c0 w0 =
      (map snd (sections (mo_events s)), mo_client s, mo_world s)"
    and "\<And>i. i < n \<Longrightarrow> observe (cc_retry C) i (mo_events s) = Some (seen (cc_retry C) (mo_threads s ! i))"
proof -
  have "in_progress s = None" using assms(2) by (simp add: in_progress_def)
  with reach_linear [OF assms(1)]
  show "locked_run M (map fst (sections (mo_events s))) c0 w0 =
      (map snd (sections (mo_events s)), mo_client s, mo_world s)"
    by (auto simp: linear_inv_def split: prod.splits)
  show "\<And>i. i < n \<Longrightarrow> observe (cc_retry C) i (mo_events s) = Some (seen (cc_retry C) (mo_threads s ! i))"
    using mon_reach_inv [OF assms(1)] by (simp add: observed_inv_def)
qed

text \<open>As long as a thread is in a call some thread can step, and if one holds the mutex it is that
  one, which comes closer to releasing it.\<close>

theorem progress:
  assumes "mon_reach C (monitor_start n c0 w0) s" and "i < n" and "mo_threads s ! i \<noteq> Outside"
  shows "\<exists>j s'. mon_step C (Steps j) s = Some s' \<and>
    (if mo_mutex s = None then j = i else mo_mutex s = Some j \<and> lock_left rank s' < lock_left rank s)"
proof -
  have inv: "lock_inv s" "length (mo_threads s) = n" using mon_reach_inv [OF assms(1)] by simp_all
  show ?thesis
  proof (cases "mo_mutex s")
    case None
    with inv assms(2) have "\<not> in_section (mo_threads s ! i)" by (auto simp: lock_inv_def)
    with None inv(2) assms(2,3) show ?thesis by (cases "mo_threads s ! i") auto
  next
    case (Some j)
    with inv have j: "j < length (mo_threads s)" "in_section (mo_threads s ! j)"
      by (auto simp: lock_inv_def)
    show ?thesis
    proof (cases "mo_threads s ! j")
      case (Inside p k pc)
      obtain x c w where st: "cc_step C pc (mo_client s) (mo_world s) = (x, c, w)"
        by (cases "cc_step C pc (mo_client s) (mo_world s)") auto
      with Inside Some j section_ends [of pc] show ?thesis
        by (cases x) (auto simp: lock_left_def)
    next
      case (Leaves p k r)
      with Some j show ?thesis by (auto simp: lock_left_def Let_def)
    qed (use j in simp_all)
  qed
qed

text \<open>Two sections that are not interrupted are a reconnect.\<close>

lemma uninterrupted_reconnect:
  assumes "locked_run M [LDisconnect, LConnect] c w = ([r1, r2], c', w')" and "cc_retry C r1"
  shows "m_reconnect M c w = (r2, c', w')"
  using assms by (auto simp: two_sections split: prod.splits)

end


section \<open>\<open>SomeipClient\<close>\<close>

text \<open>The points of its sections behind the lock, named after source lines.\<close>

datatype someip_pc =
    So35 | So39 | So40 | So47 | So48 | So49 | So53 sockaddr_in | So54 | So55 | So59
  | So65 | So66 | So68 | So69
  | So80 string | So93 "byte list"
  | So105

fun someip_enter :: "locked_call \<Rightarrow> someip_pc" where
  "someip_enter LConnect = So35"
| "someip_enter LDisconnect = So65"
| "someip_enter (LSend (Publish topic payload q)) = So80 payload"
| "someip_enter (LSend (Subscribe topic q)) = So105"
| "someip_enter LAsk = So105"

fun someip_step :: "'w socket_ops \<Rightarrow> someip_pc \<Rightarrow> (SomeipClient, 'w, someip_pc + bool) opr" where
  "someip_step S So35 c w = (if sc_connected c then Inr True else Inl So39, c, w)"
| "someip_step S So39 c w =
     (case sk_socket S w of (fd, w') \<Rightarrow> (Inl So40, c\<lparr>sc_socket_fd := fd\<rparr>, w'))"
| "someip_step S So40 c w = (if sc_socket_fd c < 0 then Inr False else Inl So47, c, w)"
| "someip_step S So47 c w =
     (case sk_inet_pton S (c_str (sc_host (sc_config c))) of (parsed, addr) \<Rightarrow>
        (Inl (if parsed \<noteq> 1 then So48
              else So53 \<lparr>sin_port = htons (sk_big_endian S) (sc_port (sc_config c)), sin_addr = addr\<rparr>), c, w))"
| "someip_step S So48 c w = (Inl So49, c, sk_close S (sc_socket_fd c) w)"
| "someip_step S So49 c w = (Inr False, c\<lparr>sc_socket_fd := kInvalidSocketFd\<rparr>, w)"
| "someip_step S (So53 address) c w =
     (case sk_connect S (sc_socket_fd c) address w of (rc, w') \<Rightarrow>
        (Inl (if rc \<noteq> 0 then So54 else So59), c, w'))"
| "someip_step S So54 c w = (Inl So55, c, sk_close S (sc_socket_fd c) w)"
| "someip_step S So55 c w = (Inr False, c\<lparr>sc_socket_fd := kInvalidSocketFd\<rparr>, w)"
| "someip_step S So59 c w = (Inr True, c\<lparr>sc_connected := True\<rparr>, w)"
| "someip_step S So65 c w = (Inl (if 0 \<le> sc_socket_fd c then So66 else So68), c, w)"
| "someip_step S So66 c w = (Inl So68, c, sk_close S (sc_socket_fd c) w)"
| "someip_step S So68 c w = (Inl So69, c\<lparr>sc_socket_fd := kInvalidSocketFd\<rparr>, w)"
| "someip_step S So69 c w = (Inr True, c\<lparr>sc_connected := False\<rparr>, w)"
| "someip_step S (So80 payload) c w =
     (if \<not> sc_connected c \<or> sc_socket_fd c < 0 then Inr False
      else Inl (So93 (someip_frame (sk_big_endian S) (sc_config c) payload)), c, w)"
| "someip_step S (So93 frame) c w =
     (case sk_send S (sc_socket_fd c) frame 0 w of (sent, w') \<Rightarrow>
        (Inr (sent = int (length frame)), c, w'))"
| "someip_step S So105 c w = (Inr (sc_connected c \<and> 0 \<le> sc_socket_fd c), c, w)"

text \<open>\<open>reconnect\<close> does not look at the result of \<open>disconnect\<close>.\<close>

definition someip_code :: "'w socket_ops \<Rightarrow> (someip_pc, SomeipClient, 'w) client_code" where
  "someip_code S = \<lparr>cc_enter = someip_enter, cc_step = someip_step S, cc_retry = (\<lambda>_. True)\<rparr>"

fun someip_rank :: "someip_pc \<Rightarrow> nat" where
  "someip_rank So35 = 6" | "someip_rank So39 = 5" | "someip_rank So40 = 4" | "someip_rank So47 = 3"
| "someip_rank So48 = 1" | "someip_rank So49 = 0" | "someip_rank (So53 a) = 2"
| "someip_rank So54 = 1" | "someip_rank So55 = 0" | "someip_rank So59 = 0"
| "someip_rank So65 = 3" | "someip_rank So66 = 2" | "someip_rank So68 = 1" | "someip_rank So69 = 0"
| "someip_rank (So80 p) = 1" | "someip_rank (So93 f) = 0" | "someip_rank So105 = 0"

lemma someip_code_sel [simp]:
  "cc_enter (someip_code S) = someip_enter" "cc_step (someip_code S) = someip_step S"
  "cc_retry (someip_code S) r = True"
  by (simp_all add: someip_code_def)

lemmas someip_section_defs = SomeipClient_connect_def SomeipClient_disconnect_def
  SomeipClient_publish_def SomeipClient_subscribe_def SomeipClient_isConnected_def

lemma someip_section_computes:
  "finish (someip_code S) (Suc (someip_rank (someip_enter k))) (someip_enter k) c w =
     (case locked_op (someip_client_ops S) k c w of (r, c', w') \<Rightarrow> (Some r, c', w'))"
  by (cases k rule: someip_enter.cases)
    (simp_all add: eval_nat_numeral someip_section_defs Let_def split: prod.split)

interpretation someip_monitor: locked_client "someip_client_ops S" "someip_code S" someip_rank
proof (unfold_locales, goal_cases)
  case (1 k c w)
  show ?case by (simp only: someip_code_sel someip_section_computes)
next
  case (2 pc c w pc' c' w')
  then show ?case by (cases pc) (auto split: prod.splits if_splits)
next
  case (3 c w)
  show ?case by (simp add: SomeipClient_reconnect_def)
qed

section \<open>\<open>MqttClient\<close>\<close>

datatype mqtt_pc =
    Mq106 | Mq110 | Mq110_store bool
  | Mq116 | Mq117
  | Mq122 string string int | Mq125 string string int
  | Mq130 string int | Mq133 string int
  | Mq138

fun mqtt_enter :: "locked_call \<Rightarrow> mqtt_pc" where
  "mqtt_enter LConnect = Mq106"
| "mqtt_enter LDisconnect = Mq116"
| "mqtt_enter (LSend (Publish topic payload q)) = Mq122 topic payload q"
| "mqtt_enter (LSend (Subscribe topic q)) = Mq130 topic q"
| "mqtt_enter LAsk = Mq138"

fun mqtt_step :: "('b, 'w) backend_ops \<Rightarrow> mqtt_pc \<Rightarrow> ('b MqttClient, 'w, mqtt_pc + bool) opr" where
  "mqtt_step B Mq106 c w = (if mc_connected c then Inr True else Inl Mq110, c, w)"
| "mqtt_step B Mq110 c w =
     (case b_connect B (broker (mc_config c)) (client_id (mc_config c)) (mc_backend c) w of
        (r, b, w') \<Rightarrow> (Inl (Mq110_store r), c\<lparr>mc_backend := b\<rparr>, w'))"
| "mqtt_step B (Mq110_store r) c w = (Inr r, c\<lparr>mc_connected := r\<rparr>, w)"
| "mqtt_step B Mq116 c w = (Inl Mq117, c\<lparr>mc_connected := False\<rparr>, w)"
| "mqtt_step B Mq117 c w =
     (case b_disconnect B (mc_backend c) w of (r, b, w') \<Rightarrow> (Inr r, c\<lparr>mc_backend := b\<rparr>, w'))"
| "mqtt_step B (Mq122 topic payload q) c w =
     (if mc_connected c then Inl (Mq125 topic payload q) else Inr False, c, w)"
| "mqtt_step B (Mq125 topic payload q) c w =
     (case b_publish B topic payload (effective_qos c q) (mc_backend c) w of
        (r, b, w') \<Rightarrow> (Inr r, c\<lparr>mc_backend := b\<rparr>, w'))"
| "mqtt_step B (Mq130 topic q) c w = (if mc_connected c then Inl (Mq133 topic q) else Inr False, c, w)"
| "mqtt_step B (Mq133 topic q) c w =
     (case b_subscribe B topic (effective_qos c q) (mc_backend c) w of
        (r, b, w') \<Rightarrow> (Inr r, c\<lparr>mc_backend := b\<rparr>, w'))"
| "mqtt_step B Mq138 c w = (Inr (mc_connected c), c, w)"

text \<open>\<open>reconnect\<close> connects only if \<open>disconnect\<close> succeeded.\<close>

definition mqtt_code :: "('b, 'w) backend_ops \<Rightarrow> (mqtt_pc, 'b MqttClient, 'w) client_code" where
  "mqtt_code B = \<lparr>cc_enter = mqtt_enter, cc_step = mqtt_step B, cc_retry = (\<lambda>r. r)\<rparr>"

fun mqtt_rank :: "mqtt_pc \<Rightarrow> nat" where
  "mqtt_rank Mq106 = 2" | "mqtt_rank Mq110 = 1" | "mqtt_rank (Mq110_store r) = 0"
| "mqtt_rank Mq116 = 1" | "mqtt_rank Mq117 = 0"
| "mqtt_rank (Mq122 t p q) = 1" | "mqtt_rank (Mq125 t p q) = 0"
| "mqtt_rank (Mq130 t q) = 1" | "mqtt_rank (Mq133 t q) = 0" | "mqtt_rank Mq138 = 0"

lemma mqtt_code_sel [simp]:
  "cc_enter (mqtt_code B) = mqtt_enter" "cc_step (mqtt_code B) = mqtt_step B" "cc_retry (mqtt_code B) r = r"
  by (simp_all add: mqtt_code_def)

lemma mqtt_section_computes:
  "finish (mqtt_code B) (Suc (mqtt_rank (mqtt_enter k))) (mqtt_enter k) c w =
     (case locked_op (mqtt_client_ops B) k c w of (r, c', w') \<Rightarrow> (Some r, c', w'))"
  by (cases k rule: mqtt_enter.cases)
    (simp_all add: eval_nat_numeral MqttClient_defs effective_qos_def split: prod.split)

interpretation mqtt_monitor: locked_client "mqtt_client_ops B" "mqtt_code B" mqtt_rank
proof (unfold_locales, goal_cases)
  case (1 k c w)
  show ?case by (simp only: mqtt_code_sel mqtt_section_computes)
next
  case (2 pc c w pc' c' w')
  then show ?case by (cases pc) (auto split: prod.splits if_splits)
next
  case (3 c w)
  show ?case by (auto simp: MqttClient_reconnect_def split: prod.split)
qed


section \<open>The link as the threads see it\<close>

text \<open>A history tells one story about the link: \<open>connect\<close> succeeds while it is up, \<open>disconnect\<close> takes
  it down, nothing is sent while it is down, and \<open>isConnected\<close> answers whether it is up.\<close>

fun history_ok :: "bool \<Rightarrow> (locked_call \<times> bool) list \<Rightarrow> bool" where
  "history_ok up [] = True"
| "history_ok up ((LConnect, r) # es) = ((up \<longrightarrow> r) \<and> history_ok r es)"
| "history_ok up ((LDisconnect, r) # es) = history_ok False es"
| "history_ok up ((LSend m, r) # es) = ((r \<longrightarrow> up) \<and> history_ok up es)"
| "history_ok up ((LAsk, r) # es) = (r = up \<and> history_ok up es)"

locale shared_client = locked_client M C rank + mqtt_client M inv
  for M :: "('c, 'w) client_ops" and C :: "('pc, 'c, 'w) client_code" and rank inv
begin

lemma locked_run_history:
  "inv c \<Longrightarrow> locked_run M (map fst es) c w = (map snd es, c', w') \<Longrightarrow> history_ok (m_isConnected M c) es"
proof (induction es arbitrary: c w)
  case Nil
  then show ?case by simp
next
  case (Cons e es)
  obtain k r where e: "e = (k, r)" by (cases e)
  with Cons.prems(2) obtain c1 w1 where k: "locked_op M k c w = (r, c1, w1)"
    and rest: "locked_run M (map fst es) c1 w1 = (map snd es, c', w')"
    by (auto split: prod.splits)
  show ?case
  proof (cases k)
    case LConnect
    with k have "m_connect M c w = (r, c1, w1)" by simp
    with client_connect [OF Cons.prems(1) this] client_connect_idem [OF Cons.prems(1), of w]
      Cons.IH [OF _ rest] e LConnect show ?thesis by auto
  next
    case LDisconnect
    with k have "m_disconnect M c w = (r, c1, w1)" by simp
    with client_disconnect [OF Cons.prems(1) this] Cons.IH [OF _ rest] e LDisconnect show ?thesis by simp
  next
    case (LSend m)
    with k have m: "send_client M m c w = (r, c1, w1)" by simp
    with client_send_down [OF Cons.prems(1), of m w] have "r \<longrightarrow> m_isConnected M c" by auto
    with client_send [OF Cons.prems(1) m] Cons.IH [OF _ rest] e LSend show ?thesis by simp
  next
    case LAsk
    with k Cons.prems(1) Cons.IH [OF _ rest] e show ?thesis by auto
  qed
qed

theorem reach_history:
  assumes "mon_reach C (monitor_start n c0 w0) s" and "inv c0"
  shows "history_ok (m_isConnected M c0) (sections (mo_events s))"
proof -
  obtain c w where "locked_run M (map fst (sections (mo_events s))) c0 w0 =
      (map snd (sections (mo_events s)), c, w)"
    using reach_linear [OF assms(1)] by (auto simp: linear_inv_def split: prod.splits)
  from locked_run_history [OF assms(2) this] show ?thesis .
qed

end

interpretation someip_shared: shared_client "someip_client_ops S" "someip_code S" someip_rank someip_inv
  by unfold_locales

interpretation mqtt_shared: shared_client "mqtt_client_ops B" "mqtt_code B" mqtt_rank "\<lambda>_. True"
  by unfold_locales

section \<open>Properties\<close>

text \<open>C15: \<open>SomeipClient\<close> is linearizable: whatever any number of threads call on it, with their steps
  interleaved line by line and any answers of the sockets, whenever the mutex is free the client and
  the world are what the sequential definitions leave when run one after the other in the order in
  which the sections completed, with the same results; and each thread has seen its calls, one
  section each, two for a reconnect, between call and return, and the result of its last section.\<close>

theorem someip_calls_linearize:
  assumes "mon_reach (someip_code S) (monitor_start n c0 w0) s" and "mo_mutex s = None"
  shows "locked_run (someip_client_ops S) (map fst (sections (mo_events s))) c0 w0 =
      (map snd (sections (mo_events s)), mo_client s, mo_world s) \<and>
    (\<forall>i < n. observe (\<lambda>_. True) i (mo_events s) \<noteq> None)"
proof -
  have "cc_retry (someip_code S) = (\<lambda>_. True)" by (simp add: fun_eq_iff)
  with someip_monitor.linearizable [OF assms] show ?thesis by simp
qed

text \<open>C16: \<open>MqttClient\<close> is linearizable in the same sense, over any backend; its \<open>reconnect\<close> has its second
  section only if the first one, the disconnect, succeeded.\<close>

theorem mqtt_calls_linearize:
  assumes "mon_reach (mqtt_code B) (monitor_start n c0 w0) s" and "mo_mutex s = None"
  shows "locked_run (mqtt_client_ops B) (map fst (sections (mo_events s))) c0 w0 =
      (map snd (sections (mo_events s)), mo_client s, mo_world s) \<and>
    (\<forall>i < n. observe (\<lambda>r. r) i (mo_events s) \<noteq> None)"
proof -
  have "cc_retry (mqtt_code B) = (\<lambda>r. r)" by (simp add: fun_eq_iff)
  with mqtt_monitor.linearizable [OF assms] show ?thesis by simp
qed

text \<open>C19: All threads agree on the link: in every reachable state of an \<open>MqttClient\<close> used by several
  threads each \<open>isConnected\<close> has answered what the connects and disconnects completed before it left,
  and no thread was told that a message was sent while the link was down.\<close>

theorem threads_agree_on_link:
  assumes "mon_reach (mqtt_code B) (monitor_start n c0 w0) s"
  shows "history_ok (MqttClient_isConnected c0) (sections (mo_events s))"
  using mqtt_shared.reach_history [OF assms] by simp

lemma someip_threads_agree_on_link:
  assumes "mon_reach (someip_code S) (monitor_start n c0 w0) s" and "someip_inv c0"
  shows "history_ok (SomeipClient_isConnected c0) (sections (mo_events s))"
  using someip_shared.reach_history [OF assms] by simp

text \<open>C17: Threads cannot leak or share a socket: after any concurrent use of a new \<open>SomeipClient\<close>,
  whenever the mutex is free, the open descriptors are exactly the one of a connected client.\<close>

theorem someip_threads_no_leak:
  assumes "mon_reach (someip_code (tracked S)) (monitor_start n (SomeipClient_new config) (w, [])) s"
    and "mo_mutex s = None"
  shows "snd (mo_world s) =
    (if SomeipClient_isConnected (mo_client s) then [sc_socket_fd (mo_client s)] else [])"
proof -
  have op: "descriptors_ok c' v'" if "descriptors_ok c v"
    and "locked_op (someip_client_ops (tracked S)) k c v = (r, c', v')" for k c v r c' v'
  proof (cases k)
    case LConnect
    with that tracked_op [OF that(1), of S "Call Connect"] show ?thesis by simp
  next
    case LDisconnect
    with that tracked_op [OF that(1), of S "Call Disconnect"] show ?thesis by simp
  next
    case (LSend m)
    with that tracked_op [OF that(1), of S "Call (Send m)"] show ?thesis by simp
  next
    case LAsk
    with that show ?thesis by simp
  qed
  have "descriptors_ok (SomeipClient_new config) (w, [])"
    by (simp add: descriptors_ok_def SomeipClient_new_def someip_inv_def
        SomeipClient_isConnected_def kInvalidSocketFd_def)
  from locked_run_invariant [where P = descriptors_ok, OF op this
      someip_monitor.linearizable(1) [OF assms]]
  show ?thesis by (simp add: descriptors_ok_def)
qed

text \<open>C18: The clients cannot deadlock: as long as a thread is inside a call of a \<open>SomeipClient\<close>, a thread
  can step: that one if the mutex is free, otherwise the one that holds it, which is at most eight
  steps away from releasing it and comes closer with each of them.\<close>

theorem client_threads_progress:
  assumes "mon_reach (someip_code S) (monitor_start n c0 w0) s"
    and "i < n" and "mo_threads s ! i \<noteq> Outside"
  shows "\<exists>j s'. mon_step (someip_code S) (Steps j) s = Some s' \<and> lock_left someip_rank s \<le> 8 \<and>
    (if mo_mutex s = None then j = i
     else mo_mutex s = Some j \<and> lock_left someip_rank s' < lock_left someip_rank s)"
proof -
  have "someip_rank pc \<le> 6" for pc by (cases pc) simp_all
  then have "lock_left someip_rank s \<le> 8"
    by (auto simp: lock_left_def split: option.split thread_pc.split)
  with someip_monitor.progress [OF assms] show ?thesis by blast
qed

lemma mqtt_threads_progress:
  assumes "mon_reach (mqtt_code B) (monitor_start n c0 w0) s"
    and "i < n" and "mo_threads s ! i \<noteq> Outside"
  shows "\<exists>j s'. mon_step (mqtt_code B) (Steps j) s = Some s' \<and>
    (if mo_mutex s = None then j = i
     else mo_mutex s = Some j \<and> lock_left mqtt_rank s' < lock_left mqtt_rank s)"
  by (rule mqtt_monitor.progress [OF assms])

section \<open>A run with two threads\<close>

text \<open>Thread 0 reconnects a connected client, thread 1 publishes between the two sections. The network
  accepts everything.\<close>

definition interrupting :: "mon_choice list" where
  "interrupting =
     [Invokes 0 (Method Reconnect), Steps 0, Steps 0, Steps 0, Steps 0, Steps 0, Steps 0,
      Invokes 1 (Method (Call (Send (Publish ''t'' ''A'' 1)))), Steps 1, Steps 1, Steps 1,
      Steps 0, Steps 0, Steps 0, Steps 0, Steps 0, Steps 0, Steps 0, Steps 0]"


lemma interrupted_run:
  "\<exists>s. run_choices (someip_code demo_sockets) interrupting (monitor_start 2 demo_someip []) = Some s \<and>
     mo_mutex s = None \<and> mo_client s = demo_someip \<and> mo_world s = [] \<and>
     mo_events s =
       [Invoke 0 (Method Reconnect), Linearize 0 LDisconnect True,
        Invoke 1 (Method (Call (Send (Publish ''t'' ''A'' 1)))),
        Linearize 1 (LSend (Publish ''t'' ''A'' 1)) False, Return 1 False,
        Linearize 0 LConnect True, Return 0 True]"
  by (simp add: interrupting_def monitor_start_def moves_def record_event_def eval_nat_numeral
      someip_code_def demo_someip_def demo_sockets_def SomeipClient_new_def kInvalidSocketFd_def Let_def)

text \<open>\<open>reconnect\<close> is not atomic: it releases the mutex between \<open>disconnect\<close> and \<open>connect\<close>. On a
  network that accepts everything, with a client that is connected before and after, another
  thread's publish fails in between and its message is not sent.\<close>

theorem reconnect_not_atomic:
  "\<exists>s. mon_reach (someip_code demo_sockets) (monitor_start 2 demo_someip []) s \<and>
     SomeipClient_isConnected demo_someip \<and> SomeipClient_isConnected (mo_client s) \<and>
     fst (SomeipClient_publish demo_sockets ''t'' ''A'' 1 demo_someip []) \<and>
     mo_events s =
       [Invoke 0 (Method Reconnect), Linearize 0 LDisconnect True,
        Invoke 1 (Method (Call (Send (Publish ''t'' ''A'' 1)))),
        Linearize 1 (LSend (Publish ''t'' ''A'' 1)) False, Return 1 False,
        Linearize 0 LConnect True, Return 0 True] \<and>
     mo_world s = []"
proof -
  have "SomeipClient_isConnected demo_someip"
    and "fst (SomeipClient_publish demo_sockets ''t'' ''A'' 1 demo_someip [])"
    by (simp_all add: demo_someip_def demo_sockets_def SomeipClient_isConnected_def
        SomeipClient_publish_def Let_def)
  with interrupted_run run_choices_reach [OF mon_refl] show ?thesis by metis
qed

section \<open>Witnesses\<close>

theorem someip_calls_linearize_witness:
  "\<exists>s. mon_reach (someip_code demo_sockets) (monitor_start 2 demo_someip []) s \<and>
     locked_run (someip_client_ops demo_sockets) [LDisconnect, LSend (Publish ''t'' ''A'' 1), LConnect]
     demo_someip [] = ([True, False, True], mo_client s, mo_world s) \<and>
     observe (\<lambda>_. True) 1 (mo_events s) \<noteq> None \<and> length (mo_events s) = 7"
proof -
  obtain s where s: "mon_reach (someip_code demo_sockets) (monitor_start 2 demo_someip []) s"
    "mo_mutex s = None"
    "mo_events s =
       [Invoke 0 (Method Reconnect), Linearize 0 LDisconnect True,
        Invoke 1 (Method (Call (Send (Publish ''t'' ''A'' 1)))),
        Linearize 1 (LSend (Publish ''t'' ''A'' 1)) False, Return 1 False,
        Linearize 0 LConnect True, Return 0 True]"
    using interrupted_run run_choices_reach [OF mon_refl] by metis
  from someip_calls_linearize [OF s(1,2)] have
    "locked_run (someip_client_ops demo_sockets) (map fst (sections (mo_events s))) demo_someip [] =
      (map snd (sections (mo_events s)), mo_client s, mo_world s)"
    "observe (\<lambda>_. True) 1 (mo_events s) \<noteq> None"
    by simp_all
  with s(1,3) show ?thesis by (intro exI [of _ s]) (simp del: locked_run.simps locked_op.simps)
qed

text \<open>One thread connects a new client over the tracked network.\<close>

definition connecting :: "mon_choice list" where
  "connecting = [Invokes 0 (Method (Call Connect)), Steps 0, Steps 0, Steps 0, Steps 0, Steps 0, Steps 0,
     Steps 0, Steps 0]"

lemma connecting_run:
  obtains s where "mon_reach (someip_code (tracked demo_sockets))
      (monitor_start 1 (SomeipClient_new SomeipConfig_default) ([], [])) s"
    and "mo_mutex s = None" "SomeipClient_isConnected (mo_client s)" "sc_socket_fd (mo_client s) = 3"
proof -
  have "\<exists>s. run_choices (someip_code (tracked demo_sockets)) connecting
      (monitor_start 1 (SomeipClient_new SomeipConfig_default) ([], [])) = Some s \<and>
     mo_mutex s = None \<and> SomeipClient_isConnected (mo_client s) \<and> sc_socket_fd (mo_client s) = 3"
    by (simp add: connecting_def monitor_start_def moves_def record_event_def eval_nat_numeral tracked_def
        someip_code_def demo_sockets_def SomeipClient_new_def kInvalidSocketFd_def Let_def
        SomeipClient_isConnected_def)
  with that run_choices_reach [OF mon_refl] show thesis by metis
qed

theorem someip_threads_no_leak_witness:
  "\<exists>s. mon_reach (someip_code (tracked demo_sockets))
      (monitor_start 1 (SomeipClient_new SomeipConfig_default) ([], [])) s \<and> snd (mo_world s) = [3]"
proof -
  obtain s where s: "mon_reach (someip_code (tracked demo_sockets))
      (monitor_start 1 (SomeipClient_new SomeipConfig_default) ([], [])) s"
    "mo_mutex s = None" "SomeipClient_isConnected (mo_client s)" "sc_socket_fd (mo_client s) = 3"
    by (rule connecting_run)
  from someip_threads_no_leak [OF s(1,2)] s show ?thesis by auto
qed

text \<open>A thread that waits for the mutex while another is inside.\<close>

lemma waiting_run:
  obtains s where "mon_reach (someip_code demo_sockets) (monitor_start 2 demo_someip []) s"
    and "mo_mutex s = Some 0" "mo_threads s ! 1 = Wants Whole LAsk"
proof -
  have "\<exists>s. run_choices (someip_code demo_sockets) [Invokes 0 (Method Reconnect), Steps 0, Invokes 1 IsConnected]
      (monitor_start 2 demo_someip []) = Some s \<and> mo_mutex s = Some 0 \<and> mo_threads s ! 1 = Wants Whole LAsk"
    by (simp add: monitor_start_def moves_def record_event_def eval_nat_numeral someip_code_def)
  with that run_choices_reach [OF mon_refl] show thesis by metis
qed

theorem client_threads_progress_witness:
  "\<exists>s s'. mo_threads s ! 1 = Wants Whole LAsk \<and> mon_step (someip_code demo_sockets) (Steps 0) s = Some s' \<and>
     lock_left someip_rank s' < lock_left someip_rank s"
proof -
  obtain s where s: "mon_reach (someip_code demo_sockets) (monitor_start 2 demo_someip []) s"
    "mo_mutex s = Some 0" "mo_threads s ! 1 = Wants Whole LAsk"
    by (rule waiting_run)
  then have "mo_threads s ! 1 \<noteq> Outside" by simp
  from client_threads_progress [OF s(1) _ this] s(2,3) show ?thesis by auto
qed

text \<open>Two threads at an \<open>MqttClient\<close> whose backend accepts everything.\<close>

definition accepting :: "(unit, unit) backend_ops" where
  "accepting =
     \<lparr>b_connect = (\<lambda>brk cid b w. (True, b, w)), b_disconnect = (\<lambda>b w. (True, b, w)),
      b_publish = (\<lambda>t p q b w. (True, b, w)), b_subscribe = (\<lambda>t q b w. (True, b, w)),
      b_isConnected = (\<lambda>b w. True)\<rparr>"

definition asking :: "mon_choice list" where
  "asking = [Invokes 0 (Method (Call Connect)), Invokes 1 IsConnected, Steps 0, Steps 0, Steps 0, Steps 0,
     Steps 0, Steps 1, Steps 1, Steps 1]"

lemma asking_run:
  obtains s where "mon_reach (mqtt_code accepting) (monitor_start 2 (MqttClient_new () demo_config None) ()) s"
    and "mo_mutex s = None" and "sections (mo_events s) = [(LConnect, True), (LAsk, True)]"
proof -
  have "\<exists>s. run_choices (mqtt_code accepting) asking (monitor_start 2 (MqttClient_new () demo_config None) ()) =
      Some s \<and> mo_mutex s = None \<and> sections (mo_events s) = [(LConnect, True), (LAsk, True)]"
    by (simp add: asking_def monitor_start_def moves_def record_event_def eval_nat_numeral mqtt_code_def
        accepting_def MqttClient_new_def Let_def)
  with that run_choices_reach [OF mon_refl] show thesis by metis
qed

theorem mqtt_calls_linearize_witness:
  "\<exists>s. mon_reach (mqtt_code accepting) (monitor_start 2 (MqttClient_new () demo_config None) ()) s \<and>
     locked_run (mqtt_client_ops accepting) [LConnect, LAsk] (MqttClient_new () demo_config None) () =
       ([True, True], mo_client s, mo_world s)"
proof -
  obtain s where s: "mon_reach (mqtt_code accepting) (monitor_start 2 (MqttClient_new () demo_config None) ()) s"
    "mo_mutex s = None" "sections (mo_events s) = [(LConnect, True), (LAsk, True)]"
    by (rule asking_run)
  from mqtt_calls_linearize [OF s(1,2)] s(1) show ?thesis
    by (intro exI [of _ s]) (simp add: s(3) del: locked_run.simps locked_op.simps)
qed

theorem threads_agree_on_link_witness:
  "\<exists>s. mon_reach (mqtt_code accepting) (monitor_start 2 (MqttClient_new () demo_config None) ()) s \<and>
     sections (mo_events s) = [(LConnect, True), (LAsk, True)] \<and>
     history_ok (MqttClient_isConnected (MqttClient_new () demo_config None)) (sections (mo_events s))"
proof -
  obtain s where s: "mon_reach (mqtt_code accepting) (monitor_start 2 (MqttClient_new () demo_config None) ()) s"
    "mo_mutex s = None" "sections (mo_events s) = [(LConnect, True), (LAsk, True)]"
    by (rule asking_run)
  from threads_agree_on_link [OF s(1)] s(1,3) show ?thesis by blast
qed

end
