(* ===== verification/Telemetry.thy ===== *)
theory Telemetry
  imports Cxx_Format Mqtt_Interface
begin

text \<open>
  \<open>TelemetrySample\<close> and \<open>TelemetryManager\<close>
  (\<open>include/connected_vehicle_platform/telemetry_manager.hpp\<close>,
  \<open>src/TelemetryManager/telemetry_manager.cpp\<close>). The manager holds a shared pointer to an
  \<open>IMqttClient\<close>; pointers are addresses into a store of client objects, so that the service and
  the manager can share a client. \<open>publishSample\<close> takes no lock around its check and its
  publication; \<open>flushQueue\<close> holds the queue's mutex throughout.
\<close>

section \<open>Samples\<close>

definition kDefaultTelemetryValue :: double where
  "kDefaultTelemetryValue = Fin False 0 0"

record TelemetrySample =
  ts_vehicle_id :: string
  ts_timestamp :: string
  ts_speed :: double
  ts_rpm :: double
  ts_battery :: double
  ts_fuel :: double

definition TelemetrySample_serialize :: "TelemetrySample \<Rightarrow> string" where
  "TelemetrySample_serialize s =
     ''{\"vehicle_id\":\"'' @ ts_vehicle_id s @ ''\",\"timestamp\":\"'' @ ts_timestamp s
     @ ''\",\"speed\":'' @ show_double (ts_speed s) @ '',\"rpm\":'' @ show_double (ts_rpm s)
     @ '',\"battery\":'' @ show_double (ts_battery s)
     @ '',\"fuel\":'' @ show_double (ts_fuel s) @ ''}''"

definition kSampleSpeed :: double where
  "kSampleSpeed = Fin False 80 0"

definition kSampleRpm :: double where
  "kSampleRpm = Fin False 2500 0"

definition kSampleBattery :: double where
  "kSampleBattery = Fin False 7093169413108531 (-49)"

definition kSampleFuel :: double where
  "kSampleFuel = Fin False 70 0"

type_synonym 'w wall_clock = "'w \<Rightarrow> tm \<times> 'w"

definition currentTimestamp :: "'w wall_clock \<Rightarrow> 'w \<Rightarrow> string \<times> 'w" where
  "currentTimestamp local_time w =
     (case local_time w of (t, w') \<Rightarrow> (put_time (CHR ''T'') t, w'))"

section \<open>The manager\<close>

type_synonym 'c store = "nat \<Rightarrow> 'c"

record TelemetryManager =
  tl_vehicle_id :: string
  tl_client :: "nat option"
  tl_pending :: "string list"

definition TelemetryManager_new :: "string \<Rightarrow> nat option \<Rightarrow> TelemetryManager" where
  "TelemetryManager_new vid client = \<lparr>tl_vehicle_id = vid, tl_client = client, tl_pending = []\<rparr>"

definition generateSample ::
  "'w wall_clock \<Rightarrow> TelemetryManager \<Rightarrow> 'w \<Rightarrow> TelemetrySample \<times> 'w" where
  "generateSample local_time t w =
     (case currentTimestamp local_time w of (stamp, w') \<Rightarrow>
      (\<lparr>ts_vehicle_id = tl_vehicle_id t, ts_timestamp = stamp, ts_speed = kSampleSpeed,
        ts_rpm = kSampleRpm, ts_battery = kSampleBattery, ts_fuel = kSampleFuel\<rparr>, w'))"

definition TelemetryManager_serialize :: "TelemetryManager \<Rightarrow> TelemetrySample \<Rightarrow> string" where
  "TelemetryManager_serialize t s = TelemetrySample_serialize s"

definition queueMessage :: "string \<Rightarrow> TelemetryManager \<Rightarrow> bool \<times> TelemetryManager" where
  "queueMessage message t = (True, t\<lparr>tl_pending := tl_pending t @ [message]\<rparr>)"

definition publishSample ::
  "('c, 'w) client_ops \<Rightarrow> 'w wall_clock \<Rightarrow> (TelemetryManager \<times> 'c store, 'w, bool) opr" where
  "publishSample M local_time th w =
     (case th of (t, h) \<Rightarrow>
      case generateSample local_time t w of (sample, w1) \<Rightarrow>
      let payload = TelemetryManager_serialize t sample in
      case tl_client t of
        None \<Rightarrow> (case queueMessage payload t of (r, t') \<Rightarrow> (r, (t', h), w1))
      | Some a \<Rightarrow>
          if m_isConnected M (h a)
          then (case m_publish M (telemetry_topic (m_config M (h a))) payload 1 (h a) w1 of
                  (ok, c', w2) \<Rightarrow>
                    if \<not> ok
                    then (case queueMessage payload t of (r, t') \<Rightarrow> (r, (t', h(a := c')), w2))
                    else (True, (t, h(a := c')), w2))
          else (case queueMessage payload t of (r, t') \<Rightarrow> (r, (t', h), w1)))"

fun flush_loop ::
  "('c, 'w) client_ops \<Rightarrow> string list \<Rightarrow> 'c \<Rightarrow> 'w \<Rightarrow> bool \<times> string list \<times> 'c \<times> 'w" where
  "flush_loop M [] c w = (True, [], c, w)"
| "flush_loop M (payload # rest) c w =
     (case m_publish M (telemetry_topic (m_config M c)) payload 1 c w of (ok, c', w') \<Rightarrow>
      if \<not> ok then (False, rest, c', w') else flush_loop M rest c' w')"

definition flushQueue ::
  "('c, 'w) client_ops \<Rightarrow> (TelemetryManager \<times> 'c store, 'w, bool) opr" where
  "flushQueue M th w =
     (case th of (t, h) \<Rightarrow>
      case tl_client t of
        None \<Rightarrow> (False, (t, h), w)
      | Some a \<Rightarrow>
          if \<not> m_isConnected M (h a) then (False, (t, h), w)
          else (case flush_loop M (tl_pending t) (h a) w of (r, rest, c', w') \<Rightarrow>
                (r, (t\<lparr>tl_pending := rest\<rparr>, h(a := c')), w')))"

definition pendingCount :: "TelemetryManager \<Rightarrow> nat" where
  "pendingCount t = length (tl_pending t)"

section \<open>The queue against a reference\<close>

text \<open>
  \<open>deliver\<close> publishes a list of payloads in order and is defined only when every one of them was
  accepted.
\<close>

fun deliver :: "('c, 'w) client_ops \<Rightarrow> string list \<Rightarrow> 'c \<Rightarrow> 'w \<Rightarrow> ('c \<times> 'w) option" where
  "deliver M [] c w = Some (c, w)"
| "deliver M (p # ps) c w =
     (case m_publish M (telemetry_topic (m_config M c)) p 1 c w of (ok, c', w') \<Rightarrow>
      if ok then deliver M ps c' w' else None)"

lemma flush_loop_true:
  "flush_loop M ps c w = (True, rest, c', w') \<longleftrightarrow> deliver M ps c w = Some (c', w') \<and> rest = []"
  by (induction ps arbitrary: c w) (auto split: prod.splits)

lemma flush_loop_false:
  "flush_loop M ps c w = (False, rest, c', w') \<Longrightarrow>
     \<exists>sent m c1 w1. ps = sent @ m # rest \<and> deliver M sent c w = Some (c1, w1) \<and>
       m_publish M (telemetry_topic (m_config M c1)) m 1 c1 w1 = (False, c', w')"
proof (induction ps arbitrary: c w)
  case Nil
  then show ?case by simp
next
  case (Cons p ps)
  obtain ok c1 w1 where p: "m_publish M (telemetry_topic (m_config M c)) p 1 c w = (ok, c1, w1)"
    using prod_cases3 by blast
  show ?case
  proof (cases ok)
    case True
    with Cons.prems p have "flush_loop M ps c1 w1 = (False, rest, c', w')" by simp
    from Cons.IH [OF this] obtain sent m c2 w2 where
      "ps = sent @ m # rest" "deliver M sent c1 w1 = Some (c2, w2)"
      "m_publish M (telemetry_topic (m_config M c2)) m 1 c2 w2 = (False, c', w')" by blast
    with True p show ?thesis by (intro exI [of _ "p # sent"] exI [of _ m]) auto
  next
    case False
    with Cons.prems p show ?thesis
      by (intro exI [of _ "[]"] exI [of _ p] exI [of _ c] exI [of _ w]) simp
  qed
qed

context mqtt_client
begin

lemma flush_loop_link:
  "inv c \<Longrightarrow> flush_loop M ps c w = (r, rest, c', w') \<Longrightarrow>
     m_isConnected M c' = m_isConnected M c \<and> inv c' \<and> m_config M c' = m_config M c"
proof (induction ps arbitrary: c w)
  case Nil
  then show ?case by simp
next
  case (Cons p ps)
  obtain ok c1 w1 where p: "m_publish M (telemetry_topic (m_config M c)) p 1 c w = (ok, c1, w1)"
    using prod_cases3 by blast
  note c1 = client_publish [OF Cons.prems(1) p]
  from Cons.prems(2) p have "(ok \<and> flush_loop M ps c1 w1 = (r, rest, c', w')) \<or> (\<not> ok \<and> c' = c1)"
    by (cases ok) auto
  then show ?case using Cons.IH [of c1 w1] c1 by auto
qed

lemma publishSample_store:
  assumes "\<forall>a. inv (h a)" and "publishSample M local_time (t, h) w = (r, (t', h'), w')"
  shows "\<forall>a. inv (h' a) \<and> m_isConnected M (h' a) = m_isConnected M (h a)
     \<and> m_config M (h' a) = m_config M (h a)"
proof (cases "tl_client t")
  case None
  with assms show ?thesis
    by (auto simp: publishSample_def queueMessage_def Let_def split: prod.splits)
next
  case (Some a)
  show ?thesis
  proof (cases "m_isConnected M (h a)")
    case False
    with assms Some show ?thesis
      by (auto simp: publishSample_def queueMessage_def Let_def split: prod.splits)
  next
    case True
    obtain sample w1 where g: "generateSample local_time t w = (sample, w1)" by fastforce
    obtain ok c' w2 where p: "m_publish M (telemetry_topic (m_config M (h a)))
        (TelemetryManager_serialize t sample) 1 (h a) w1 = (ok, c', w2)"
      using prod_cases3 by blast
    have "h' = h(a := c')"
      using assms(2) Some True g p
      by (auto simp: publishSample_def queueMessage_def Let_def split: if_splits)
    with client_publish [OF _ p] assms(1) show ?thesis by simp
  qed
qed

end

section \<open>Facts on single calls\<close>

lemma publishSample_cases:
  assumes "publishSample M local_time (t, h) w = (r, (t', h'), w')"
    and "generateSample local_time t w = (sample, w1)"
    and "payload = TelemetrySample_serialize sample"
  shows "r \<and> ((\<exists>a c'. tl_client t = Some a \<and> m_isConnected M (h a) \<and>
        m_publish M (telemetry_topic (m_config M (h a))) payload 1 (h a) w1 = (True, c', w') \<and>
        t' = t \<and> h' = h(a := c')) \<or>
      (t' = t\<lparr>tl_pending := tl_pending t @ [payload]\<rparr> \<and>
       (\<forall>a. tl_client t = Some a \<longrightarrow> m_isConnected M (h a) \<longrightarrow>
         \<not> res (m_publish M (telemetry_topic (m_config M (h a))) payload 1 (h a) w1))))"
  using assms
  by (auto simp: publishSample_def queueMessage_def TelemetryManager_serialize_def res_def Let_def
      split: option.splits if_splits prod.splits)

lemma publishSample_pending:
  "publishSample M local_time (t, h) w = (r, (t', h'), w') \<Longrightarrow>
     r \<and> tl_client t' = tl_client t \<and> tl_vehicle_id t' = tl_vehicle_id t \<and>
     (\<exists>ms. tl_pending t' = tl_pending t @ ms \<and> length ms \<le> 1)"
  by (auto simp: publishSample_def queueMessage_def Let_def
      split: option.splits if_splits prod.splits)

lemma show_sample_values:
  "show_double kSampleSpeed = ''80''" "show_double kSampleRpm = ''2500''"
  "show_double kSampleBattery = ''12.6''" "show_double kSampleFuel = ''70''"
  by (simp_all add: kSampleSpeed_def kSampleRpm_def kSampleBattery_def kSampleFuel_def
      double_defs exp_up_step exp_up_stop show_nat.simps)

section \<open>Properties\<close>

text \<open>The payload the manager publishes is this JSON object, character by character: the vehicle
  identifier, the local time of the sample and the four fixed readings as the stream prints
  them.\<close>

theorem generated_payload:
  assumes "local_time w = (now, w')"
  shows "TelemetryManager_serialize t (fst (generateSample local_time t w)) =
    ''{\"vehicle_id\":\"'' @ tl_vehicle_id t @ ''\",\"timestamp\":\"'' @ put_time (CHR ''T'') now
    @ ''\",\"speed\":80,\"rpm\":2500,\"battery\":12.6,\"fuel\":70}''"
  using assms
  by (simp add: generateSample_def currentTimestamp_def TelemetryManager_serialize_def
      TelemetrySample_serialize_def show_sample_values)

definition demo_now :: tm where
  "demo_now = \<lparr>tm_year = 125, tm_mon = 0, tm_mday = 2, tm_hour = 3, tm_min = 4, tm_sec = 5\<rparr>"

definition demo_wall :: "'w wall_clock" where
  "demo_wall w = (demo_now, w)"

theorem generated_payload_witness:
  "TelemetryManager_serialize (TelemetryManager_new ''ECU_001'' None)
     (fst (generateSample demo_wall (TelemetryManager_new ''ECU_001'' None) ())) =
   ''{\"vehicle_id\":\"ECU_001\",\"timestamp\":\"2025-01-02T03:04:05\",\"speed\":80,\"rpm\":2500,\"battery\":12.6,\"fuel\":70}''"
  using generated_payload [of demo_wall "()" demo_now "()" "TelemetryManager_new ''ECU_001'' None"]
  by (simp add: demo_wall_def demo_now_def TelemetryManager_new_def put_time_def show_int_def
      pad2_def show_nat.simps)

text \<open>Reading the first two fields of a payload back.\<close>

definition read_ids :: "string \<Rightarrow> string \<times> string" where
  "read_ids s =
     (let r = drop 15 s; v = takeWhile (\<lambda>c. c \<noteq> CHR 0x22) r; q = drop (length v + 15) r
      in (v, takeWhile (\<lambda>c. c \<noteq> CHR 0x22) q))"

text \<open>When neither the vehicle identifier nor the time stamp contains a quotation mark, both are
  recovered from the serialised sample, so samples of different vehicles or times never serialise
  to the same text.\<close>

theorem serialize_ids_roundtrip:
  assumes "CHR 0x22 \<notin> set (ts_vehicle_id s)" and "CHR 0x22 \<notin> set (ts_timestamp s)"
  shows "read_ids (TelemetrySample_serialize s) = (ts_vehicle_id s, ts_timestamp s)"
proof -
  let ?tail = "'',\"speed\":'' @ show_double (ts_speed s) @ '',\"rpm\":'' @ show_double (ts_rpm s)
     @ '',\"battery\":'' @ show_double (ts_battery s)
     @ '',\"fuel\":'' @ show_double (ts_fuel s) @ ''}''"
  let ?mid = "'',\"timestamp\":\"'' @ ts_timestamp s @ CHR 0x22 # ?tail"
  have v: "takeWhile (\<lambda>c. c \<noteq> CHR 0x22) (ts_vehicle_id s @ CHR 0x22 # ?mid) = ts_vehicle_id s"
    using assms(1) by (intro takeWhile_append_stop) auto
  have t: "takeWhile (\<lambda>c. c \<noteq> CHR 0x22) (ts_timestamp s @ CHR 0x22 # ?tail) = ts_timestamp s"
    using assms(2) by (intro takeWhile_append_stop) auto
  have "drop 15 (TelemetrySample_serialize s) = ts_vehicle_id s @ CHR 0x22 # ?mid"
    by (simp add: TelemetrySample_serialize_def)
  moreover have "drop (length (ts_vehicle_id s) + 15) (ts_vehicle_id s @ CHR 0x22 # ?mid) =
      ts_timestamp s @ CHR 0x22 # ?tail" by simp
  ultimately show ?thesis
    unfolding read_ids_def Let_def using v t by (simp only:)
qed

definition plain_sample :: "string \<Rightarrow> string \<Rightarrow> TelemetrySample" where
  "plain_sample vid stamp =
     \<lparr>ts_vehicle_id = vid, ts_timestamp = stamp, ts_speed = kDefaultTelemetryValue,
      ts_rpm = kDefaultTelemetryValue, ts_battery = kDefaultTelemetryValue,
      ts_fuel = kDefaultTelemetryValue\<rparr>"

theorem serialize_ids_roundtrip_witness:
  "read_ids (TelemetrySample_serialize (plain_sample ''ECU_001'' ''noon'')) = (''ECU_001'', ''noon'')"
  using serialize_ids_roundtrip [of "plain_sample ''ECU_001'' ''noon''"] by (simp add: plain_sample_def)

text \<open>Quotation marks are not escaped: two samples with different vehicle identifiers and time
  stamps serialise to the same text, one of them by writing a second field into its
  identifier.\<close>

theorem serialize_not_injective:
  "\<exists>a b. ts_vehicle_id a \<noteq> ts_vehicle_id b \<and>
    TelemetrySample_serialize a = TelemetrySample_serialize b"
  by (rule exI [of _ "plain_sample ''A'' ''1\",\"timestamp\":\"2''"],
      rule exI [of _ "plain_sample ''A\",\"timestamp\":\"1'' ''2''"])
     (simp add: plain_sample_def TelemetrySample_serialize_def)

text \<open>\<open>publishSample\<close> never reports failure and never loses a sample: either the client was
  connected and accepted the payload, and the queue is unchanged, or the payload was put at the
  end of the queue.\<close>

theorem publishSample_never_loses:
  assumes "publishSample M local_time (t, h) w = (r, (t', h'), w')"
    and "generateSample local_time t w = (sample, w1)"
    and "payload = TelemetrySample_serialize sample"
  shows "r \<and> ((\<exists>a c'. tl_client t = Some a \<and> m_isConnected M (h a) \<and>
        m_publish M (telemetry_topic (m_config M (h a))) payload 1 (h a) w1 = (True, c', w') \<and>
        t' = t \<and> h' = h(a := c')) \<or>
      t' = t\<lparr>tl_pending := tl_pending t @ [payload]\<rparr>)"
  using publishSample_cases [OF assms] by blast

text \<open>A client that is a connection flag and a list of scripted publication results; the world is the
  list of payloads a broker accepted.\<close>

definition scripted_ops :: "(bool \<times> bool list, string list) client_ops" where
  "scripted_ops =
     \<lparr>m_connect = (\<lambda>c w. (True, (True, snd c), w)), m_disconnect = (\<lambda>c w. (True, (False, snd c), w)),
      m_reconnect = (\<lambda>c w. (True, (True, snd c), w)),
      m_publish = (\<lambda>t p q c w. case snd c of
          [] \<Rightarrow> (fst c, c, if fst c then w @ [p] else w)
        | r # rs \<Rightarrow> (r \<and> fst c, (fst c, rs), if r \<and> fst c then w @ [p] else w)),
      m_subscribe = (\<lambda>t q c w. (fst c, c, w)), m_isConnected = fst,
      m_config = (\<lambda>c. \<lparr>broker = [], client_id = [], telemetry_topic = ''t'', command_topic = [],
        qos = 1\<rparr>)\<rparr>"

lemma scripted_ops_sel [simp]:
  "m_isConnected scripted_ops = fst"
  "m_publish scripted_ops t p q c w = (case snd c of
          [] \<Rightarrow> (fst c, c, if fst c then w @ [p] else w)
        | r # rs \<Rightarrow> (r \<and> fst c, (fst c, rs), if r \<and> fst c then w @ [p] else w))"
  by (simp_all add: scripted_ops_def)

theorem publishSample_never_loses_witness:
  "\<exists>t' h' p. publishSample scripted_ops demo_wall (TelemetryManager_new ''V'' (Some 0), \<lambda>_. (True, [False])) []
     = (True, (t', h'), []) \<and> tl_pending t' = [p]"
proof -
  let ?t = "TelemetryManager_new ''V'' (Some 0)"
  obtain r t' h' w' where p: "publishSample scripted_ops demo_wall (?t, \<lambda>_. (True, [False])) [] = (r, (t', h'), w')"
    by (metis prod.collapse)
  obtain sample where g: "generateSample demo_wall ?t [] = (sample, [] :: string list)"
    by (simp add: generateSample_def currentTimestamp_def demo_wall_def)
  from publishSample_never_loses [OF p g refl] p g show ?thesis
    by (auto simp: publishSample_def queueMessage_def TelemetryManager_new_def Let_def)
qed

fun publishSamples ::
  "('c, 'w) client_ops \<Rightarrow> 'w wall_clock \<Rightarrow> nat \<Rightarrow> (TelemetryManager \<times> 'c store, 'w, bool list) opr" where
  "publishSamples M local_time 0 th w = ([], th, w)"
| "publishSamples M local_time (Suc n) th w =
     (case publishSample M local_time th w of (r, th1, w1) \<Rightarrow>
      case publishSamples M local_time n th1 w1 of (rs, th2, w2) \<Rightarrow> (r # rs, th2, w2))"

fun stamped_payloads :: "'w wall_clock \<Rightarrow> TelemetryManager \<Rightarrow> nat \<Rightarrow> 'w \<Rightarrow> string list" where
  "stamped_payloads local_time t 0 w = []"
| "stamped_payloads local_time t (Suc n) w =
     (case generateSample local_time t w of (sample, w1) \<Rightarrow>
      TelemetrySample_serialize sample # stamped_payloads local_time t n w1)"

lemma generateSample_pending [simp]:
  "generateSample local_time (t\<lparr>tl_pending := q\<rparr>) w = generateSample local_time t w"
  by (simp add: generateSample_def)

lemma stamped_payloads_pending [simp]:
  "stamped_payloads local_time (t\<lparr>tl_pending := q\<rparr>) n w = stamped_payloads local_time t n w"
  by (induction n arbitrary: w) simp_all

lemma length_stamped_payloads [simp]: "length (stamped_payloads local_time t n w) = n"
  by (induction n arbitrary: w) (simp_all split: prod.splits)

text \<open>While the client is offline every sample is queued: \<open>n\<close> calls all report success, send
  nothing, leave every client alone and append \<open>n\<close> payloads, oldest first, to a queue with no
  bound.\<close>

theorem publishSample_offline_queues:
  assumes "\<forall>a. tl_client t = Some a \<longrightarrow> \<not> m_isConnected M (h a)"
    and "publishSamples M local_time n (t, h) w = (rs, (t', h'), w')"
  shows "rs = replicate n True \<and> h' = h \<and>
    tl_pending t' = tl_pending t @ stamped_payloads local_time t n w \<and>
    pendingCount t' = pendingCount t + n"
  using assms
proof (induction n arbitrary: t w rs)
  case 0
  then show ?case by simp
next
  case (Suc n)
  obtain sample w1 where g: "generateSample local_time t w = (sample, w1)" by fastforce
  let ?t1 = "t\<lparr>tl_pending := tl_pending t @ [TelemetrySample_serialize sample]\<rparr>"
  have p: "publishSample M local_time (t, h) w = (True, (?t1, h), w1)"
    using Suc.prems(1) g
    by (auto simp: publishSample_def queueMessage_def TelemetryManager_serialize_def Let_def
        split: option.splits)
  obtain rs' where ps: "publishSamples M local_time n (?t1, h) w1 = (rs', (t', h'), w')"
    and rs: "rs = True # rs'" using Suc.prems(2) p by (auto split: prod.splits)
  from Suc.IH [OF _ ps] Suc.prems(1) g rs show ?case
    by (simp add: pendingCount_def)
qed

theorem publishSample_offline_queues_witness:
  "\<exists>t' h' w'. publishSamples scripted_ops demo_wall 3 (TelemetryManager_new ''V'' (Some 0), \<lambda>_. (False, [])) []
     = ([True, True, True], (t', h'), w') \<and> pendingCount t' = 3"
proof -
  let ?t = "TelemetryManager_new ''V'' (Some 0)"
  obtain rs t' h' w' where p: "publishSamples scripted_ops demo_wall 3 (?t, \<lambda>_. (False, [])) [] = (rs, (t', h'), w')"
    by (metis prod.collapse)
  have "\<forall>a. tl_client ?t = Some a \<longrightarrow> \<not> m_isConnected scripted_ops ((\<lambda>_. (False, [])) a)" by simp
  from publishSample_offline_queues [OF this p]
  have "rs = replicate 3 True" and "pendingCount t' = pendingCount ?t + 3" by blast+
  moreover have "replicate 3 True = [True, True, True]" by (simp add: numeral_3_eq_3)
  moreover have "pendingCount ?t = 0" by (simp add: pendingCount_def TelemetryManager_new_def)
  ultimately show ?thesis using p by auto
qed

text \<open>C36: \<open>flushQueue\<close> ends for every queue and sends in queue order. It reports success exactly when
  the client was connected and accepted everything, leaving the queue empty; when a publication
  fails it has delivered the messages before it, keeps the messages after it, and has dropped the
  one that failed from the queue.\<close>

theorem flushQueue_outcome:
  assumes "flushQueue M (t, h) w = (r, (t', h'), w')" and "tl_client t = Some a"
    and "m_isConnected M (h a)"
  shows "if r then tl_pending t' = [] \<and> deliver M (tl_pending t) (h a) w = Some (h' a, w')
    else \<exists>sent m c1 w1. tl_pending t = sent @ m # tl_pending t' \<and>
      deliver M sent (h a) w = Some (c1, w1) \<and>
      m_publish M (telemetry_topic (m_config M c1)) m 1 c1 w1 = (False, h' a, w')"
proof -
  obtain rest c' where l: "flush_loop M (tl_pending t) (h a) w = (r, rest, c', w')"
    and e: "tl_pending t' = rest" "h' a = c'"
    using assms by (auto simp: flushQueue_def split: prod.splits)
  show ?thesis
  proof (cases r)
    case True
    with l e flush_loop_true [of M "tl_pending t" "h a" w rest c' w'] show ?thesis by simp
  next
    case False
    with l e flush_loop_false [of M "tl_pending t" "h a" w rest c' w'] show ?thesis by simp
  qed
qed

theorem flushQueue_outcome_witness:
  "\<exists>t' h'. flushQueue scripted_ops
     ((TelemetryManager_new ''V'' (Some 0))\<lparr>tl_pending := [''a'', ''b'', ''c'']\<rparr>, \<lambda>_. (True, [True, False])) []
     = (False, (t', h'), [''a'']) \<and> tl_pending t' = [''c'']"
proof -
  let ?t = "(TelemetryManager_new ''V'' (Some 0))\<lparr>tl_pending := [''a'', ''b'', ''c'']\<rparr>"
  obtain r t' h' w' where p: "flushQueue scripted_ops (?t, \<lambda>_. (True, [True, False])) [] = (r, (t', h'), w')"
    by (metis prod.collapse)
  from p have "r = False" "w' = [''a'']" "tl_pending t' = [''c'']"
    by (auto simp: flushQueue_def TelemetryManager_new_def)
  with flushQueue_outcome [OF p, of 0] p show ?thesis by (simp add: TelemetryManager_new_def)
qed

text \<open>A failed publication during \<open>flushQueue\<close> loses its message for good: the message is
  neither accepted by the broker nor left in the queue.\<close>

theorem flushQueue_loses_message:
  "\<exists>h' t'. flushQueue scripted_ops
      ((TelemetryManager_new ''V'' (Some 0))\<lparr>tl_pending := [''m'']\<rparr>, \<lambda>_. (True, [False])) []
    = (False, (t', h'), []) \<and> tl_pending t' = []"
  by (simp add: flushQueue_def TelemetryManager_new_def)

end
