(* ===== verification/Json_Text.thy ===== *)
theory Json_Text
  imports Telemetry
begin

text \<open>
  Is what \<open>TelemetrySample::serialize\<close> writes JSON? A reader for flat JSON objects, written after
  the grammar of RFC 8259 without any knowledge of the serialiser: strings without escapes, numbers,
  no white space. It decides exactly which samples are serialised to JSON text with their fields as
  members. The numbers rest on what the stream prints for a double: at most six significant digits,
  in one of two notations.
\<close>

section \<open>Six significant digits\<close>

lemma exp_down_step: "0 < n \<Longrightarrow> n < d \<Longrightarrow> exp_down n d = exp_down (10 * n) d - 1"
  by (subst exp_down.simps) simp

lemma exp_down_stop: "d \<le> n \<Longrightarrow> exp_down n d = 0"
  by (subst exp_down.simps) simp

lemma exp_down_bounds:
  "0 < n \<Longrightarrow> n < d \<Longrightarrow> exp_down n d < 0 \<and> d \<le> n * 10 ^ nat (- exp_down n d)
     \<and> n * 10 ^ nat (- exp_down n d) < 10 * d"
proof (induction n d rule: exp_down.induct)
  case (1 n d)
  show ?case
  proof (cases "10 * n < d")
    case True
    with 1 have ih: "exp_down (10 * n) d < 0 \<and> d \<le> 10 * n * 10 ^ nat (- exp_down (10 * n) d)
        \<and> 10 * n * 10 ^ nat (- exp_down (10 * n) d) < 10 * d" by simp
    have "nat (- exp_down n d) = Suc (nat (- exp_down (10 * n) d))"
      using ih "1.prems" by (simp add: exp_down_step Suc_nat_eq_nat_zadd1)
    with ih "1.prems" show ?thesis by (simp add: exp_down_step mult_ac)
  next
    case False
    with "1.prems" show ?thesis by (simp add: exp_down_step exp_down_stop)
  qed
qed

text \<open>The quotient that is rounded has six digits.\<close>

lemma scaled_bounds:
  assumes "0 < n" and "0 < d"
  shows "100000 * (d * 10 ^ nat (dec_exp n d - 5)) \<le> n * 10 ^ nat (5 - dec_exp n d) \<and>
    n * 10 ^ nat (5 - dec_exp n d) < 1000000 * (d * 10 ^ nat (dec_exp n d - 5))"
proof (cases "n < d")
  case True
  from exp_down_bounds [OF assms(1) True] have b: "dec_exp n d < 0"
    "d \<le> n * 10 ^ nat (- dec_exp n d)" "n * 10 ^ nat (- dec_exp n d) < 10 * d"
    using True by (simp_all add: dec_exp_def)
  then have "nat (5 - dec_exp n d) = nat (- dec_exp n d) + 5" "nat (dec_exp n d - 5) = 0" by simp_all
  with b(2,3) show ?thesis by (simp add: power_add)
next
  case False
  from exp_up_bounds [of d n] have b: "0 \<le> dec_exp n d"
    "d * 10 ^ nat (dec_exp n d) \<le> n" "n < 10 * d * 10 ^ nat (dec_exp n d)"
    using False assms(2) by (simp_all add: dec_exp_def)
  show ?thesis
  proof (cases "dec_exp n d \<le> 5")
    case True
    have p: "(10::nat) ^ nat (dec_exp n d) * 10 ^ nat (5 - dec_exp n d) = 10 ^ 5"
      using True b(1) by (simp add: power_add [symmetric] nat_add_distrib [symmetric])
    have "d * 10 ^ nat (dec_exp n d) * 10 ^ nat (5 - dec_exp n d) \<le> n * 10 ^ nat (5 - dec_exp n d)"
      "n * 10 ^ nat (5 - dec_exp n d) < 10 * d * 10 ^ nat (dec_exp n d) * 10 ^ nat (5 - dec_exp n d)"
      using b(2,3) by simp_all
    with p True show ?thesis by (simp add: mult.assoc)
  next
    case False
    then have "nat (dec_exp n d) = nat (dec_exp n d - 5) + 5" by simp
    then have "(10::nat) ^ nat (dec_exp n d) = 10 ^ nat (dec_exp n d - 5) * 10 ^ 5"
      by (metis power_add)
    with b(2,3) False show ?thesis by (simp add: mult_ac)
  qed
qed

lemma round_half_even_bounds:
  assumes "0 < b" and "k * b \<le> a" and "a < l * b"
  shows "k \<le> round_half_even a b \<and> round_half_even a b \<le> l"
proof -
  have "k \<le> a div b" using assms(1,2) by (simp add: less_eq_div_iff_mult_less_eq)
  moreover have "a div b < l" using assms(1,3) by (simp add: less_mult_imp_div_less)
  ultimately show ?thesis by (auto simp: round_half_even_def Let_def)
qed

lemma sig6_six_digits:
  assumes "0 < n" and "0 < d" and "sig6 n d = (s, x)"
  shows "100000 \<le> s \<and> s < 1000000"
proof -
  let ?s = "round_half_even (n * 10 ^ nat (5 - dec_exp n d)) (d * 10 ^ nat (dec_exp n d - 5))"
  have "100000 \<le> ?s \<and> ?s \<le> 1000000"
    using scaled_bounds [OF assms(1,2)] assms(2) by (intro round_half_even_bounds) auto
  with assms(3) show ?thesis by (auto simp: sig6_def Let_def split: if_splits)
qed

text \<open>The first digit of a positive number is not 0.\<close>

lemma hd_show_nat: "0 < n \<Longrightarrow> hd (show_nat n) \<noteq> CHR ''0''"
proof (induction n rule: show_nat.induct)
  case (1 n)
  show ?case
  proof (cases "n < 10")
    case True
    then have "digit_val (char_of (48 + n)) = n" by (rule digit_val_char_of)
    moreover have "c \<noteq> CHR ''0''" if "digit_val c = n" for c
      using that "1.prems" by (auto simp: digit_val_def)
    ultimately have "char_of (48 + n) \<noteq> CHR ''0''" by blast
    with True show ?thesis by (simp add: show_nat.simps [of n])
  next
    case False
    with 1 show ?thesis by (simp add: show_nat.simps [of n])
  qed
qed

lemma show_nat_all_digits: "list_all is_digit (show_nat n)"
  by (auto simp: list_all_iff dest: show_nat_digits)


section \<open>JSON numbers\<close>

text \<open>An integer part without leading zeros, a fraction and an exponent, the last two optional.\<close>

definition json_int :: "string \<Rightarrow> bool" where
  "json_int s \<longleftrightarrow> s \<noteq> [] \<and> list_all is_digit s \<and> (hd s = CHR ''0'' \<longrightarrow> tl s = [])"

definition json_frac :: "string \<Rightarrow> bool" where
  "json_frac s \<longleftrightarrow> s = [] \<or> (hd s = CHR ''.'' \<and> tl s \<noteq> [] \<and> list_all is_digit (tl s))"

definition json_exp :: "string \<Rightarrow> bool" where
  "json_exp s \<longleftrightarrow> s = [] \<or>
     (hd s \<in> {CHR ''e'', CHR ''E''} \<and>
      (let t = tl s; u = (if t \<noteq> [] \<and> hd t \<in> {CHR ''+'', CHR ''-''} then tl t else t)
       in u \<noteq> [] \<and> list_all is_digit u))"

definition drop_minus :: "string \<Rightarrow> string" where
  "drop_minus s = (if s \<noteq> [] \<and> hd s = CHR ''-'' then tl s else s)"

definition json_number :: "string \<Rightarrow> bool" where
  "json_number s \<longleftrightarrow>
     (let t = drop_minus s; r = dropWhile is_digit t
      in json_int (takeWhile is_digit t) \<and>
         json_frac (takeWhile (\<lambda>c. c \<noteq> CHR ''e'' \<and> c \<noteq> CHR ''E'') r) \<and>
         json_exp (dropWhile (\<lambda>c. c \<noteq> CHR ''e'' \<and> c \<noteq> CHR ''E'') r))"

lemma not_digits [simp]:
  "\<not> is_digit (CHR ''.'')" "\<not> is_digit (CHR ''e'')" "\<not> is_digit (CHR ''E'')" "\<not> is_digit (CHR ''-'')"
  "\<not> is_digit (CHR ''+'')" "\<not> is_digit (CHR '','')" "\<not> is_digit (CHR ''}'')" "\<not> is_digit (CHR ''i'')"
  "\<not> is_digit (CHR ''n'')" "is_digit (CHR ''0'')"
  by (simp_all add: is_digit_def)

lemma split_takeWhile:
  assumes "\<forall>c \<in> set i. P c" and "r = [] \<or> \<not> P (hd r)"
  shows "takeWhile P (i @ r) = i" "dropWhile P (i @ r) = r"
  using assms by (cases r; induction i; simp)+

lemma json_number_parts:
  assumes "json_int i" and "json_frac f" and "json_exp e"
  shows "json_number (sign_str neg @ i @ f @ e)"
proof -
  have i: "i \<noteq> []" "list_all is_digit i" "hd i \<noteq> CHR ''-''"
    using assms(1) by (cases i; auto simp: json_int_def)+
  have d: "drop_minus (sign_str neg @ i @ f @ e) = i @ f @ e"
    using i(1,3) by (simp add: drop_minus_def sign_str_def)
  have fe: "f @ e = [] \<or> \<not> is_digit (hd (f @ e))"
    using assms(2,3) by (cases f; cases e) (auto simp: json_frac_def json_exp_def)
  have f: "\<forall>c \<in> set f. c \<noteq> CHR ''e'' \<and> c \<noteq> CHR ''E''"
    using assms(2) by (cases f) (auto simp: json_frac_def list_all_iff)
  have e: "e = [] \<or> \<not> (hd e \<noteq> CHR ''e'' \<and> hd e \<noteq> CHR ''E'')"
    using assms(3) by (auto simp: json_exp_def)
  have "takeWhile (\<lambda>c. c \<noteq> CHR ''e'' \<and> c \<noteq> CHR ''E'') (f @ e) = f"
    "dropWhile (\<lambda>c. c \<noteq> CHR ''e'' \<and> c \<noteq> CHR ''E'') (f @ e) = e"
    using split_takeWhile [OF f e] by simp_all
  moreover have "takeWhile is_digit (i @ f @ e) = i" "dropWhile is_digit (i @ f @ e) = f @ e"
    using split_takeWhile [of i is_digit "f @ e"] fe i(2) by (simp_all add: list_all_iff)
  ultimately show ?thesis
    unfolding json_number_def Let_def d using assms by simp
qed

section \<open>What the stream prints is a JSON number exactly when it is finite\<close>

fun is_finite :: "double \<Rightarrow> bool" where
  "is_finite (Fin neg m e) = True"
| "is_finite (Inf neg) = False"
| "is_finite (NaN neg) = False"

lemma strip_zeros_digits: "list_all is_digit f \<Longrightarrow> list_all is_digit (strip_zeros f)"
  by (auto simp: strip_zeros_def list_all_iff dest: set_dropWhileD)

text \<open>The fraction with its point, or nothing.\<close>

definition frac_text :: "string \<Rightarrow> string" where
  "frac_text f = (if strip_zeros f = [] then [] else CHR ''.'' # strip_zeros f)"

lemma with_frac_text: "with_frac i f = i @ frac_text f"
  by (simp add: with_frac_def frac_text_def)

lemma json_frac_text: "list_all is_digit f \<Longrightarrow> json_frac (frac_text f)"
  using strip_zeros_digits [of f] by (simp add: frac_text_def json_frac_def)

lemma pad2_digits: "list_all is_digit (pad2 n)" "pad2 n \<noteq> []"
  by (simp_all add: pad2_def show_nat_all_digits)

lemma json_exp_pad2: "json_exp (CHR ''e'' # (if x < (0::int) then ''-'' else ''+'') @ pad2 n)"
  using pad2_digits [of n] by (simp add: json_exp_def Let_def)

lemma number_partsI:
  "t = i @ frac_text f @ e \<Longrightarrow> json_int i \<Longrightarrow> list_all is_digit f \<Longrightarrow> json_exp e \<Longrightarrow>
     \<exists>i f e. t = i @ frac_text f @ e \<and> json_int i \<and> list_all is_digit f \<and> json_exp e"
  by blast

lemma json_parts_simple: "json_int ''0''" "json_exp []"
  by (simp_all add: json_int_def json_exp_def)

lemma show_magnitude_parts:
  assumes "0 < d"
  shows "\<exists>i f e. show_magnitude n d = i @ frac_text f @ e \<and> json_int i \<and> list_all is_digit f \<and> json_exp e"
proof (cases "n = 0")
  case True
  then show ?thesis
    by (intro number_partsI [of _ "''0''" "[]" "[]"])
      (simp_all add: show_magnitude_def frac_text_def strip_zeros_def json_parts_simple)
next
  case False
  obtain s x where s: "sig6 n d = (s, x)" by (cases "sig6 n d")
  with sig6_six_digits [of n d s x] False assms have b: "100000 \<le> s" "s < 1000000" by simp_all
  let ?ds = "show_nat s"
  have ds: "list_all is_digit ?ds" "hd ?ds \<noteq> CHR ''0''" "?ds \<noteq> []"
    using b(1) by (simp_all add: show_nat_all_digits hd_show_nat)
  have parts: "list_all is_digit (take k ?ds)" "list_all is_digit (drop k ?ds)" for k
    using ds(1) by (auto simp: list_all_iff dest: in_set_takeD in_set_dropD)
  have int: "json_int (take (Suc k) ?ds)" for k
    using ds(2,3) parts(1) [of "Suc k"] by (cases ?ds) (simp_all add: json_int_def)
  have rep: "list_all is_digit (replicate k (CHR ''0'') @ ?ds)" for k
    using ds(1) by (induction k) simp_all
  consider "-4 \<le> x" "x < 0" | "0 \<le> x" "x < 6" | "x < -4 \<or> 6 \<le> x" by linarith
  then show ?thesis
  proof cases
    case 1
    then have "show_magnitude n d = ''0'' @ frac_text (replicate (nat (- x) - 1) (CHR ''0'') @ ?ds) @ []"
      using False s by (simp add: show_magnitude_def show_fixed_def with_frac_text)
    from number_partsI [OF this json_parts_simple(1) rep json_parts_simple(2)] show ?thesis .
  next
    case 2
    then have "show_magnitude n d = take (Suc (nat x)) ?ds @ frac_text (drop (Suc (nat x)) ?ds) @ []"
      using False s by (simp add: show_magnitude_def show_fixed_def with_frac_text)
    from number_partsI [OF this int parts(2) json_parts_simple(2)] show ?thesis .
  next
    case 3
    then have "show_magnitude n d = take (Suc 0) ?ds @ frac_text (drop (Suc 0) ?ds) @
        (CHR ''e'' # (if x < 0 then ''-'' else ''+'') @ pad2 (nat \<bar>x\<bar>))"
      using False s by (auto simp: show_magnitude_def show_sci_def with_frac_text)
    from number_partsI [OF this int parts(2) json_exp_pad2] show ?thesis .
  qed
qed

lemma json_number_double: "json_number (show_double x) \<longleftrightarrow> is_finite x"
proof (cases x)
  case (Fin neg m e)
  from show_magnitude_parts [of "double_den e" "double_num m e"] obtain i f ex where
    "show_magnitude (double_num m e) (double_den e) = i @ frac_text f @ ex" "json_int i"
    "list_all is_digit f" "json_exp ex" by (auto simp: double_den_def)
  with Fin show ?thesis by (simp add: json_number_parts json_frac_text)
next
  case (Inf neg)
  then show ?thesis
    by (cases neg) (simp_all add: json_number_def drop_minus_def sign_str_def json_int_def Let_def)
next
  case (NaN neg)
  then show ?thesis
    by (cases neg) (simp_all add: json_number_def drop_minus_def sign_str_def json_int_def Let_def)
qed

text \<open>No printed double contains a comma or a brace.\<close>

lemma json_parts_chars:
  assumes "json_int i" and "list_all is_digit f" and "json_exp e" and "c \<in> set (sign_str neg @ i @ frac_text f @ e)"
  shows "c \<noteq> CHR '','' \<and> c \<noteq> CHR ''}''"
proof -
  have "json_frac (frac_text f)" by (rule json_frac_text [OF assms(2)])
  have "c \<noteq> CHR '','' \<and> c \<noteq> CHR ''}''" if "list_all is_digit s" "c \<in> set s" for s
    using that by (auto simp: list_all_iff)
  moreover have "c \<in> set e \<Longrightarrow> c \<in> {CHR ''e'', CHR ''E'', CHR ''+'', CHR ''-''} \<or> is_digit c"
    using assms(3) by (cases e; cases "tl e") (auto simp: json_exp_def list_all_iff Let_def split: if_splits)
  ultimately show ?thesis
    using assms strip_zeros_digits [OF assms(2)]
    by (auto simp: json_int_def sign_str_def frac_text_def list_all_iff split: if_splits)
qed

lemma show_double_chars:
  assumes "c \<in> set (show_double x)"
  shows "c \<noteq> CHR '','' \<and> c \<noteq> CHR ''}''"
proof (cases x)
  case (Fin neg m e)
  from show_magnitude_parts [of "double_den e" "double_num m e"] obtain i f ex where
    "show_magnitude (double_num m e) (double_den e) = i @ frac_text f @ ex" "json_int i"
    "list_all is_digit f" "json_exp ex" by (auto simp: double_den_def)
  with Fin json_parts_chars [of i f ex c neg] assms show ?thesis by simp
qed (use assms in \<open>auto simp: sign_str_def split: if_splits\<close>)


section \<open>A reader for flat objects\<close>

datatype json_value = JStr string | JNum string

text \<open>A character that stands for itself in a JSON string: no control character, quotation mark or
  backslash. Bytes from 128 are parts of UTF-8 sequences, which are not checked.\<close>

definition plain_char :: "char \<Rightarrow> bool" where
  "plain_char c \<longleftrightarrow> 32 \<le> (of_char c :: nat) \<and> c \<noteq> CHR 0x22 \<and> c \<noteq> CHR 0x5C"

definition read_jstring :: "string \<Rightarrow> (string \<times> string) option" where
  "read_jstring s =
     (if s = [] \<or> hd s \<noteq> CHR 0x22 then None
      else let r = dropWhile plain_char (tl s) in
        if r = [] \<or> hd r \<noteq> CHR 0x22 then None else Some (takeWhile plain_char (tl s), tl r))"

definition number_char :: "char \<Rightarrow> bool" where
  "number_char c \<longleftrightarrow> c \<noteq> CHR '','' \<and> c \<noteq> CHR ''}''"

definition read_jvalue :: "string \<Rightarrow> (json_value \<times> string) option" where
  "read_jvalue s =
     (if s \<noteq> [] \<and> hd s = CHR 0x22 then map_option (\<lambda>(v, r). (JStr v, r)) (read_jstring s)
      else if json_number (takeWhile number_char s)
      then Some (JNum (takeWhile number_char s), dropWhile number_char s) else None)"

definition read_member :: "string \<Rightarrow> ((string \<times> json_value) \<times> string) option" where
  "read_member s =
     (case read_jstring s of
        None \<Rightarrow> None
      | Some (k, r) \<Rightarrow>
          if r = [] \<or> hd r \<noteq> CHR '':'' then None
          else map_option (\<lambda>(v, r'). ((k, v), r')) (read_jvalue (tl r)))"

lemma read_jstring_length: "read_jstring s = Some (v, r) \<Longrightarrow> length r < length s"
  using length_dropWhile_le [of plain_char "tl s"]
  by (cases s; cases "dropWhile plain_char (tl s)")
    (auto simp: read_jstring_def Let_def split: if_splits)

lemma read_jvalue_length: "read_jvalue s = Some (v, r) \<Longrightarrow> length r \<le> length s"
  using length_dropWhile_le [of number_char s]
  by (auto simp: read_jvalue_def split: if_splits dest: read_jstring_length)

lemma read_member_length: "read_member s = Some (m, r) \<Longrightarrow> length r < length s"
  by (auto simp: read_member_def split: option.splits if_splits dest!: read_jstring_length read_jvalue_length)

function read_members :: "string \<Rightarrow> (string \<times> json_value) list option" where
  "read_members s =
     (case read_member s of
        None \<Rightarrow> None
      | Some (m, r) \<Rightarrow>
          if r = ''}'' then Some [m]
          else if r \<noteq> [] \<and> hd r = CHR '','' then map_option ((#) m) (read_members (tl r))
          else None)"
  by pat_completeness auto
termination
  by (relation "measure length") (auto dest: read_member_length)

declare read_members.simps [simp del]

definition read_object :: "string \<Rightarrow> (string \<times> json_value) list option" where
  "read_object s =
     (if s = [] \<or> hd s \<noteq> CHR ''{'' then None
      else if tl s = ''}'' then Some [] else read_members (tl s))"

text \<open>What a reader returns is well formed.\<close>

fun json_ok :: "json_value \<Rightarrow> bool" where
  "json_ok (JStr v) = list_all plain_char v"
| "json_ok (JNum n) = json_number n"

lemma read_jstring_plain: "read_jstring s = Some (v, r) \<Longrightarrow> list_all plain_char v"
  by (auto simp: read_jstring_def Let_def list_all_iff split: if_splits dest: set_takeWhileD)

lemma read_members_ok: "read_members s = Some ms \<Longrightarrow> list_all (\<lambda>(k, v). json_ok v) ms"
proof (induction s arbitrary: ms rule: read_members.induct)
  case (1 s)
  then obtain k v r where m: "read_member s = Some ((k, v), r)"
    by (auto simp: read_members.simps [of s] split: option.splits)
  then have "json_ok v"
    by (auto simp: read_member_def read_jvalue_def split: option.splits if_splits)
      (erule read_jstring_plain)
  with 1 m show ?case by (auto simp: read_members.simps [of s] split: if_splits)
qed

section \<open>Reading what was written\<close>

lemma quote_not_plain [simp]: "\<not> plain_char (CHR 0x22)"
  by (simp add: plain_char_def)

lemma read_quoted:
  "list_all plain_char v \<Longrightarrow> read_jstring (CHR 0x22 # v @ CHR 0x22 # r) = Some (v, r)"
  using split_takeWhile [of v plain_char "CHR 0x22 # r"]
  by (simp add: read_jstring_def Let_def list_all_iff)

lemma json_number_start: "json_number s \<Longrightarrow> s \<noteq> [] \<and> hd s \<noteq> CHR 0x22"
  by (cases s) (auto simp: json_number_def drop_minus_def json_int_def Let_def is_digit_def)

lemma read_double:
  assumes "is_finite x" and "\<not> number_char (hd r)" and "r \<noteq> []"
  shows "read_jvalue (show_double x @ r) = Some (JNum (show_double x), r)"
proof -
  have n: "json_number (show_double x)" using assms(1) by (simp add: json_number_double)
  have "\<forall>c \<in> set (show_double x). number_char c"
    using show_double_chars by (auto simp: number_char_def)
  with split_takeWhile [of "show_double x" number_char r] assms(2) n json_number_start [OF n]
  show ?thesis by (simp add: read_jvalue_def)
qed

lemma read_text:
  "list_all plain_char v \<Longrightarrow> read_jvalue (CHR 0x22 # v @ CHR 0x22 # r) = Some (JStr v, r)"
  by (simp add: read_jvalue_def read_quoted)

lemma read_members_more:
  assumes "list_all plain_char k" and "read_jvalue t = Some (v, CHR '','' # r)"
  shows "read_members (CHR 0x22 # k @ CHR 0x22 # CHR '':'' # t) = map_option ((#) (k, v)) (read_members r)"
  using assms by (subst read_members.simps) (simp add: read_member_def read_quoted)

lemma read_members_last:
  assumes "list_all plain_char k" and "read_jvalue t = Some (v, ''}'')"
  shows "read_members (CHR 0x22 # k @ CHR 0x22 # CHR '':'' # t) = Some [(k, v)]"
  using assms by (subst read_members.simps) (simp add: read_member_def read_quoted)

text \<open>The members of a serialised sample, as its reader should see them.\<close>

definition sample_members :: "TelemetrySample \<Rightarrow> (string \<times> json_value) list" where
  "sample_members s =
     [(''vehicle_id'', JStr (ts_vehicle_id s)), (''timestamp'', JStr (ts_timestamp s)),
      (''speed'', JNum (show_double (ts_speed s))), (''rpm'', JNum (show_double (ts_rpm s))),
      (''battery'', JNum (show_double (ts_battery s))), (''fuel'', JNum (show_double (ts_fuel s)))]"

definition json_sample :: "TelemetrySample \<Rightarrow> bool" where
  "json_sample s \<longleftrightarrow> list_all plain_char (ts_vehicle_id s) \<and> list_all plain_char (ts_timestamp s) \<and>
     is_finite (ts_speed s) \<and> is_finite (ts_rpm s) \<and> is_finite (ts_battery s) \<and> is_finite (ts_fuel s)"

lemma names_plain [simp]:
  "list_all plain_char ''vehicle_id''" "list_all plain_char ''timestamp''" "list_all plain_char ''speed''"
  "list_all plain_char ''rpm''" "list_all plain_char ''battery''" "list_all plain_char ''fuel''"
  by (simp_all add: plain_char_def)


lemma read_serialized:
  assumes "json_sample s"
  shows "read_object (TelemetrySample_serialize s) = Some (sample_members s)"
proof -
  let ?q = "CHR 0x22"
  let ?fuel = "?q # ''fuel'' @ ?q # CHR '':'' # show_double (ts_fuel s) @ ''}''"
  let ?battery = "?q # ''battery'' @ ?q # CHR '':'' # show_double (ts_battery s) @ CHR '','' # ?fuel"
  let ?rpm = "?q # ''rpm'' @ ?q # CHR '':'' # show_double (ts_rpm s) @ CHR '','' # ?battery"
  let ?speed = "?q # ''speed'' @ ?q # CHR '':'' # show_double (ts_speed s) @ CHR '','' # ?rpm"
  let ?stamp = "?q # ''timestamp'' @ ?q # CHR '':'' # ?q # ts_timestamp s @ ?q # CHR '','' # ?speed"
  let ?all = "?q # ''vehicle_id'' @ ?q # CHR '':'' # ?q # ts_vehicle_id s @ ?q # CHR '','' # ?stamp"
  have fin: "is_finite (ts_speed s)" "is_finite (ts_rpm s)" "is_finite (ts_battery s)" "is_finite (ts_fuel s)"
    and plain: "list_all plain_char (ts_vehicle_id s)" "list_all plain_char (ts_timestamp s)"
    using assms by (simp_all add: json_sample_def)
  have num: "read_jvalue (show_double x @ CHR '','' # r) = Some (JNum (show_double x), CHR '','' # r)"
    if "is_finite x" for x r
    using that by (intro read_double) (simp_all add: number_char_def)
  have last: "read_jvalue (show_double x @ ''}'') = Some (JNum (show_double x), ''}'')"
    if "is_finite x" for x
    using that by (intro read_double) (simp_all add: number_char_def)
  have ser: "TelemetrySample_serialize s = CHR ''{'' # ?all"
    by (simp add: TelemetrySample_serialize_def)
  have "read_members ?fuel = Some [(''fuel'', JNum (show_double (ts_fuel s)))]"
    by (rule read_members_last [OF names_plain(6) last [OF fin(4)]])
  note m = read_members_more [OF names_plain(5) num [OF fin(3)], of ?fuel, unfolded this]
  note m = read_members_more [OF names_plain(4) num [OF fin(2)], of ?battery, unfolded m]
  note m = read_members_more [OF names_plain(3) num [OF fin(1)], of ?rpm, unfolded m]
  note m = read_members_more [OF names_plain(2) read_text [OF plain(2)], of ?speed, unfolded m]
  note m = read_members_more [OF names_plain(1) read_text [OF plain(1)], of ?stamp, unfolded m]
  have "read_members ?all = Some (sample_members s)"
    unfolding m by (simp add: sample_members_def)
  then show ?thesis by (simp add: ser read_object_def)
qed

lemma read_serialized_iff:
  "read_object (TelemetrySample_serialize s) = Some (sample_members s) \<longleftrightarrow> json_sample s"
proof
  assume r: "read_object (TelemetrySample_serialize s) = Some (sample_members s)"
  then have "read_members (tl (TelemetrySample_serialize s)) = Some (sample_members s)"
    by (simp add: read_object_def sample_members_def split: if_splits)
  from read_members_ok [OF this] show "json_sample s"
    by (simp add: sample_members_def json_sample_def json_number_double)
qed (rule read_serialized)

section \<open>Properties\<close>

text \<open>C14: \<open>serialize\<close> writes JSON exactly for samples whose vehicle identifier and time stamp contain no
  control character, quotation mark or backslash and whose readings are finite: an independent reader
  then finds the six members with their names, in order, strings as they were and numbers as valid
  JSON numbers; for every other sample it does not.\<close>

theorem serialize_is_json_iff:
  "read_object (TelemetrySample_serialize s) = Some (sample_members s) \<longleftrightarrow>
     list_all plain_char (ts_vehicle_id s) \<and> list_all plain_char (ts_timestamp s) \<and>
     is_finite (ts_speed s) \<and> is_finite (ts_rpm s) \<and> is_finite (ts_battery s) \<and> is_finite (ts_fuel s)"
  by (simp only: read_serialized_iff json_sample_def)

text \<open>Samples with the same JSON text have the same members.\<close>

lemma serialize_members_inj:
  "json_sample s \<Longrightarrow> json_sample t \<Longrightarrow> TelemetrySample_serialize s = TelemetrySample_serialize t \<Longrightarrow>
     sample_members s = sample_members t"
  using read_serialized [of s] read_serialized [of t] by simp

text \<open>The time stamp of a sample is always plain, and its readings are finite.\<close>

lemma digits_plain: "is_digit c \<Longrightarrow> plain_char c"
  by (auto simp: is_digit_def plain_char_def)

lemma show_nat_plain: "list_all plain_char (show_nat n)"
  using show_nat_all_digits [of n] digits_plain by (auto simp: list_all_iff)

lemma put_time_plain: "list_all plain_char (put_time (CHR ''T'') t)"
  using show_nat_plain by (simp add: put_time_def show_int_def pad2_def plain_char_def)

text \<open>Every payload the manager generates, whatever the local time, is JSON with the four readings
  80, 2500, 12.6 and 70, provided the vehicle identifier is plain.\<close>

lemma generated_payload_reads:
  "read_object (TelemetryManager_serialize t (fst (generateSample local_time t w))) =
     Some [(''vehicle_id'', JStr (tl_vehicle_id t)),
       (''timestamp'', JStr (put_time (CHR ''T'') (fst (local_time w)))),
       (''speed'', JNum ''80''), (''rpm'', JNum ''2500''), (''battery'', JNum ''12.6''), (''fuel'', JNum ''70'')]
   \<longleftrightarrow> list_all plain_char (tl_vehicle_id t)"
proof -
  let ?s = "fst (generateSample local_time t w)"
  obtain now w' where l: "local_time w = (now, w')" by (cases "local_time w")
  then have m: "sample_members ?s = [(''vehicle_id'', JStr (tl_vehicle_id t)),
       (''timestamp'', JStr (put_time (CHR ''T'') now)),
       (''speed'', JNum ''80''), (''rpm'', JNum ''2500''), (''battery'', JNum ''12.6''), (''fuel'', JNum ''70'')]"
    by (simp add: generateSample_def currentTimestamp_def sample_members_def show_sample_values)
  have j: "json_sample ?s \<longleftrightarrow> list_all plain_char (tl_vehicle_id t)"
    using l put_time_plain [of now]
    by (simp add: generateSample_def currentTimestamp_def json_sample_def kSampleSpeed_def kSampleRpm_def
        kSampleBattery_def kSampleFuel_def)
  from read_serialized_iff [of ?s] m j l show ?thesis by (simp add: TelemetryManager_serialize_def)
qed

end
