(* ===== verification/Telemetry_Threads.thy ===== *)
theory Telemetry_Threads
  imports Telemetry "HOL-Library.Multiset"
begin

text \<open>
  \<open>TelemetryManager\<close> called from several threads (\<open>src/TelemetryManager/telemetry_manager.cpp\<close>).
  \<open>publishSample\<close> holds no lock between its test of the connection, its publication and
  \<open>queueMessage\<close>; \<open>queueMessage\<close> holds the mutex for its one statement and \<open>flushQueue\<close> for its whole
  body. Meanwhile other threads may connect and disconnect the client. A method of the client is one
  step, since its implementations lock their own mutex (\<open>Client_Threads\<close> shows that this loses
  nothing; the two sections of a reconnect are a disconnect and a connect of another thread).
\<close>

section \<open>Threads\<close>

text \<open>Where a thread is: between calls; in \<open>publishSample\<close> with a payload before line 52, before line
  53, or about to queue it; in \<open>flushQueue\<close> before line 74 or with the payload taken from the queue
  before line 77.\<close>

datatype tm_pc = TIdle | T52 string | T53 string | T64 string | T74 | T77 string

text \<open>The last five fields record history: payloads generated, accepted by the client, put into the
  queue, taken from it, and dropped by a \<open>flushQueue\<close> whose publication failed.\<close>

record ('c, 'w) tm_state =
  tm_manager :: TelemetryManager
  tm_heap :: "'c store"
  tm_world :: 'w
  tm_mutex :: "nat option"
  tm_pcs :: "tm_pc list"
  tm_made :: "string list"
  tm_accepted :: "string list"
  tm_queued :: "string list"
  tm_taken :: "string list"
  tm_lost :: "string list"

definition tm_start :: "nat \<Rightarrow> string \<Rightarrow> nat option \<Rightarrow> 'c store \<Rightarrow> 'w \<Rightarrow> ('c, 'w) tm_state" where
  "tm_start n vid client h w =
     \<lparr>tm_manager = TelemetryManager_new vid client, tm_heap = h, tm_world = w, tm_mutex = None,
      tm_pcs = replicate n TIdle, tm_made = [], tm_accepted = [], tm_queued = [], tm_taken = [], tm_lost = []\<rparr>"

lemma tm_start_sel [simp]:
  "tm_made (tm_start n vid client h w) = []" "tm_accepted (tm_start n vid client h w) = []"
  "tl_pending (tm_manager (tm_start n vid client h w)) = []"
  by (simp_all add: tm_start_def TelemetryManager_new_def)

definition tm_online :: "('c, 'w) client_ops \<Rightarrow> ('c, 'w) tm_state \<Rightarrow> bool" where
  "tm_online M s =
     (case tl_client (tm_manager s) of None \<Rightarrow> False | Some a \<Rightarrow> m_isConnected M (tm_heap s a))"

definition goto :: "nat \<Rightarrow> tm_pc \<Rightarrow> ('c, 'w) tm_state \<Rightarrow> ('c, 'w) tm_state" where
  "goto i pc s = s\<lparr>tm_pcs := (tm_pcs s)[i := pc]\<rparr>"

text \<open>The publication of lines 53 and 77: the client's answer, and the payload recorded if it was
  accepted.\<close>

definition tm_publish ::
  "('c, 'w) client_ops \<Rightarrow> string \<Rightarrow> ('c, 'w) tm_state \<Rightarrow> bool \<times> ('c, 'w) tm_state" where
  "tm_publish M p s =
     (case tl_client (tm_manager s) of
        None \<Rightarrow> (False, s)
      | Some a \<Rightarrow>
          (case m_publish M (telemetry_topic (m_config M (tm_heap s a))) p 1 (tm_heap s a) (tm_world s) of
             (ok, c, w) \<Rightarrow>
               (ok, s\<lparr>tm_heap := (tm_heap s)(a := c), tm_world := w,
                      tm_accepted := (if ok then tm_accepted s @ [p] else tm_accepted s)\<rparr>)))"

inductive tm_step ::
  "('c, 'w) client_ops \<Rightarrow> 'w wall_clock \<Rightarrow> ('c, 'w) tm_state \<Rightarrow> ('c, 'w) tm_state \<Rightarrow> bool"
for M local_time where
  sample: "i < length (tm_pcs s) \<Longrightarrow> tm_pcs s ! i = TIdle \<Longrightarrow>
      generateSample local_time (tm_manager s) (tm_world s) = (x, w) \<Longrightarrow>
      p = TelemetryManager_serialize (tm_manager s) x \<Longrightarrow>
    tm_step M local_time s (goto i (T52 p) (s\<lparr>tm_world := w, tm_made := tm_made s @ [p]\<rparr>))"
| test: "i < length (tm_pcs s) \<Longrightarrow> tm_pcs s ! i = T52 p \<Longrightarrow>
    tm_step M local_time s (goto i (if tm_online M s then T53 p else T64 p) s)"
| publish: "i < length (tm_pcs s) \<Longrightarrow> tm_pcs s ! i = T53 p \<Longrightarrow> tm_publish M p s = (ok, s') \<Longrightarrow>
    tm_step M local_time s (goto i (if ok then TIdle else T64 p) s')"
| queue: "i < length (tm_pcs s) \<Longrightarrow> tm_pcs s ! i = T64 p \<Longrightarrow> tm_mutex s = None \<Longrightarrow>
    tm_step M local_time s (goto i TIdle
      (s\<lparr>tm_manager := snd (queueMessage p (tm_manager s)), tm_queued := tm_queued s @ [p]\<rparr>))"
| flush: "i < length (tm_pcs s) \<Longrightarrow> tm_pcs s ! i = TIdle \<Longrightarrow> tm_mutex s = None \<Longrightarrow> tm_online M s \<Longrightarrow>
    tm_step M local_time s (goto i T74 (s\<lparr>tm_mutex := Some i\<rparr>))"
| take_front: "i < length (tm_pcs s) \<Longrightarrow> tm_pcs s ! i = T74 \<Longrightarrow>
      tl_pending (tm_manager s) = p # rest \<Longrightarrow>
    tm_step M local_time s (goto i (T77 p)
      (s\<lparr>tm_manager := (tm_manager s)\<lparr>tl_pending := rest\<rparr>, tm_taken := tm_taken s @ [p]\<rparr>))"
| flushed: "i < length (tm_pcs s) \<Longrightarrow> tm_pcs s ! i = T74 \<Longrightarrow> tl_pending (tm_manager s) = [] \<Longrightarrow>
    tm_step M local_time s (goto i TIdle (s\<lparr>tm_mutex := None\<rparr>))"
| resend: "i < length (tm_pcs s) \<Longrightarrow> tm_pcs s ! i = T77 p \<Longrightarrow> tm_publish M p s = (ok, s') \<Longrightarrow>
    tm_step M local_time s
      (if ok then goto i T74 s'
       else goto i TIdle (s'\<lparr>tm_mutex := None, tm_lost := tm_lost s' @ [p]\<rparr>))"
| client: "k \<in> {Call Connect, Call Disconnect, Reconnect} \<Longrightarrow>
      client_op M k (tm_heap s a) (tm_world s) = (r, c, w) \<Longrightarrow>
    tm_step M local_time s (s\<lparr>tm_heap := (tm_heap s)(a := c), tm_world := w\<rparr>)"

inductive tm_reach ::
  "('c, 'w) client_ops \<Rightarrow> 'w wall_clock \<Rightarrow> ('c, 'w) tm_state \<Rightarrow> ('c, 'w) tm_state \<Rightarrow> bool"
for M local_time s0 where
  tm_refl: "tm_reach M local_time s0 s0"
| tm_next: "tm_reach M local_time s0 s \<Longrightarrow> tm_step M local_time s s' \<Longrightarrow> tm_reach M local_time s0 s'"

section \<open>Invariants\<close>

fun in_hand :: "tm_pc \<Rightarrow> string multiset" where
  "in_hand (T52 p) = {#p#}"
| "in_hand (T53 p) = {#p#}"
| "in_hand (T64 p) = {#p#}"
| "in_hand (T77 p) = {#p#}"
| "in_hand _ = {#}"

fun holds_mutex :: "tm_pc \<Rightarrow> bool" where
  "holds_mutex T74 = True"
| "holds_mutex (T77 p) = True"
| "holds_mutex _ = False"

definition hands :: "('c, 'w) tm_state \<Rightarrow> string multiset" where
  "hands s = sum_list (map in_hand (tm_pcs s))"

lemma hands_goto:
  assumes "i < length (tm_pcs s)" and "tm_pcs s' = tm_pcs s"
  shows "hands (goto i pc s') + in_hand (tm_pcs s ! i) = hands s + in_hand pc"
proof -
  have p: "tm_pcs s = take i (tm_pcs s) @ tm_pcs s ! i # drop (Suc i) (tm_pcs s)"
    using assms(1) by (rule id_take_nth_drop)
  have "tm_pcs (goto i pc s') = take i (tm_pcs s) @ pc # drop (Suc i) (tm_pcs s)"
    using assms by (simp add: goto_def upd_conv_take_nth_drop)
  then have "hands (goto i pc s') = sum_list (map in_hand (take i (tm_pcs s))) + in_hand pc
      + sum_list (map in_hand (drop (Suc i) (tm_pcs s)))"
    by (simp add: hands_def add.assoc)
  moreover have "hands s = sum_list (map in_hand (take i (tm_pcs s))) + in_hand (tm_pcs s ! i)
      + sum_list (map in_hand (drop (Suc i) (tm_pcs s)))"
    unfolding hands_def by (subst p) (simp add: add.assoc)
  ultimately show ?thesis by (simp add: add.assoc add.commute)
qed

text \<open>The mutex is held exactly by the thread inside \<open>flushQueue\<close>, and the queue is the list of the
  messages put in without those taken out.\<close>

definition tm_lock_inv :: "('c, 'w) tm_state \<Rightarrow> bool" where
  "tm_lock_inv s \<longleftrightarrow>
     (\<forall>i < length (tm_pcs s). holds_mutex (tm_pcs s ! i) \<longleftrightarrow> tm_mutex s = Some i) \<and>
     tm_queued s = tm_taken s @ tl_pending (tm_manager s)"

text \<open>Every payload generated was accepted, is waiting in the queue, is in a thread's hand, or was
  lost.\<close>

definition tm_balance :: "('c, 'w) tm_state \<Rightarrow> bool" where
  "tm_balance s \<longleftrightarrow>
     mset (tm_made s) =
       mset (tm_accepted s) + mset (tl_pending (tm_manager s)) + hands s + mset (tm_lost s)"

lemma goto_sel [simp]:
  "tm_manager (goto i pc s) = tm_manager s" "tm_mutex (goto i pc s) = tm_mutex s"
  "tm_made (goto i pc s) = tm_made s" "tm_accepted (goto i pc s) = tm_accepted s"
  "tm_queued (goto i pc s) = tm_queued s" "tm_taken (goto i pc s) = tm_taken s"
  "tm_lost (goto i pc s) = tm_lost s" "length (tm_pcs (goto i pc s)) = length (tm_pcs s)"
  "i < length (tm_pcs s) \<Longrightarrow> tm_pcs (goto i pc s) ! j = (if j = i then pc else tm_pcs s ! j)"
  by (simp_all add: goto_def)

lemma tm_publish_sel:
  "tm_publish M p s = (ok, s') \<Longrightarrow>
     tm_manager s' = tm_manager s \<and> tm_mutex s' = tm_mutex s \<and> tm_pcs s' = tm_pcs s \<and>
     tm_made s' = tm_made s \<and> tm_queued s' = tm_queued s \<and> tm_taken s' = tm_taken s \<and>
     tm_lost s' = tm_lost s \<and> tm_accepted s' = (if ok then tm_accepted s @ [p] else tm_accepted s)"
  by (auto simp: tm_publish_def split: option.splits prod.splits)

lemma tm_step_lock:
  assumes "tm_step M local_time s s'" and "tm_lock_inv s"
  shows "tm_lock_inv s'"
  using assms
proof cases
  case (publish i p ok s1)
  with assms(2) tm_publish_sel [OF publish(4)] show ?thesis
    by (auto simp: tm_lock_inv_def)
next
  case (resend i p ok s1)
  with assms(2) tm_publish_sel [OF resend(4)] show ?thesis
    by (auto simp: tm_lock_inv_def)
qed (auto simp: tm_lock_inv_def queueMessage_def)

lemma tm_step_balance:
  assumes "tm_step M local_time s s'" and "tm_balance s"
  shows "tm_balance s'"
  using assms(1)
proof cases
  case (sample i x w p)
  then show ?thesis
    using assms(2) hands_goto [of i s "s\<lparr>tm_world := w, tm_made := tm_made s @ [p]\<rparr>" "T52 p"]
    by (simp add: tm_balance_def)
next
  case (test i p)
  then show ?thesis
    using assms(2) hands_goto [of i s s "if tm_online M s then T53 p else T64 p"]
    by (simp add: tm_balance_def split: if_splits)
next
  case (publish i p ok s1)
  then show ?thesis
    using assms(2) hands_goto [of i s s1 "if ok then TIdle else T64 p"] tm_publish_sel [OF publish(4)]
    by (simp add: tm_balance_def split: if_splits)
next
  case (queue i p)
  then show ?thesis
    using assms(2) hands_goto [of i s "s\<lparr>tm_manager := snd (queueMessage p (tm_manager s)),
      tm_queued := tm_queued s @ [p]\<rparr>" TIdle]
    by (simp add: tm_balance_def queueMessage_def)
next
  case (flush i)
  then show ?thesis
    using assms(2) hands_goto [of i s "s\<lparr>tm_mutex := Some i\<rparr>" T74] by (simp add: tm_balance_def)
next
  case (take_front i p rest)
  then show ?thesis
    using assms(2) hands_goto [of i s "s\<lparr>tm_manager := (tm_manager s)\<lparr>tl_pending := rest\<rparr>,
      tm_taken := tm_taken s @ [p]\<rparr>" "T77 p"]
    by (simp add: tm_balance_def)
next
  case (flushed i)
  then show ?thesis
    using assms(2) hands_goto [of i s "s\<lparr>tm_mutex := None\<rparr>" TIdle] by (simp add: tm_balance_def)
next
  case (resend i p ok s1)
  then show ?thesis
    using assms(2) hands_goto [of i s s1 T74]
      hands_goto [of i s "s1\<lparr>tm_mutex := None, tm_lost := tm_lost s1 @ [p]\<rparr>" TIdle]
      tm_publish_sel [OF resend(4)]
    by (simp add: tm_balance_def split: if_splits)
next
  case (client k a r c w)
  then show ?thesis using assms(2) by (simp add: tm_balance_def hands_def)
qed

lemma tm_reach_inv:
  "tm_reach M local_time s0 s \<Longrightarrow> tm_lock_inv s0 \<Longrightarrow> tm_balance s0 \<Longrightarrow> tm_lock_inv s \<and> tm_balance s"
  by (induction rule: tm_reach.induct) (auto dest: tm_step_lock tm_step_balance)

lemma tm_start_inv: "tm_lock_inv (tm_start n vid client h w) \<and> tm_balance (tm_start n vid client h w)"
proof -
  have "sum_list (map in_hand (replicate n TIdle)) = {#}" by (induction n) simp_all
  then show ?thesis
    by (simp add: tm_lock_inv_def tm_balance_def tm_start_def TelemetryManager_new_def hands_def)
qed

section \<open>Properties\<close>

text \<open>C10: Conservation under concurrency: in every interleaving of any number of threads that call
  \<open>publishSample\<close> and \<open>flushQueue\<close> while others connect and disconnect the client, no payload is
  duplicated or forgotten: each one generated has been accepted by the client, waits in the queue,
  is in the hand of one thread, or was dropped by a failing \<open>flushQueue\<close>; and messages leave the
  queue in the order in which they entered it.\<close>

theorem telemetry_conservation:
  assumes "tm_reach M local_time (tm_start n vid client h w) s"
  shows "mset (tm_made s) =
      mset (tm_accepted s) + mset (tl_pending (tm_manager s)) + hands s + mset (tm_lost s) \<and>
    tm_queued s = tm_taken s @ tl_pending (tm_manager s)"
  using tm_reach_inv [OF assms] tm_start_inv [of n vid client h w]
  by (simp add: tm_balance_def tm_lock_inv_def)

theorem telemetry_conservation_witness:
  "\<exists>s p. tm_reach scripted_ops demo_wall (tm_start 1 ''V'' None (\<lambda>_. (False, [])) []) s \<and>
     tm_made s = [p] \<and> tl_pending (tm_manager s) = [p] \<and> tm_accepted s = [] \<and> hands s = {#}"
proof -
  let ?s0 = "tm_start 1 ''V'' None (\<lambda>_. (False, [])) [] :: (bool \<times> bool list, string list) tm_state"
  obtain x where g: "generateSample demo_wall (tm_manager ?s0) (tm_world ?s0) = (x, tm_world ?s0)"
    by (simp add: generateSample_def currentTimestamp_def demo_wall_def)
  let ?p = "TelemetryManager_serialize (tm_manager ?s0) x"
  let ?s1 = "goto 0 (T52 ?p) (?s0\<lparr>tm_world := tm_world ?s0, tm_made := tm_made ?s0 @ [?p]\<rparr>)"
  let ?s2 = "goto 0 (T64 ?p) ?s1"
  let ?s3 = "goto 0 TIdle (?s2\<lparr>tm_manager := snd (queueMessage ?p (tm_manager ?s2)),
      tm_queued := tm_queued ?s2 @ [?p]\<rparr>)"
  have "tm_step scripted_ops demo_wall ?s0 ?s1"
    by (rule tm_step.sample [OF _ _ g refl]) (simp_all add: tm_start_def)
  moreover have "tm_step scripted_ops demo_wall ?s1 ?s2"
    using tm_step.test [of 0 ?s1 ?p scripted_ops demo_wall]
    by (simp add: tm_start_def tm_online_def TelemetryManager_new_def)
  moreover have "tm_step scripted_ops demo_wall ?s2 ?s3"
    by (rule tm_step.queue) (simp_all add: tm_start_def goto_def)
  ultimately have r: "tm_reach scripted_ops demo_wall ?s0 ?s3"
    by (intro tm_next [OF tm_next [OF tm_next [OF tm_refl]]])
  have m: "tm_made ?s3 = [?p]" "tl_pending (tm_manager ?s3) = [?p]" "tm_accepted ?s3 = []"
    by (simp_all add: queueMessage_def)
  have rest: "A = {#}" if "mset [p] = mset [] + mset [p] + A + B" for p :: string and A B
    using that by simp
  have "hands ?s3 = {#}"
    by (rule rest [OF telemetry_conservation [OF r, THEN conjunct1, unfolded m]])
  with r m show ?thesis by blast
qed

text \<open>At most one thread is inside \<open>flushQueue\<close> at any time, and it is the one that holds the
  mutex.\<close>

theorem flush_exclusive:
  assumes "tm_reach M local_time (tm_start n vid client h w) s"
    and "i < length (tm_pcs s)" and "j < length (tm_pcs s)"
    and "holds_mutex (tm_pcs s ! i)" and "holds_mutex (tm_pcs s ! j)"
  shows "i = j \<and> tm_mutex s = Some i"
  using tm_reach_inv [OF assms(1)] tm_start_inv [of n vid client h w] assms(2-5)
  by (auto simp: tm_lock_inv_def)

theorem flush_exclusive_witness:
  "\<exists>s. tm_reach scripted_ops demo_wall (tm_start 2 ''V'' (Some 0) (\<lambda>_. (True, [])) []) s \<and>
     tm_mutex s = Some 1 \<and> holds_mutex (tm_pcs s ! 1)"
proof -
  let ?s0 = "tm_start 2 ''V'' (Some 0) (\<lambda>_. (True, [])) [] :: (bool \<times> bool list, string list) tm_state"
  let ?s1 = "goto 1 T74 (?s0\<lparr>tm_mutex := Some 1\<rparr>)"
  have "tm_step scripted_ops demo_wall ?s0 ?s1"
    by (rule tm_step.flush) (simp_all add: tm_start_def tm_online_def TelemetryManager_new_def)
  then have r: "tm_reach scripted_ops demo_wall ?s0 ?s1" by (rule tm_next [OF tm_refl])
  have h: "1 < length (tm_pcs ?s1)" "holds_mutex (tm_pcs ?s1 ! 1)" by (simp_all add: tm_start_def)
  from flush_exclusive [OF r h(1) h(1) h(2) h(2)] r h(2) show ?thesis by blast
qed

end
