(* ===== verification/Connectivity_Service.thy ===== *)
theory Connectivity_Service
  imports Auth_Client Telemetry Logger Someip_Client
begin

text \<open>
  \<open>ConnectivityService\<close> (\<open>include/connected_vehicle_platform/connectivity_service.hpp\<close>,
  \<open>src/ConnectivityService/connectivity_service.cpp\<close>), one operation per statement that has an
  effect, composed into \<open>start\<close> and into one pass through the body of \<open>runLoop\<close>. The threads, the
  join in \<open>stop\<close> and the interleavings are in \<open>Service_Threads\<close>.

  The service shares its \<open>IMqttClient\<close> with the telemetry manager, so the client lives in a store
  and both hold an address. A shared pointer that may be null is an \<open>option\<close>; the logger is
  dereferenced without a check and is taken to be non-null.
\<close>

section \<open>State\<close>

datatype ServiceState =
  Starting | Authenticating | Connected | Publishing | Disconnected | Reconnecting | Stopped

record ('c, 'w) service =
  svc_auth :: "'w AuthClient option"
  svc_mqtt :: "nat option"
  svc_telemetry :: "TelemetryManager option"
  svc_logger :: Logger
  svc_state :: ServiceState
  svc_running :: bool
  svc_heap :: "'c store"
  svc_log :: log_io
  svc_world :: 'w

text \<open>What the service finds around it: the client's virtual functions, the clocks, \<open>sleep_for\<close>, and
  the name \<open>std::source_location\<close> records for the file.\<close>

record ('c, 'w) env =
  env_ops :: "('c, 'w) client_ops"
  env_now :: "'w clock"
  env_local_time :: "'w wall_clock"
  env_sleep :: "int \<Rightarrow> 'w \<Rightarrow> 'w"
  env_file :: string

definition kReconnectDelaySec :: int where
  "kReconnectDelaySec = 2"

definition kPublishIntervalSec :: int where
  "kPublishIntervalSec = 5"

definition ConnectivityService_new ::
  "'w AuthClient option \<Rightarrow> nat option \<Rightarrow> TelemetryManager option \<Rightarrow> Logger
    \<Rightarrow> 'c store \<Rightarrow> log_io \<Rightarrow> 'w \<Rightarrow> ('c, 'w) service" where
  "ConnectivityService_new auth mqtt telemetry lg h io w =
     \<lparr>svc_auth = auth, svc_mqtt = mqtt, svc_telemetry = telemetry, svc_logger = lg,
      svc_state = Stopped, svc_running = False, svc_heap = h, svc_log = io, svc_world = w\<rparr>"

section \<open>Single statements\<close>

definition set_state :: "ServiceState \<Rightarrow> ('c, 'w) service \<Rightarrow> ('c, 'w) service" where
  "set_state st s = s\<lparr>svc_state := st\<rparr>"

definition svc_say ::
  "('c, 'w) env \<Rightarrow> LogLevel \<Rightarrow> string \<Rightarrow> nat \<Rightarrow> ('c, 'w) service \<Rightarrow> ('c, 'w) service" where
  "svc_say E level message l s =
     (case env_local_time E (svc_world s) of (t, w) \<Rightarrow>
      s\<lparr>svc_log := Logger_log (svc_logger s) t level message
           \<lparr>file_name = env_file E, line = l\<rparr> (svc_log s),
        svc_world := w\<rparr>)"

definition svc_authenticate :: "('c, 'w) env \<Rightarrow> ('c, 'w) service \<Rightarrow> bool \<times> ('c, 'w) service" where
  "svc_authenticate E s =
     (case svc_auth s of
        None \<Rightarrow> (False, s)
      | Some ac \<Rightarrow>
          (case AuthClient_authenticate (env_now E) ac (svc_world s) of (r, ac', w) \<Rightarrow>
           (r, s\<lparr>svc_auth := Some ac', svc_world := w\<rparr>)))"

definition svc_refresh :: "('c, 'w) env \<Rightarrow> ('c, 'w) service \<Rightarrow> bool \<times> ('c, 'w) service" where
  "svc_refresh E s =
     (case svc_auth s of
        None \<Rightarrow> (False, s)
      | Some ac \<Rightarrow>
          (case AuthClient_refreshToken (env_now E) ac (svc_world s) of (r, ac', w) \<Rightarrow>
           (r \<and> ac_token ac' \<noteq> [], s\<lparr>svc_auth := Some ac', svc_world := w\<rparr>)))"

definition svc_needs_token :: "('c, 'w) env \<Rightarrow> ('c, 'w) service \<Rightarrow> bool \<times> ('c, 'w) service" where
  "svc_needs_token E s =
     (case svc_auth s of
        None \<Rightarrow> (False, s)
      | Some ac \<Rightarrow>
          (case AuthClient_isTokenValid (env_now E) ac (svc_world s) of (valid, w) \<Rightarrow>
           (\<not> valid \<or> ac_token ac = [], s\<lparr>svc_world := w\<rparr>)))"

definition svc_on_client ::
  "('c, 'w, bool) opr \<Rightarrow> ('c, 'w) service \<Rightarrow> bool \<times> ('c, 'w) service" where
  "svc_on_client f s =
     (case svc_mqtt s of
        None \<Rightarrow> (False, s)
      | Some a \<Rightarrow>
          (case f (svc_heap s a) (svc_world s) of (r, c, w) \<Rightarrow>
           (r, s\<lparr>svc_heap := (svc_heap s)(a := c), svc_world := w\<rparr>)))"

definition svc_connect :: "('c, 'w) env \<Rightarrow> ('c, 'w) service \<Rightarrow> bool \<times> ('c, 'w) service" where
  "svc_connect E = svc_on_client (m_connect (env_ops E))"

definition svc_reconnect :: "('c, 'w) env \<Rightarrow> ('c, 'w) service \<Rightarrow> bool \<times> ('c, 'w) service" where
  "svc_reconnect E = svc_on_client (m_reconnect (env_ops E))"

definition svc_disconnect :: "('c, 'w) env \<Rightarrow> ('c, 'w) service \<Rightarrow> ('c, 'w) service" where
  "svc_disconnect E s = snd (svc_on_client (m_disconnect (env_ops E)) s)"

definition svc_online :: "('c, 'w) env \<Rightarrow> ('c, 'w) service \<Rightarrow> bool" where
  "svc_online E s =
     (case svc_mqtt s of None \<Rightarrow> False | Some a \<Rightarrow> m_isConnected (env_ops E) (svc_heap s a))"

definition publishTelemetry :: "('c, 'w) env \<Rightarrow> ('c, 'w) service \<Rightarrow> bool \<times> ('c, 'w) service" where
  "publishTelemetry E s =
     (case svc_telemetry s of
        None \<Rightarrow> (False, s)
      | Some t \<Rightarrow>
          (case publishSample (env_ops E) (env_local_time E) (t, svc_heap s) (svc_world s) of
             (r, (t', h), w) \<Rightarrow>
               (r, s\<lparr>svc_telemetry := Some t', svc_heap := h, svc_world := w\<rparr>)))"

definition svc_sleep :: "('c, 'w) env \<Rightarrow> int \<Rightarrow> ('c, 'w) service \<Rightarrow> ('c, 'w) service" where
  "svc_sleep E secs s = s\<lparr>svc_world := env_sleep E secs (svc_world s)\<rparr>"

section \<open>Operations\<close>

text \<open>\<open>start\<close>, up to the creation of the worker thread; the flag of the result says whether that
  point (line 51) was reached.\<close>

definition service_start :: "('c, 'w) env \<Rightarrow> ('c, 'w) service \<Rightarrow> (bool \<times> bool) \<times> ('c, 'w) service" where
  "service_start E s =
     (if svc_running s then ((True, False), s)
      else
        let s1 = svc_say E Info ''Starting connectivity service'' 29
              (set_state Starting (s\<lparr>svc_running := True\<rparr>)) in
        case svc_authenticate E s1 of (authenticated, s2) \<Rightarrow>
        if \<not> authenticated
        then ((False, False),
              (set_state Disconnected (svc_say E Error ''Authentication failed'' 32 s2))
                \<lparr>svc_running := False\<rparr>)
        else
          let s3 = svc_say E Info ''Authentication succeeded'' 39 (set_state Authenticating s2) in
          case svc_connect E s3 of (online, s4) \<Rightarrow>
          if \<not> online
          then ((False, False),
                (set_state Disconnected (svc_say E Error ''MQTT connection failed'' 42 s4))
                  \<lparr>svc_running := False\<rparr>)
          else ((True, True),
                set_state Publishing
                  (svc_say E Info ''Cloud transport established'' 49 (set_state Connected s4))))"

definition service_state :: "('c, 'w) service \<Rightarrow> ServiceState" where
  "service_state s = svc_state s"

definition service_running :: "('c, 'w) service \<Rightarrow> bool" where
  "service_running s = svc_running s"

text \<open>The body of the loop: the token part and the connection part say whether the pass goes on or
  sleeps and continues with the next test of the stop token.\<close>

definition loop_token :: "('c, 'w) env \<Rightarrow> ('c, 'w) service \<Rightarrow> bool \<times> ('c, 'w) service" where
  "loop_token E s =
     (case svc_needs_token E s of (needed, s1) \<Rightarrow>
      if \<not> needed then (True, s1)
      else
        case svc_refresh E (svc_say E Warning
            ''Token is empty or invalid; attempting to refresh token'' 88
            (set_state Authenticating s1)) of (refreshed, s2) \<Rightarrow>
        if refreshed
        then (True, set_state Publishing (svc_say E Info ''Token refreshed successfully'' 90 s2))
        else (False, svc_sleep E kReconnectDelaySec
               (set_state Disconnected (svc_say E Error ''Token refresh failed; retrying'' 93 s2))))"

definition loop_connection :: "('c, 'w) env \<Rightarrow> ('c, 'w) service \<Rightarrow> bool \<times> ('c, 'w) service" where
  "loop_connection E s =
     (if svc_online E s then (True, s)
      else
        case svc_reconnect E (svc_say E Warning ''Connection lost; attempting reconnect'' 102
            (set_state Reconnecting s)) of (online, s1) \<Rightarrow>
        if online
        then (True, svc_say E Info ''Reconnected successfully'' 105 (set_state Connected s1))
        else (False, svc_sleep E kReconnectDelaySec (set_state Disconnected s1)))"

definition loop_publish :: "('c, 'w) env \<Rightarrow> ('c, 'w) service \<Rightarrow> ('c, 'w) service" where
  "loop_publish E s =
     (case publishTelemetry E s of (ok, s1) \<Rightarrow>
      svc_sleep E kPublishIntervalSec
        (if ok then s1 else svc_say E Warning ''Telemetry publish queued for later'' 114 s1))"

definition loop_body :: "('c, 'w) env \<Rightarrow> ('c, 'w) service \<Rightarrow> ('c, 'w) service" where
  "loop_body E s =
     (case loop_token E s of (go, s1) \<Rightarrow>
      if \<not> go then s1
      else case loop_connection E s1 of (go2, s2) \<Rightarrow> if go2 then loop_publish E s2 else s2)"

definition loop_exit :: "('c, 'w) env \<Rightarrow> ('c, 'w) service \<Rightarrow> ('c, 'w) service" where
  "loop_exit E s = svc_say E Info ''Connectivity service loop stopped'' 123 (svc_disconnect E s)"

text \<open>The loop for a given number of passes, the stop token being seen set at the next test.\<close>

fun runLoop :: "('c, 'w) env \<Rightarrow> nat \<Rightarrow> ('c, 'w) service \<Rightarrow> ('c, 'w) service" where
  "runLoop E 0 s = loop_exit E s"
| "runLoop E (Suc n) s = runLoop E n (loop_body E s)"

section \<open>Frames\<close>

lemma svc_say_sel [simp]:
  "svc_auth (svc_say E lv m l s) = svc_auth s" "svc_mqtt (svc_say E lv m l s) = svc_mqtt s"
  "svc_telemetry (svc_say E lv m l s) = svc_telemetry s"
  "svc_logger (svc_say E lv m l s) = svc_logger s" "svc_state (svc_say E lv m l s) = svc_state s"
  "svc_running (svc_say E lv m l s) = svc_running s" "svc_heap (svc_say E lv m l s) = svc_heap s"
  by (simp_all add: svc_say_def split: prod.splits)

lemma set_state_sel [simp]:
  "svc_auth (set_state st s) = svc_auth s" "svc_mqtt (set_state st s) = svc_mqtt s"
  "svc_telemetry (set_state st s) = svc_telemetry s"
  "svc_logger (set_state st s) = svc_logger s" "svc_state (set_state st s) = st"
  "svc_running (set_state st s) = svc_running s" "svc_heap (set_state st s) = svc_heap s"
  "svc_log (set_state st s) = svc_log s" "svc_world (set_state st s) = svc_world s"
  by (simp_all add: set_state_def)

lemma svc_sleep_sel [simp]:
  "svc_auth (svc_sleep E n s) = svc_auth s" "svc_mqtt (svc_sleep E n s) = svc_mqtt s"
  "svc_telemetry (svc_sleep E n s) = svc_telemetry s"
  "svc_logger (svc_sleep E n s) = svc_logger s" "svc_state (svc_sleep E n s) = svc_state s"
  "svc_running (svc_sleep E n s) = svc_running s" "svc_heap (svc_sleep E n s) = svc_heap s"
  "svc_log (svc_sleep E n s) = svc_log s"
  by (simp_all add: svc_sleep_def)

text \<open>What each call of another object may change: its own object, the store, the log and the
  world. Pointers, the running flag and the state are written by the service alone.\<close>

definition same_control :: "('c, 'w) service \<Rightarrow> ('c, 'w) service \<Rightarrow> bool" where
  "same_control s s' \<longleftrightarrow>
     svc_mqtt s' = svc_mqtt s \<and> svc_logger s' = svc_logger s \<and> svc_running s' = svc_running s \<and>
     (svc_auth s' = None \<longleftrightarrow> svc_auth s = None) \<and>
     (svc_telemetry s' = None \<longleftrightarrow> svc_telemetry s = None)"

lemma same_control_refl [simp]: "same_control s s"
  by (simp add: same_control_def)

lemma same_control_trans: "same_control s t \<Longrightarrow> same_control t u \<Longrightarrow> same_control s u"
  by (simp add: same_control_def)

lemma same_control_simps [simp]:
  "same_control s (svc_say E lv m l t) = same_control s t"
  "same_control s (set_state st t) = same_control s t"
  "same_control s (svc_sleep E n t) = same_control s t"
  "same_control (svc_say E lv m l t) s = same_control t s"
  "same_control (set_state st t) s = same_control t s"
  by (simp_all add: same_control_def)

lemma svc_authenticate_frame [svc_frame]:
  "svc_authenticate E s = (r, s') \<Longrightarrow>
     same_control s s' \<and> svc_state s' = svc_state s \<and> svc_telemetry s' = svc_telemetry s \<and>
     svc_heap s' = svc_heap s \<and> svc_log s' = svc_log s"
  by (auto simp: svc_authenticate_def same_control_def split: option.splits prod.splits)

lemma svc_refresh_frame [svc_frame]:
  "svc_refresh E s = (r, s') \<Longrightarrow>
     same_control s s' \<and> svc_state s' = svc_state s \<and> svc_telemetry s' = svc_telemetry s \<and>
     svc_heap s' = svc_heap s \<and> svc_log s' = svc_log s"
  by (auto simp: svc_refresh_def same_control_def split: option.splits prod.splits)

lemma svc_needs_token_frame [svc_frame]:
  "svc_needs_token E s = (r, s') \<Longrightarrow>
     same_control s s' \<and> svc_state s' = svc_state s \<and> svc_telemetry s' = svc_telemetry s \<and>
     svc_heap s' = svc_heap s \<and> svc_log s' = svc_log s \<and> svc_auth s' = svc_auth s"
  by (auto simp: svc_needs_token_def same_control_def split: option.splits prod.splits)

lemma svc_on_client_frame [svc_frame]:
  "svc_on_client f s = (r, s') \<Longrightarrow>
     same_control s s' \<and> svc_state s' = svc_state s \<and> svc_telemetry s' = svc_telemetry s \<and>
     svc_auth s' = svc_auth s \<and> svc_log s' = svc_log s"
  by (auto simp: svc_on_client_def same_control_def split: option.splits prod.splits)

lemma publishTelemetry_frame [svc_frame]:
  "publishTelemetry E s = (r, s') \<Longrightarrow>
     same_control s s' \<and> svc_state s' = svc_state s \<and> svc_auth s' = svc_auth s \<and>
     svc_log s' = svc_log s"
  by (auto simp: publishTelemetry_def same_control_def split: option.splits prod.splits)

lemma svc_connect_frame [svc_frame]:
  "svc_connect E s = (r, s') \<Longrightarrow>
     same_control s s' \<and> svc_state s' = svc_state s \<and> svc_telemetry s' = svc_telemetry s \<and>
     svc_auth s' = svc_auth s \<and> svc_log s' = svc_log s"
  unfolding svc_connect_def by (rule svc_on_client_frame)

lemma svc_reconnect_frame [svc_frame]:
  "svc_reconnect E s = (r, s') \<Longrightarrow>
     same_control s s' \<and> svc_state s' = svc_state s \<and> svc_telemetry s' = svc_telemetry s \<and>
     svc_auth s' = svc_auth s \<and> svc_log s' = svc_log s"
  unfolding svc_reconnect_def by (rule svc_on_client_frame)

section \<open>The parts of a pass\<close>

lemma svc_online_simps [simp]:
  "svc_online E (svc_say E' lv m l s) = svc_online E s"
  "svc_online E (set_state st s) = svc_online E s"
  "svc_online E (svc_sleep E' n s) = svc_online E s"
  "svc_online E (s\<lparr>svc_running := b\<rparr>) = svc_online E s"
  by (simp_all add: svc_online_def split: option.split)

lemma loop_token_facts:
  assumes "loop_token E s = (go, s')"
  shows "same_control s s' \<and> svc_telemetry s' = svc_telemetry s \<and> svc_heap s' = svc_heap s \<and>
    svc_state s' = (if \<not> go then Disconnected
      else if fst (svc_needs_token E s) then Publishing else svc_state s)"
proof -
  obtain needed s1 where n: "svc_needs_token E s = (needed, s1)" by fastforce
  let ?s1 = "svc_say E Warning ''Token is empty or invalid; attempting to refresh token'' 88
     (set_state Authenticating s1)"
  obtain ok s2 where r: "svc_refresh E ?s1 = (ok, s2)" by fastforce
  note f = svc_needs_token_frame [OF n] svc_refresh_frame [OF r]
  have c: "same_control s s2" using f same_control_trans [of s s1 s2] by simp
  show ?thesis
    using assms n r f c by (auto simp: loop_token_def split: if_splits)
qed

lemma loop_connection_facts:
  assumes "loop_connection E s = (go, s')"
  shows "same_control s s' \<and> svc_telemetry s' = svc_telemetry s \<and> svc_auth s' = svc_auth s \<and>
    svc_state s' = (if \<not> go then Disconnected
      else if svc_online E s then svc_state s else Connected)"
proof -
  let ?s1 = "svc_say E Warning ''Connection lost; attempting reconnect'' 102 (set_state Reconnecting s)"
  obtain ok s2 where r: "svc_reconnect E ?s1 = (ok, s2)" by fastforce
  note f = svc_reconnect_frame [OF r]
  show ?thesis
    using assms r f by (auto simp: loop_connection_def split: if_splits)
qed

lemma publishTelemetry_result:
  "publishTelemetry E s = (r, s') \<Longrightarrow> r \<longleftrightarrow> svc_telemetry s \<noteq> None"
  by (auto simp: publishTelemetry_def dest: publishSample_pending split: option.splits prod.splits)

lemma publishTelemetry_pending:
  assumes "publishTelemetry E s = (r, s')" and "svc_telemetry s = Some t"
  shows "\<exists>t' ms. svc_telemetry s' = Some t' \<and> tl_pending t' = tl_pending t @ ms \<and> length ms \<le> 1"
  using assms
  by (auto simp: publishTelemetry_def dest: publishSample_pending split: prod.splits)

lemma loop_publish_facts:
  assumes "loop_publish E s = s'"
  shows "same_control s s' \<and> svc_state s' = svc_state s \<and> svc_auth s' = svc_auth s \<and>
    (\<exists>s1. publishTelemetry E s = (svc_telemetry s \<noteq> None, s1) \<and>
      svc_telemetry s' = svc_telemetry s1 \<and> svc_heap s' = svc_heap s1)"
proof -
  obtain ok s1 where p: "publishTelemetry E s = (ok, s1)" by fastforce
  show ?thesis
    using assms p publishTelemetry_frame [OF p] publishTelemetry_result [OF p]
    by (auto simp: loop_publish_def)
qed

lemma loop_body_cases:
  fixes E :: "('c, 'w) env" and s :: "('c, 'w) service"
  obtains (token) s1 where "loop_token E s = (False, s1)" "loop_body E s = s1"
  | (offline) s1 s2 where "loop_token E s = (True, s1)" "loop_connection E s1 = (False, s2)"
      "loop_body E s = s2"
  | (publish) s1 s2 where "loop_token E s = (True, s1)" "loop_connection E s1 = (True, s2)"
      "loop_body E s = loop_publish E s2"
proof -
  obtain go s1 where t: "loop_token E s = (go, s1)" by fastforce
  obtain go2 s2 where c: "loop_connection E s1 = (go2, s2)" by fastforce
  consider "\<not> go" | "go" "\<not> go2" | "go" "go2" by blast
  then show thesis
  proof cases
    case 1
    with t show thesis by (intro token [of s1]) (simp_all add: loop_body_def)
  next
    case 2
    with t c show thesis by (intro offline [of s1 s2]) (simp_all add: loop_body_def)
  next
    case 3
    with t c show thesis by (intro publish [of s1 s2]) (simp_all add: loop_body_def)
  qed
qed

lemma loop_body_control: "same_control s (loop_body E s)"
proof (cases rule: loop_body_cases [where E = E and s = s])
  case (token s1)
  then show ?thesis using loop_token_facts [OF token(1)] by simp
next
  case (offline s1 s2)
  then show ?thesis
    using loop_token_facts [OF offline(1)] loop_connection_facts [OF offline(2)]
    by (auto intro: same_control_trans)
next
  case (publish s1 s2)
  then show ?thesis
    using loop_token_facts [OF publish(1)] loop_connection_facts [OF publish(2)]
      loop_publish_facts [of E s2, OF refl]
    by (metis same_control_trans)
qed

lemma loop_body_pending:
  assumes "svc_telemetry s = Some t"
  shows "\<exists>t' ms. svc_telemetry (loop_body E s) = Some t' \<and> tl_pending t' = tl_pending t @ ms \<and>
    length ms \<le> 1"
proof (cases rule: loop_body_cases [where E = E and s = s])
  case (token s1)
  then show ?thesis using loop_token_facts [OF token(1)] assms by simp
next
  case (offline s1 s2)
  then show ?thesis
    using loop_token_facts [OF offline(1)] loop_connection_facts [OF offline(2)] assms by simp
next
  case (publish s1 s2)
  then have "svc_telemetry s2 = Some t"
    using loop_token_facts [OF publish(1)] loop_connection_facts [OF publish(2)] assms by simp
  then show ?thesis
    using loop_publish_facts [of E s2, OF refl] publishTelemetry_pending [of E s2] publish(3) by auto
qed

lemma runLoop_iterate: "runLoop E n s = loop_exit E ((loop_body E ^^ n) s)"
  by (induction n arbitrary: s) (simp_all add: funpow_swap1)

section \<open>The service and the contract of its client\<close>

definition store_inv :: "('c \<Rightarrow> bool) \<Rightarrow> ('c, 'w) service \<Rightarrow> bool" where
  "store_inv I s \<longleftrightarrow> (\<forall>a. I (svc_heap s a))"

lemma store_inv_simps [simp]:
  "store_inv I (svc_say E lv m l s) = store_inv I s" "store_inv I (set_state st s) = store_inv I s"
  "store_inv I (svc_sleep E n s) = store_inv I s"
  "store_inv I (s\<lparr>svc_running := b\<rparr>) = store_inv I s"
  by (simp_all add: store_inv_def)

lemma store_online_cong:
  "svc_heap s' = svc_heap s \<Longrightarrow> svc_mqtt s' = svc_mqtt s \<Longrightarrow>
     svc_online E s' = svc_online E s \<and> store_inv I s' = store_inv I s"
  by (simp add: svc_online_def store_inv_def split: option.split)

context mqtt_client
begin

lemma svc_connect_online:
  assumes "store_inv inv s" and "env_ops E = M" and "svc_connect E s = (r, s')"
  shows "svc_online E s' = r \<and> store_inv inv s'"
proof (cases "svc_mqtt s")
  case None
  with assms show ?thesis by (simp add: svc_connect_def svc_on_client_def svc_online_def)
next
  case (Some a)
  obtain c w where c: "m_connect M (svc_heap s a) (svc_world s) = (r, c, w)"
    and s': "s' = s\<lparr>svc_heap := (svc_heap s)(a := c), svc_world := w\<rparr>"
    using assms Some by (auto simp: svc_connect_def svc_on_client_def split: prod.splits)
  have "inv (svc_heap s a)" using assms(1) by (simp add: store_inv_def)
  from client_connect [OF this c] assms(1,2) Some s' show ?thesis
    by (simp add: svc_online_def store_inv_def)
qed

lemma svc_reconnect_online:
  assumes "store_inv inv s" and "env_ops E = M" and "svc_reconnect E s = (r, s')"
  shows "svc_online E s' = r \<and> store_inv inv s'"
proof (cases "svc_mqtt s")
  case None
  with assms show ?thesis by (simp add: svc_reconnect_def svc_on_client_def svc_online_def)
next
  case (Some a)
  obtain c w where c: "m_reconnect M (svc_heap s a) (svc_world s) = (r, c, w)"
    and s': "s' = s\<lparr>svc_heap := (svc_heap s)(a := c), svc_world := w\<rparr>"
    using assms Some by (auto simp: svc_reconnect_def svc_on_client_def split: prod.splits)
  have "inv (svc_heap s a)" using assms(1) by (simp add: store_inv_def)
  from client_reconnect [OF this c] assms(1,2) Some s' show ?thesis
    by (simp add: svc_online_def store_inv_def)
qed

lemma svc_disconnect_offline:
  assumes "store_inv inv s" and "env_ops E = M"
  shows "\<not> svc_online E (svc_disconnect E s) \<and> store_inv inv (svc_disconnect E s)"
proof (cases "svc_mqtt s")
  case None
  with assms show ?thesis by (simp add: svc_disconnect_def svc_on_client_def svc_online_def)
next
  case (Some a)
  obtain r c w where c: "m_disconnect M (svc_heap s a) (svc_world s) = (r, c, w)"
    using prod_cases3 by blast
  then have s': "svc_disconnect E s = s\<lparr>svc_heap := (svc_heap s)(a := c), svc_world := w\<rparr>"
    using assms Some by (simp add: svc_disconnect_def svc_on_client_def)
  have "inv (svc_heap s a)" using assms(1) by (simp add: store_inv_def)
  from client_disconnect [OF this c] assms(1,2) Some s' show ?thesis
    by (simp add: svc_online_def store_inv_def)
qed

lemma publishTelemetry_online:
  assumes "store_inv inv s" and "env_ops E = M" and "publishTelemetry E s = (r, s')"
  shows "svc_online E s' = svc_online E s \<and> store_inv inv s'"
proof (cases "svc_telemetry s")
  case None
  with assms show ?thesis by (simp add: publishTelemetry_def)
next
  case (Some t)
  obtain t' h w where p: "publishSample M (env_local_time E) (t, svc_heap s) (svc_world s) = (r, (t', h), w)"
    and s': "s' = s\<lparr>svc_telemetry := Some t', svc_heap := h, svc_world := w\<rparr>"
    using assms Some by (auto simp: publishTelemetry_def split: prod.splits)
  have "\<forall>a. inv (svc_heap s a)" using assms(1) by (simp add: store_inv_def)
  from publishSample_store [OF this p] assms(2) s' show ?thesis
    by (simp add: svc_online_def store_inv_def split: option.split)
qed

lemma loop_token_online:
  assumes "store_inv inv s" and "env_ops E = M" and "loop_token E s = (go, s')"
  shows "svc_online E s' = svc_online E s \<and> store_inv inv s'"
  using loop_token_facts [OF assms(3)] assms(1) store_online_cong [of s' s E inv]
  by (simp add: same_control_def)

lemma loop_connection_online:
  assumes "store_inv inv s" and "env_ops E = M" and "loop_connection E s = (go, s')"
  shows "svc_online E s' = go \<and> store_inv inv s'"
proof -
  let ?s1 = "svc_say E Warning ''Connection lost; attempting reconnect'' 102 (set_state Reconnecting s)"
  obtain ok s2 where r: "svc_reconnect E ?s1 = (ok, s2)" by fastforce
  from svc_reconnect_online [OF _ assms(2) r] assms(1)
  have "svc_online E s2 = ok" "store_inv inv s2" by simp_all
  with assms r show ?thesis by (auto simp: loop_connection_def split: if_splits)
qed

lemma loop_publish_online:
  assumes "store_inv inv s" and "env_ops E = M"
  shows "svc_online E (loop_publish E s) = svc_online E s \<and> store_inv inv (loop_publish E s)"
proof -
  obtain r s1 where p: "publishTelemetry E s = (r, s1)" by fastforce
  from publishTelemetry_online [OF assms p] p show ?thesis by (simp add: loop_publish_def)
qed

lemma loop_body_store:
  assumes "store_inv inv s" and "env_ops E = M"
  shows "store_inv inv (loop_body E s)"
proof (cases rule: loop_body_cases [where E = E and s = s])
  case (token s1)
  then show ?thesis using loop_token_online [OF assms token(1)] by simp
next
  case (offline s1 s2)
  then show ?thesis
    using loop_token_online [OF assms offline(1)] loop_connection_online [OF _ assms(2) offline(2)]
    by simp
next
  case (publish s1 s2)
  then show ?thesis
    using loop_token_online [OF assms publish(1)] loop_connection_online [OF _ assms(2) publish(2)]
      loop_publish_online [OF _ assms(2), of s2]
    by simp
qed

lemma loop_bodies_store:
  assumes "store_inv inv s" and "env_ops E = M"
  shows "store_inv inv ((loop_body E ^^ n) s)"
  by (induction n) (simp_all add: assms loop_body_store)

lemma runLoop_offline:
  assumes "store_inv inv s" and "env_ops E = M"
  shows "\<not> svc_online E (runLoop E n s)"
  using svc_disconnect_offline [OF loop_bodies_store [OF assms] assms(2)]
  by (simp add: runLoop_iterate loop_exit_def)

end

section \<open>Starting\<close>

lemma svc_authenticate_session:
  "svc_authenticate E s = (True, s') \<Longrightarrow> \<exists>ac. svc_auth s' = Some ac \<and> ac_token ac \<noteq> []"
  by (auto simp: svc_authenticate_def dest: authenticate_true split: option.splits prod.splits)

text \<open>What a refused login leaves: no client, a client without a backend as it was, or no token.\<close>

definition login_refused :: "'w AuthClient option \<Rightarrow> 'w AuthClient option \<Rightarrow> bool" where
  "login_refused a a' \<longleftrightarrow>
     (case a of
        None \<Rightarrow> a' = None
      | Some ac \<Rightarrow> (\<exists>ac'. a' = Some ac' \<and> (if ac_backend ac = None then ac' = ac else ac_token ac' = [])))"

definition has_token :: "('c, 'w) service \<Rightarrow> bool" where
  "has_token s \<longleftrightarrow> (\<exists>ac. svc_auth s = Some ac \<and> ac_token ac \<noteq> [])"

lemma has_token_auth: "svc_auth s' = svc_auth s \<Longrightarrow> has_token s' = has_token s"
  by (simp add: has_token_def)

lemma svc_authenticate_refused:
  "svc_authenticate E s = (False, s') \<Longrightarrow> login_refused (svc_auth s) (svc_auth s')"
  by (auto simp: svc_authenticate_def login_refused_def AuthClient_authenticate_def
      split: option.splits prod.splits if_splits)

lemma service_start_cases:
  fixes E :: "('c, 'w) env" and s :: "('c, 'w) service"
  assumes "\<not> svc_running s"
  obtains (denied) s2 where
      "svc_authenticate E (svc_say E Info ''Starting connectivity service'' 29
         (set_state Starting (s\<lparr>svc_running := True\<rparr>))) = (False, s2)"
      "service_start E s = ((False, False),
         (set_state Disconnected (svc_say E Error ''Authentication failed'' 32 s2))
           \<lparr>svc_running := False\<rparr>)"
  | (offline) s2 s4 where
      "svc_authenticate E (svc_say E Info ''Starting connectivity service'' 29
         (set_state Starting (s\<lparr>svc_running := True\<rparr>))) = (True, s2)"
      "svc_connect E (svc_say E Info ''Authentication succeeded'' 39 (set_state Authenticating s2))
         = (False, s4)"
      "service_start E s = ((False, False),
         (set_state Disconnected (svc_say E Error ''MQTT connection failed'' 42 s4))
           \<lparr>svc_running := False\<rparr>)"
  | (launched) s2 s4 where
      "svc_authenticate E (svc_say E Info ''Starting connectivity service'' 29
         (set_state Starting (s\<lparr>svc_running := True\<rparr>))) = (True, s2)"
      "svc_connect E (svc_say E Info ''Authentication succeeded'' 39 (set_state Authenticating s2))
         = (True, s4)"
      "service_start E s = ((True, True), set_state Publishing
         (svc_say E Info ''Cloud transport established'' 49 (set_state Connected s4)))"
proof -
  let ?s1 = "svc_say E Info ''Starting connectivity service'' 29
         (set_state Starting (s\<lparr>svc_running := True\<rparr>))"
  obtain ok s2 where a: "svc_authenticate E ?s1 = (ok, s2)" by fastforce
  obtain ok2 s4 where c: "svc_connect E (svc_say E Info ''Authentication succeeded'' 39
      (set_state Authenticating s2)) = (ok2, s4)" by fastforce
  consider "\<not> ok" | "ok" "\<not> ok2" | "ok" "ok2" by blast
  then show thesis
  proof cases
    case 1
    with a assms show thesis by (intro denied [of s2]) (simp_all add: service_start_def Let_def)
  next
    case 2
    with a c assms show thesis by (intro offline [of s2 s4]) (simp_all add: service_start_def Let_def)
  next
    case 3
    with a c assms show thesis by (intro launched [of s2 s4]) (simp_all add: service_start_def Let_def)
  qed
qed

lemma service_start_auth:
  assumes "\<not> svc_running s" and "service_start E s = ((r, launch), s')"
  shows "launch = r \<and> svc_running s' = r \<and>
    svc_state s' = (if r then Publishing else Disconnected) \<and>
    svc_mqtt s' = svc_mqtt s \<and> svc_telemetry s' = svc_telemetry s \<and>
    (r \<longrightarrow> (\<exists>ac. svc_auth s' = Some ac \<and> ac_token ac \<noteq> []))"
using assms(1)
proof (cases rule: service_start_cases [where E = E])
  case (denied s2)
  have "svc_mqtt s2 = svc_mqtt s" "svc_telemetry s2 = svc_telemetry s"
    using svc_authenticate_frame [OF denied(1)] by (simp_all add: same_control_def)
  with assms(2) denied(2) show ?thesis by clarsimp
next
  case (offline s2 s4)
  have "svc_mqtt s2 = svc_mqtt s" "svc_telemetry s2 = svc_telemetry s"
    using svc_authenticate_frame [OF offline(1)] by (simp_all add: same_control_def)
  then have "svc_mqtt s4 = svc_mqtt s" "svc_telemetry s4 = svc_telemetry s"
    using svc_connect_frame [OF offline(2)] by (simp_all add: same_control_def)
  with assms(2) offline(3) show ?thesis by clarsimp
next
  case (launched s2 s4)
  have "svc_mqtt s2 = svc_mqtt s" "svc_telemetry s2 = svc_telemetry s"
      "svc_running s2"
    using svc_authenticate_frame [OF launched(1)] by (simp_all add: same_control_def)
  then have "svc_mqtt s4 = svc_mqtt s" "svc_telemetry s4 = svc_telemetry s" "svc_running s4"
      "svc_auth s4 = svc_auth s2"
    using svc_connect_frame [OF launched(2)] by (simp_all add: same_control_def)
  with assms(2) launched(3) svc_authenticate_session [OF launched(1)] show ?thesis by clarsimp
qed

context mqtt_client
begin

lemma service_start_branches:
  assumes "store_inv inv s" and "env_ops E = M" and "\<not> svc_running s"
    and "service_start E s = ((r, launch), s')"
  shows "store_inv inv s' \<and>
    (r \<and> has_token s' \<and> svc_online E s' \<or> \<not> r \<and> has_token s' \<and> \<not> svc_online E s' \<or>
     \<not> r \<and> login_refused (svc_auth s) (svc_auth s') \<and> svc_heap s' = svc_heap s \<and>
       svc_online E s' = svc_online E s)"
using assms(3)
proof (cases rule: service_start_cases [where E = E])
  case (denied s2)
  have same: "svc_heap s2 = svc_heap s" "svc_mqtt s2 = svc_mqtt s"
    using svc_authenticate_frame [OF denied(1)] by (simp_all add: same_control_def)
  moreover from same have "svc_online E s2 = svc_online E s" by (simp add: svc_online_def split: option.split)
  moreover have "login_refused (svc_auth s) (svc_auth s2)"
    using svc_authenticate_refused [OF denied(1)] by simp
  ultimately show ?thesis using denied(2) assms(1,4) by (auto simp: store_inv_def)
next
  case (offline s2 s4)
  have "store_inv inv s2"
    using svc_authenticate_frame [OF offline(1)] assms(1) by (simp add: store_inv_def)
  then have "\<not> svc_online E s4" "store_inv inv s4"
    using svc_connect_online [OF _ assms(2) offline(2)] by simp_all
  moreover have "has_token s2"
    using svc_authenticate_session [OF offline(1)] by (simp add: has_token_def)
  then have "has_token s4"
    using svc_connect_frame [OF offline(2)] by (simp add: has_token_def)
  ultimately show ?thesis using offline(3) assms(4) by (auto simp: has_token_def)
next
  case (launched s2 s4)
  have "store_inv inv s2"
    using svc_authenticate_frame [OF launched(1)] assms(1) by (simp add: store_inv_def)
  then have "svc_online E s4" "store_inv inv s4"
    using svc_connect_online [OF _ assms(2) launched(2)] by simp_all
  moreover have "has_token s2"
    using svc_authenticate_session [OF launched(1)] by (simp add: has_token_def)
  then have "has_token s4"
    using svc_connect_frame [OF launched(2)] by (simp add: has_token_def)
  ultimately show ?thesis using launched(3) assms(4) by (auto simp: has_token_def)
qed

end

section \<open>Properties\<close>

text \<open>C32: What \<open>start\<close> does on every branch, for every client that meets the contract of
  \<open>IMqttClient\<close>. A running service answers true, launches no second worker and changes nothing.
  Otherwise the running flag, the result and the launch of a worker agree, the state is \<open>Publishing\<close> or
  \<open>Disconnected\<close>, and one of three things has happened: the start succeeded, with a token and the
  transport connected; the connection failed, with a token and the transport down; or the login
  was refused, with no token left (or no client, or a client without a backend that is as it was) and
  the transport never touched. The telemetry queue is untouched on all of them.\<close>

theorem service_start_outcome:
  assumes "mqtt_client (env_ops E) I" and "store_inv I s" and "service_start E s = ((r, launch), s')"
  shows "store_inv I s' \<and> svc_telemetry s' = svc_telemetry s \<and>
    (if svc_running s then r \<and> \<not> launch \<and> s' = s
     else launch = r \<and> svc_running s' = r \<and> svc_state s' = (if r then Publishing else Disconnected) \<and>
       (r \<and> has_token s' \<and> svc_online E s' \<or> \<not> r \<and> has_token s' \<and> \<not> svc_online E s' \<or>
        \<not> r \<and> login_refused (svc_auth s) (svc_auth s') \<and> svc_heap s' = svc_heap s \<and>
          svc_online E s' = svc_online E s))"
proof (cases "svc_running s")
  case True
  with assms(2,3) show ?thesis by (simp add: service_start_def)
next
  case False
  from service_start_auth [OF False assms(3)]
    mqtt_client.service_start_branches [OF assms(1,2) refl False assms(3)] False show ?thesis by simp
qed

text \<open>A service over the TCP client of \<open>Someip_Client\<close>, with a backend that issues one token.\<close>

definition demo_env :: "(SomeipClient, byte list list) env" where
  "demo_env =
     \<lparr>env_ops = someip_client_ops demo_sockets, env_now = (\<lambda>w. (0, w)),
      env_local_time = demo_wall, env_sleep = (\<lambda>secs w. w), env_file = ''s.cpp''\<rparr>"

definition demo_auth :: "string \<Rightarrow> byte list list AuthClient" where
  "demo_auth tok =
     \<lparr>ac_backend = Some (const_backend tok 60), ac_vehicle_id = ''V'', ac_vehicle_secret = ''S'',
      ac_token = [], ac_expires_at = 0\<rparr>"

definition demo_service :: "string \<Rightarrow> (SomeipClient, byte list list) service" where
  "demo_service tok =
     ConnectivityService_new (Some (demo_auth tok)) (Some 0)
       (Some (TelemetryManager_new ''V'' (Some 0))) \<lparr>log_path = ''l''\<rparr>
       (\<lambda>_. SomeipClient_new SomeipConfig_default) demo_io []"

lemma demo_store: "store_inv someip_inv (demo_service tok)"
  by (simp add: store_inv_def demo_service_def ConnectivityService_new_def someip_inv_def
      SomeipClient_new_def kInvalidSocketFd_def)

lemma demo_env_ops: "env_ops demo_env = someip_client_ops demo_sockets"
  by (simp add: demo_env_def)

lemma demo_contract: "mqtt_client (env_ops demo_env) someip_inv"
  by (simp add: demo_env_def someip.mqtt_client_axioms)

lemma demo_start:
  "\<not> svc_running (demo_service tok)"
  "service_start demo_env (demo_service tok) =
     ((tok \<noteq> [], tok \<noteq> []), snd (service_start demo_env (demo_service tok)))"
proof -
  have "fst (service_start demo_env (demo_service tok)) = (tok \<noteq> [], tok \<noteq> [])"
    by (simp add: service_start_def demo_service_def ConnectivityService_new_def svc_authenticate_def
        svc_connect_def svc_on_client_def demo_env_def demo_auth_def const_backend_def svc_say_def
        demo_wall_def set_state_def AuthClient_authenticate_def SomeipClient_connect_def
        SomeipClient_new_def SomeipConfig_default_def demo_sockets_def Let_def)
  then show "service_start demo_env (demo_service tok) =
     ((tok \<noteq> [], tok \<noteq> []), snd (service_start demo_env (demo_service tok)))"
    by (cases "service_start demo_env (demo_service tok)") simp
qed (simp add: demo_service_def ConnectivityService_new_def)

theorem service_start_outcome_witness:
  "svc_state (snd (service_start demo_env (demo_service ''jwt''))) = Publishing \<and>
   svc_state (snd (service_start demo_env (demo_service []))) = Disconnected"
  using service_start_outcome [OF demo_contract demo_store demo_start(2), of "''jwt''"]
    service_start_outcome [OF demo_contract demo_store demo_start(2), of "[]"] demo_start(1) by simp

text \<open>C33: One pass through the loop body ends in one of two ways. Either the token could not be
  refreshed or the client could not be reconnected: then nothing is published or queued and the
  state is \<open>Disconnected\<close>. Or the client is online at the end of the pass and \<open>publishTelemetry\<close> was
  called once, with the client online at that moment; the state is then unchanged, \<open>Publishing\<close>
  (the token was refreshed) or \<open>Connected\<close> (the client was reconnected).\<close>

theorem loop_body_outcome:
  assumes "mqtt_client (env_ops E) I" and "store_inv I s"
  shows "(svc_telemetry (loop_body E s) = svc_telemetry s \<and>
      svc_state (loop_body E s) = Disconnected \<and>
      (svc_heap (loop_body E s) = svc_heap s \<or> \<not> svc_online E (loop_body E s)))
    \<or> (\<exists>s1 s2. svc_online E s1 \<and> publishTelemetry E s1 = (svc_telemetry s \<noteq> None, s2) \<and>
      svc_telemetry s1 = svc_telemetry s \<and>
      svc_telemetry (loop_body E s) = svc_telemetry s2 \<and> svc_heap (loop_body E s) = svc_heap s2 \<and>
      svc_online E (loop_body E s) \<and>
      svc_state (loop_body E s) = (if \<not> svc_online E s then Connected
        else if fst (svc_needs_token E s) then Publishing else svc_state s))"
proof (cases rule: loop_body_cases [where E = E and s = s])
  case (token s1)
  then show ?thesis using loop_token_facts [OF token(1)] by simp
next
  case (offline s1 s2)
  then show ?thesis
    using loop_token_facts [OF offline(1)] loop_connection_facts [OF offline(2)]
      mqtt_client.loop_token_online [OF assms refl offline(1)]
      mqtt_client.loop_connection_online [OF assms(1) _ refl offline(2)] by simp
next
  case (publish s1 s2)
  note t = loop_token_facts [OF publish(1)] mqtt_client.loop_token_online [OF assms refl publish(1)]
  then have inv1: "store_inv I s1" by simp
  note c = loop_connection_facts [OF publish(2)]
    mqtt_client.loop_connection_online [OF assms(1) inv1 refl publish(2)]
  then have inv2: "store_inv I s2" by simp
  note p = loop_publish_facts [of E s2, OF refl]
    mqtt_client.loop_publish_online [OF assms(1) inv2 refl]
  from p(1) obtain s3 where "publishTelemetry E s2 = (svc_telemetry s2 \<noteq> None, s3)"
    "svc_telemetry (loop_publish E s2) = svc_telemetry s3"
    "svc_heap (loop_publish E s2) = svc_heap s3" by blast
  with t c p publish(3) show ?thesis
    by (intro disjI2 exI [of _ s2] exI [of _ s3]) simp
qed

lemma demo_pass_denied:
  "svc_heap (loop_body demo_env (demo_service [])) = (\<lambda>_. SomeipClient_new SomeipConfig_default)"
  by (simp add: loop_body_def loop_token_def svc_needs_token_def svc_refresh_def demo_service_def
      ConnectivityService_new_def demo_env_def demo_auth_def const_backend_def svc_say_def
      demo_wall_def set_state_def AuthClient_refreshToken_def AuthClient_authenticate_def
      AuthClient_isTokenValid_def svc_sleep_def)

theorem loop_body_outcome_witness:
  "svc_state (loop_body demo_env (demo_service [])) = Disconnected \<and>
   svc_telemetry (loop_body demo_env (demo_service [])) = svc_telemetry (demo_service [])"
proof -
  have "\<not> svc_online demo_env (loop_body demo_env (demo_service []))"
    by (simp add: svc_online_def demo_pass_denied demo_env_ops SomeipClient_isConnected_def
        SomeipClient_new_def kInvalidSocketFd_def split: option.split)
  with loop_body_outcome [OF demo_contract demo_store, of "[]"] show ?thesis by blast
qed

text \<open>\<open>publishTelemetry\<close> reports failure only when there is no telemetry manager: a sample that
  could not be sent is queued and counts as success. The warning of \<open>runLoop\<close> that a publication
  was queued for later is therefore never printed for a queued sample.\<close>

theorem publishTelemetry_succeeds_iff:
  "fst (publishTelemetry E s) \<longleftrightarrow> svc_telemetry s \<noteq> None"
  using publishTelemetry_result [of E s] by (cases "publishTelemetry E s") simp

lemma loop_bodies_pending:
  "svc_telemetry s = Some t \<Longrightarrow>
     \<exists>t' ms. svc_telemetry ((loop_body E ^^ n) s) = Some t' \<and> tl_pending t' = tl_pending t @ ms \<and>
       length ms \<le> n"
proof (induction n)
  case 0
  then show ?case by simp
next
  case (Suc n)
  then obtain t1 ms where 1: "svc_telemetry ((loop_body E ^^ n) s) = Some t1"
    "tl_pending t1 = tl_pending t @ ms" "length ms \<le> n" by blast
  from loop_body_pending [OF 1(1), of E] obtain t2 ms' where
    "svc_telemetry ((loop_body E ^^ Suc n) s) = Some t2" "tl_pending t2 = tl_pending t1 @ ms'"
    "length ms' \<le> 1" by auto
  with 1 show ?case by (intro exI [of _ t2] exI [of _ "ms @ ms'"]) simp
qed

lemma loop_exit_telemetry [simp]: "svc_telemetry (loop_exit E s) = svc_telemetry s"
  using svc_on_client_frame [of "m_disconnect (env_ops E)" s]
  by (cases "svc_on_client (m_disconnect (env_ops E)) s") (simp add: loop_exit_def svc_disconnect_def)

text \<open>The service never sends a queued sample: whatever the connection does, running the loop
  for \<open>n\<close> passes and stopping it leaves the queue it started with as a prefix of the queue, with at
  most \<open>n\<close> samples behind it.\<close>

theorem runLoop_never_flushes:
  assumes "svc_telemetry s = Some t"
  shows "\<exists>t' ms. svc_telemetry (runLoop E n s) = Some t' \<and> tl_pending t' = tl_pending t @ ms \<and>
    length ms \<le> n"
  using loop_bodies_pending [OF assms] by (simp add: runLoop_iterate)

theorem runLoop_never_flushes_witness:
  "\<exists>t' ms. svc_telemetry (runLoop demo_env 2 ((demo_service ''jwt'')\<lparr>svc_telemetry :=
       Some \<lparr>tl_vehicle_id = ''V'', tl_client = Some 0, tl_pending = [''old'']\<rparr>\<rparr>)) = Some t' \<and>
     tl_pending t' = ''old'' # ms \<and> length ms \<le> 2"
  using runLoop_never_flushes [of "(demo_service ''jwt'')\<lparr>svc_telemetry :=
       Some \<lparr>tl_vehicle_id = ''V'', tl_client = Some 0, tl_pending = [''old'']\<rparr>\<rparr>"
      "\<lparr>tl_vehicle_id = ''V'', tl_client = Some 0, tl_pending = [''old'']\<rparr>" demo_env 2]
  by simp

text \<open>However many passes the loop made and whatever happened in them, when it has been stopped
  the client is disconnected.\<close>

theorem runLoop_ends_offline:
  assumes "mqtt_client (env_ops E) I" and "store_inv I s"
  shows "\<not> svc_online E (runLoop E n s)"
  by (rule mqtt_client.runLoop_offline [OF assms refl])

theorem runLoop_ends_offline_witness:
  "\<not> svc_online demo_env (runLoop demo_env 3 (demo_service ''jwt''))"
  by (rule runLoop_ends_offline [OF demo_contract demo_store])

text \<open>An outage: the client is down and every attempt to bring it up fails.\<close>

definition outage :: "('c, 'w) env \<Rightarrow> bool" where
  "outage E \<longleftrightarrow> (\<forall>c w. \<not> res (m_reconnect (env_ops E) c w))"

lemma outage_reconnect: "outage E \<Longrightarrow> svc_reconnect E s = (r, s') \<Longrightarrow> \<not> r"
  by (auto simp: outage_def svc_reconnect_def svc_on_client_def res_def
      split: option.splits prod.splits) (metis fst_conv)

lemma outage_pass:
  assumes "mqtt_client (env_ops E) I" and "store_inv I s" and "outage E" and "\<not> svc_online E s"
  shows "svc_telemetry (loop_body E s) = svc_telemetry s \<and>
    svc_state (loop_body E s) = Disconnected \<and> \<not> svc_online E (loop_body E s)"
proof (cases rule: loop_body_cases [where E = E and s = s])
  case (token s1)
  then show ?thesis
    using loop_token_facts [OF token(1)] mqtt_client.loop_token_online [OF assms(1,2) refl token(1)]
      assms(4) by simp
next
  case (offline s1 s2)
  then show ?thesis
    using loop_token_facts [OF offline(1)] loop_connection_facts [OF offline(2)]
      mqtt_client.loop_token_online [OF assms(1,2) refl offline(1)]
      mqtt_client.loop_connection_online [OF assms(1) _ refl offline(2)] by simp
next
  case (publish s1 s2)
  then have "\<not> svc_online E s1"
    using mqtt_client.loop_token_online [OF assms(1,2) refl publish(1)] assms(4) by simp
  then have False
    using publish(2) outage_reconnect [OF assms(3)]
    by (auto simp: loop_connection_def split: prod.splits if_splits)
  then show ?thesis ..
qed

text \<open>During an outage nothing is queued: as long as the client is down and reconnecting fails,
  no number of passes produces a sample, the queue stays as it was and the state is
  \<open>Disconnected\<close>.\<close>

theorem outage_queues_nothing:
  assumes "mqtt_client (env_ops E) I" and "store_inv I s" and "outage E" and "\<not> svc_online E s"
  shows "svc_telemetry ((loop_body E ^^ Suc n) s) = svc_telemetry s \<and>
    svc_state ((loop_body E ^^ Suc n) s) = Disconnected \<and>
    \<not> svc_online E ((loop_body E ^^ Suc n) s)"
proof (induction n)
  case 0
  with outage_pass [OF assms] show ?case by simp
next
  case (Suc n)
  with outage_pass [OF assms(1) mqtt_client.loop_bodies_store [OF assms(1,2) refl] assms(3),
      of "Suc n"]
  show ?case by simp
qed

definition dead_env :: "(SomeipClient, byte list list) env" where
  "dead_env = demo_env\<lparr>env_ops := someip_client_ops (demo_sockets\<lparr>sk_socket := \<lambda>w. (-1, w)\<rparr>)\<rparr>"

theorem outage_queues_nothing_witness:
  "svc_telemetry ((loop_body dead_env ^^ Suc 9) (demo_service ''jwt'')) =
     Some (TelemetryManager_new ''V'' (Some 0))"
proof -
  have c: "mqtt_client (env_ops dead_env) someip_inv"
    by (simp add: dead_env_def someip.mqtt_client_axioms)
  have o: "outage dead_env"
    by (simp add: outage_def dead_env_def res_def SomeipClient_reconnect_def
        SomeipClient_disconnect_def SomeipClient_connect_def Let_def)
  have d: "\<not> svc_online dead_env (demo_service ''jwt'')"
    by (simp add: svc_online_def dead_env_def demo_service_def ConnectivityService_new_def
        SomeipClient_new_def SomeipClient_isConnected_def)
  from outage_queues_nothing [OF c demo_store o d, of 9] show ?thesis
    by (simp add: demo_service_def ConnectivityService_new_def)
qed

lemma online_pass:
  assumes "mqtt_client (env_ops E) I" and "store_inv I s" and "svc_online E s"
    and "\<not> fst (svc_needs_token E s)"
  shows "svc_state (loop_body E s) = svc_state s \<and> svc_online E (loop_body E s) \<and>
    svc_auth (loop_body E s) = svc_auth s"
proof -
  obtain s1 where n: "svc_needs_token E s = (False, s1)"
    using assms(4) by (cases "svc_needs_token E s") simp
  note f = svc_needs_token_frame [OF n]
  have o: "svc_online E s1" "store_inv I s1"
    using f store_online_cong [of s1 s E I] assms(2,3) by (simp_all add: same_control_def)
  have "loop_body E s = loop_publish E s1"
    using n o by (simp add: loop_body_def loop_token_def loop_connection_def)
  with loop_publish_facts [of E s1, OF refl] mqtt_client.loop_publish_online [OF assms(1) o(2) refl]
    o f show ?thesis by simp
qed

lemma reconnect_pass:
  assumes "mqtt_client (env_ops E) I" and "store_inv I s"
    and "\<not> svc_online E s" and "svc_online E (loop_body E s)"
  shows "svc_state (loop_body E s) = Connected"
proof (cases rule: loop_body_cases [where E = E and s = s])
  case (token s1)
  with mqtt_client.loop_token_online [OF assms(1,2) refl token(1)] assms(3,4) show ?thesis by simp
next
  case (offline s1 s2)
  then show ?thesis
    using mqtt_client.loop_token_online [OF assms(1,2) refl offline(1)]
      mqtt_client.loop_connection_online [OF assms(1) _ refl offline(2)] assms(4) by simp
next
  case (publish s1 s2)
  then show ?thesis
    using mqtt_client.loop_token_online [OF assms(1,2) refl publish(1)] assms(3)
      loop_connection_facts [OF publish(2)] loop_publish_facts [of E s2, OF refl] by simp
qed

lemma valid_pass_auth:
  assumes "\<not> fst (svc_needs_token E s)"
  shows "svc_auth (loop_body E s) = svc_auth s"
proof -
  obtain s1 where n: "svc_needs_token E s = (False, s1)"
    using assms by (cases "svc_needs_token E s") simp
  then have t: "loop_token E s = (True, s1)" by (simp add: loop_token_def)
  have a: "svc_auth s1 = svc_auth s" using svc_needs_token_frame [OF n] by simp
  obtain go s2 where c: "loop_connection E s1 = (go, s2)" by fastforce
  with loop_connection_facts [OF c] loop_publish_facts [of E s2, OF refl] t a show ?thesis
    by (simp add: loop_body_def)
qed

text \<open>A pass that reconnects leaves the state at \<open>Connected\<close>, and every later pass that finds a
  valid token and a live connection publishes without setting \<open>Publishing\<close>: after the first loss of
  the connection the reported state no longer shows that telemetry is being published.\<close>

theorem reconnected_state_sticks:
  assumes "mqtt_client (env_ops E) I" and "store_inv I s"
    and "\<not> svc_online E s" and "svc_online E (loop_body E s)"
    and "\<And>k. k < n \<Longrightarrow> \<not> fst (svc_needs_token E ((loop_body E ^^ Suc k) s))"
  shows "svc_state ((loop_body E ^^ Suc n) s) = Connected \<and> svc_online E ((loop_body E ^^ Suc n) s)"
  using assms(5)
proof (induction n)
  case 0
  from reconnect_pass [OF assms(1-4)] assms(4) show ?case by simp
next
  case (Suc n)
  have "store_inv I ((loop_body E ^^ Suc n) s)"
    by (rule mqtt_client.loop_bodies_store [OF assms(1,2) refl])
  from online_pass [OF assms(1) this _ Suc.prems] Suc show ?case by simp
qed

definition lost_service :: "(SomeipClient, byte list list) service" where
  "lost_service = (demo_service ''jwt'')\<lparr>svc_auth :=
     Some ((demo_auth ''jwt'')\<lparr>ac_token := ''jwt'', ac_expires_at := 1\<rparr>), svc_telemetry := None\<rparr>"

lemma lost_needs_token:
  assumes "svc_auth s = svc_auth lost_service"
  shows "\<not> fst (svc_needs_token demo_env s)"
  using assms by (simp add: svc_needs_token_def lost_service_def AuthClient_isTokenValid_def demo_env_def)

lemma lost_service_facts:
  "store_inv someip_inv lost_service" "\<not> svc_online demo_env lost_service"
  "svc_online demo_env (loop_body demo_env lost_service)"
proof -
  show "store_inv someip_inv lost_service"
    using demo_store [of "''jwt''"] by (simp add: lost_service_def store_inv_def)
  show "\<not> svc_online demo_env lost_service"
    by (simp add: svc_online_def demo_env_ops lost_service_def demo_service_def
        ConnectivityService_new_def SomeipClient_new_def SomeipClient_isConnected_def)
  show "svc_online demo_env (loop_body demo_env lost_service)"
    by (simp add: loop_body_def loop_token_def svc_needs_token_def loop_connection_def
        loop_publish_def publishTelemetry_def svc_online_def lost_service_def demo_service_def
        ConnectivityService_new_def AuthClient_isTokenValid_def SomeipClient_isConnected_def
        SomeipClient_new_def SomeipConfig_default_def demo_sockets_def demo_env_def svc_say_def
        demo_wall_def set_state_def svc_reconnect_def svc_on_client_def SomeipClient_reconnect_def
        SomeipClient_disconnect_def SomeipClient_connect_def kInvalidSocketFd_def svc_sleep_def
        Let_def)
qed

lemma lost_service_auth:
  "svc_auth ((loop_body demo_env ^^ k) lost_service) = svc_auth lost_service"
  by (induction k) (simp_all add: valid_pass_auth lost_needs_token)

theorem reconnected_state_sticks_witness:
  "svc_state ((loop_body demo_env ^^ Suc 4) lost_service) = Connected"
  using reconnected_state_sticks [OF demo_contract lost_service_facts
      lost_needs_token [OF lost_service_auth], of 4] by blast

section \<open>What the service prints\<close>

type_synonym event = "LogLevel \<times> string \<times> nat"

definition event_line :: "string \<Rightarrow> tm \<Rightarrow> event \<Rightarrow> string" where
  "event_line file t ev =
     (case ev of (level, message, l) \<Rightarrow> format_line t level message \<lparr>file_name = file, line = l\<rparr>)"

text \<open>\<open>logged E evs s s'\<close>: from \<open>s\<close> to \<open>s'\<close> the console received one line per event, in order, each
  with some time stamp.\<close>

definition logged :: "('c, 'w) env \<Rightarrow> event list \<Rightarrow> ('c, 'w) service \<Rightarrow> ('c, 'w) service \<Rightarrow> bool" where
  "logged E evs s s' \<longleftrightarrow>
     (\<exists>ts. length ts = length evs \<and> stdout_text (svc_log s') =
        stdout_text (svc_log s) @ text_of_lines (map2 (event_line (env_file E)) ts evs))"

lemma logged_none: "svc_log s' = svc_log s \<Longrightarrow> logged E [] s s'"
  by (simp add: logged_def)

lemma text_of_lines_append: "text_of_lines (xs @ ys) = text_of_lines xs @ text_of_lines ys"
  by (induction xs) (simp_all add: text_of_lines_Cons)

lemma logged_trans:
  assumes "logged E as s t" and "logged E bs t u"
  shows "logged E (as @ bs) s u"
proof -
  from assms obtain ts us where "length ts = length as" "length us = length bs"
    "stdout_text (svc_log t) = stdout_text (svc_log s) @ text_of_lines (map2 (event_line (env_file E)) ts as)"
    "stdout_text (svc_log u) = stdout_text (svc_log t) @ text_of_lines (map2 (event_line (env_file E)) us bs)"
    unfolding logged_def by blast
  then show ?thesis
    by (intro logged_def [THEN iffD2] exI [of _ "ts @ us"]) (simp add: text_of_lines_append)
qed

lemma logged_say: "logged E [(level, message, l)] s (svc_say E level message l s)"
proof -
  obtain t w where "env_local_time E (svc_world s) = (t, w)" by fastforce
  then show ?thesis
    by (intro logged_def [THEN iffD2] exI [of _ "[t]"])
       (simp add: svc_say_def Logger_log_def event_line_def text_of_lines_Cons)
qed

lemma logged_same_log: "svc_log s1 = svc_log s \<Longrightarrow> svc_log t = svc_log t1 \<Longrightarrow> logged E evs s1 t1 \<Longrightarrow> logged E evs s t"
  by (simp add: logged_def)

lemma logged_then_say:
  assumes "logged E evs s t" and "svc_log u = svc_log t"
  shows "logged E (evs @ [(level, message, l)]) s (svc_say E level message l u)"
proof -
  have "logged E [(level, message, l)] t (svc_say E level message l u)"
    by (rule logged_same_log [OF assms(2) refl logged_say])
  then show ?thesis by (rule logged_trans [OF assms(1)])
qed

lemma logged_frame: "logged E evs s t \<Longrightarrow> svc_log u = svc_log t \<Longrightarrow> logged E evs s u"
  by (simp add: logged_def)

lemma start_logged_authenticate:
  assumes "svc_authenticate E (svc_say E Info ''Starting connectivity service'' 29
      (set_state Starting (s\<lparr>svc_running := True\<rparr>))) = (ok, s2)"
  shows "logged E [(Info, ''Starting connectivity service'', 29)] s s2"
proof -
  have "logged E [(Info, ''Starting connectivity service'', 29)] s
      (svc_say E Info ''Starting connectivity service'' 29 (set_state Starting (s\<lparr>svc_running := True\<rparr>)))"
    by (rule logged_same_log [OF _ refl logged_say]) simp
  then show ?thesis by (rule logged_frame) (use svc_authenticate_frame [OF assms] in simp)
qed

lemma start_logged_connect:
  assumes "logged E evs s s2"
    and "svc_connect E (svc_say E Info ''Authentication succeeded'' 39 (set_state Authenticating s2)) = (ok, s4)"
  shows "logged E (evs @ [(Info, ''Authentication succeeded'', 39)]) s s4"
proof -
  have "logged E (evs @ [(Info, ''Authentication succeeded'', 39)]) s
      (svc_say E Info ''Authentication succeeded'' 39 (set_state Authenticating s2))"
    by (rule logged_then_say [OF assms(1)]) simp
  then show ?thesis by (rule logged_frame) (use svc_connect_frame [OF assms(2)] in simp)
qed

text \<open>A call of \<open>start\<close> that is not a repetition prints two or three lines, in the order of the
  source and with its line numbers: start and authentication error, start, authentication and
  connection error, or start, authentication and transport; the third line is the informational
  one exactly when it returns true.\<close>

theorem service_start_log:
  assumes "\<not> svc_running s" and "service_start E s = ((r, launch), s')"
  shows "if r
    then logged E [(Info, ''Starting connectivity service'', 29), (Info, ''Authentication succeeded'', 39),
        (Info, ''Cloud transport established'', 49)] s s'
    else logged E [(Info, ''Starting connectivity service'', 29), (Error, ''Authentication failed'', 32)] s s'
      \<or> logged E [(Info, ''Starting connectivity service'', 29), (Info, ''Authentication succeeded'', 39),
        (Error, ''MQTT connection failed'', 42)] s s'"
  using assms(1)
proof (cases rule: service_start_cases [where E = E])
  case (denied s2)
  from logged_then_say [OF start_logged_authenticate [OF denied(1)] refl, of Error "''Authentication failed''" 32]
    denied(2) assms(2) show ?thesis by (auto intro: logged_frame)
next
  case (offline s2 s4)
  from logged_then_say [OF start_logged_connect [OF start_logged_authenticate [OF offline(1)] offline(2)] refl,
      of Error "''MQTT connection failed''" 42]
    offline(3) assms(2) show ?thesis by (auto intro: logged_frame)
next
  case (launched s2 s4)
  from logged_then_say [OF start_logged_connect [OF start_logged_authenticate [OF launched(1)] launched(2)],
      of "set_state Connected s4" Info "''Cloud transport established''" 49]
    launched(3) assms(2) show ?thesis by (auto intro: logged_frame)
qed

theorem service_start_log_witness:
  "logged demo_env [(Info, ''Starting connectivity service'', 29), (Info, ''Authentication succeeded'', 39),
     (Info, ''Cloud transport established'', 49)] (demo_service ''jwt'')
     (snd (service_start demo_env (demo_service ''jwt'')))"
  using service_start_log [OF demo_start, of "''jwt''"] by simp

end
