(* ===== verification/Fair_Runs.thy ===== *)
theory Fair_Runs
  imports Cvp_Prelude "HOL-Library.Countable"
begin

text \<open>
  Infinite runs of a system of threads, and what a fair scheduler guarantees. A system is a function
  that gives, for an actor and a state, the state after a step of that actor, or \<open>None\<close> if the actor
  cannot make one. The locale \<open>ranked\<close> is the contract of an actor that has only finitely many steps to
  make; it is interpreted on the threads of the service and of the sample program.
\<close>

section \<open>Runs\<close>

text \<open>A run: the scheduler picks an actor at every time; one that cannot make a step leaves the state
  as it is.\<close>

definition run_of :: "('a \<Rightarrow> 's \<Rightarrow> 's option) \<Rightarrow> (nat \<Rightarrow> 'a) \<Rightarrow> (nat \<Rightarrow> 's) \<Rightarrow> bool" where
  "run_of step act st \<longleftrightarrow> (\<forall>i. st (Suc i) = (case step (act i) (st i) of None \<Rightarrow> st i | Some s \<Rightarrow> s))"

text \<open>Weak fairness for a set of actors: none of them is able to make a step from some time on and yet
  never picked.\<close>

definition fair_run :: "'a set \<Rightarrow> ('a \<Rightarrow> 's \<Rightarrow> 's option) \<Rightarrow> (nat \<Rightarrow> 'a) \<Rightarrow> (nat \<Rightarrow> 's) \<Rightarrow> bool" where
  "fair_run A step act st \<longleftrightarrow> run_of step act st \<and>
     (\<forall>a\<in>A. \<forall>i. \<exists>j\<ge>i. act j = a \<or> step a (st j) = None)"

lemma run_of_step:
  "run_of step act st \<Longrightarrow> step (act i) (st i) = Some s \<Longrightarrow> st (Suc i) = s"
  "run_of step act st \<Longrightarrow> step (act i) (st i) = None \<Longrightarrow> st (Suc i) = st i"
  by (simp_all add: run_of_def)

lemma run_of_cases:
  assumes "run_of step act st"
  obtains (stay) "st (Suc i) = st i" | (step) "step (act i) (st i) = Some (st (Suc i))"
  using run_of_step [OF assms, of i] by (cases "step (act i) (st i)") auto

text \<open>What every step keeps holds from any time on at which it holds.\<close>

lemma run_keeps:
  assumes "run_of step act st" and "P (st n)" and "n \<le> j"
    and "\<And>a s s'. P s \<Longrightarrow> step a s = Some s' \<Longrightarrow> P s'"
  shows "P (st j)"
  using assms(3,2)
proof (induction j rule: dec_induct)
  case (step i)
  then show ?case using assms(4) by (metis run_of_cases [OF assms(1)])
qed

text \<open>A state in which nobody can make a step stays.\<close>

lemma run_stuck:
  assumes "run_of step act st" and "\<And>a. step a (st n) = None" and "n \<le> j"
  shows "st j = st n"
  using assms(3)
proof (induction j rule: dec_induct)
  case (step i)
  then show ?case using assms(2) run_of_step(2) [OF assms(1), of i] by simp
qed simp

section \<open>Actors with finitely many steps\<close>

text \<open>As long as \<open>I\<close> holds, a step of the actor \<open>me\<close> makes the rank fall, and no other step makes it
  rise.\<close>

locale ranked =
  fixes step :: "'a \<Rightarrow> 's \<Rightarrow> 's option" and I :: "'s \<Rightarrow> bool" and me :: 'a and rank :: "'s \<Rightarrow> nat"
  assumes mine_falls: "I s \<Longrightarrow> I s' \<Longrightarrow> step me s = Some s' \<Longrightarrow> rank s' < rank s"
    and others_keep: "I s \<Longrightarrow> I s' \<Longrightarrow> a \<noteq> me \<Longrightarrow> step a s = Some s' \<Longrightarrow> rank s' \<le> rank s"
begin

lemma rank_falls:
  assumes "run_of step act st" and "\<And>j. n \<le> j \<Longrightarrow> I (st j)" and "n \<le> i" and "i \<le> j"
  shows "rank (st j) \<le> rank (st i)"
  using assms(4)
proof (induction j rule: dec_induct)
  case (step k)
  then have I: "I (st k)" "I (st (Suc k))" using assms(2,3) by simp_all
  show ?case
    using assms(1)
  proof (cases rule: run_of_cases [where i = k])
    case stay
    with step show ?thesis by simp
  next
    case st: step
    with I mine_falls others_keep have "rank (st (Suc k)) \<le> rank (st k)"
      by (cases "act k = me") (auto intro: less_imp_le)
    with step show ?thesis by simp
  qed
qed simp

text \<open>Under fairness the actor comes to a state in which it cannot make a step.\<close>

lemma blocks:
  assumes "fair_run A step act st" and "me \<in> A" and "\<And>j. n \<le> j \<Longrightarrow> I (st j)"
  shows "\<exists>j\<ge>n. step me (st j) = None"
proof (rule ccontr)
  assume "\<not> ?thesis"
  then have able: "step me (st j) \<noteq> None" if "n \<le> j" for j using that by metis
  have run: "run_of step act st" using assms(1) by (simp add: fair_run_def)
  have False if "n \<le> i" "rank (st i) = k" for i k
    using that
  proof (induction k arbitrary: i rule: less_induct)
    case (less k)
    obtain j where "i \<le> j" "act j = me \<or> step me (st j) = None"
      using assms(1,2) by (auto simp: fair_run_def)
    with able less.prems(1) have j: "i \<le> j" "n \<le> j" "act j = me" by (metis le_trans)+
    then obtain s where s: "step me (st j) = Some s" using able by auto
    with run_of_step(1) [OF run, of j] j(3) have "st (Suc j) = s" by simp
    with s mine_falls [OF assms(3) assms(3), of j "Suc j"] j(2) have "rank (st (Suc j)) < rank (st j)" by simp
    also have "rank (st j) \<le> k" using rank_falls [OF run assms(3) less.prems(1) j(1)] less.prems(2) by simp
    finally show False using less.IH [OF _ _ refl, of "Suc j"] j(2) by simp
  qed
  then show False by blast
qed

text \<open>From some time on the rank stays the same, and the actor makes no step any more.\<close>

lemma settles:
  assumes "run_of step act st" and "\<And>j. n \<le> j \<Longrightarrow> I (st j)"
  shows "\<exists>k\<ge>n. \<forall>j\<ge>k. act j = me \<longrightarrow> st (Suc j) = st j"
proof -
  obtain k where k: "n \<le> k" "\<And>i. n \<le> i \<Longrightarrow> rank (st k) \<le> rank (st i)"
    using ex_has_least_nat [of "\<lambda>i. n \<le> i" n "\<lambda>i. rank (st i)"] by auto
  have "st (Suc j) = st j" if "k \<le> j" "act j = me" for j
    using assms(1)
  proof (cases rule: run_of_cases [where i = j])
    case step
    with that k(1) assms(2) mine_falls have "rank (st (Suc j)) < rank (st j)" by simp
    also have "\<dots> \<le> rank (st k)" using rank_falls [OF assms k(1) that(1)] .
    finally show ?thesis using k(2) [of "Suc j"] k(1) that(1) by simp
  qed simp
  with k(1) show ?thesis by blast
qed

end

text \<open>An actor that can be blocked only by one that is not done yet: while \<open>I\<close> holds, \<open>me\<close> waits for
  \<open>helper\<close>, and \<open>helper\<close> stays done once it is. Then \<open>I\<close> comes to an end.\<close>

locale joining = ranked step I me rank + helper: ranked step I helper helper_rank
  for step :: "'a \<Rightarrow> 's \<Rightarrow> 's option" and I and me and rank and helper and helper_rank +
  assumes waits_for: "I s \<Longrightarrow> step me s = None \<Longrightarrow> step helper s \<noteq> None"
    and stays_done: "I s \<Longrightarrow> I s' \<Longrightarrow> step helper s = None \<Longrightarrow> step a s = Some s' \<Longrightarrow> step helper s' = None"
begin

lemma leaves:
  assumes "fair_run A step act st" and "me \<in> A" and "helper \<in> A"
  shows "\<exists>j\<ge>n. \<not> I (st j)"
proof (rule ccontr)
  assume "\<not> ?thesis"
  then have I: "I (st j)" if "n \<le> j" for j using that by metis
  have run: "run_of step act st" using assms(1) by (simp add: fair_run_def)
  obtain k where k: "n \<le> k" "step helper (st k) = None" using helper.blocks [OF assms(1,3) I] by blast
  have over: "step helper (st j) = None" if "k \<le> j" for j
    using that
  proof (induction j rule: dec_induct)
    case base
    show ?case using k(2) .
  next
    case (step i)
    then have "I (st i)" "I (st (Suc i))" using I k(1) by simp_all
    with step.IH stays_done show ?case by (metis run_of_cases [OF run])
  qed
  obtain j where "k \<le> j" "step me (st j) = None" using blocks [OF assms(1,2), of k] I k(1) by (meson le_trans)
  with waits_for [OF I] over k(1) show False by (meson le_trans)
qed

end

section \<open>A fair scheduler\<close>

text \<open>There is a fair run from every state, for countably many actors: the schedule in which every
  actor's turn comes again and again, after the actors of a list.\<close>

primrec states_of :: "('a \<Rightarrow> 's \<Rightarrow> 's option) \<Rightarrow> (nat \<Rightarrow> 'a) \<Rightarrow> 's \<Rightarrow> nat \<Rightarrow> 's" where
  "states_of step act s 0 = s"
| "states_of step act s (Suc i) =
     (case step (act i) (states_of step act s i) of None \<Rightarrow> states_of step act s i | Some s' \<Rightarrow> s')"

definition recurring :: "(nat \<Rightarrow> 'a) \<Rightarrow> 'a list \<Rightarrow> nat \<Rightarrow> 'a" where
  "recurring f pre i = (if i < length pre then pre ! i else f (fst (prod_decode i)))"

lemma fair_run_exists:
  assumes "\<And>a. a \<in> A \<Longrightarrow> \<exists>n. a = f n"
  shows "fair_run A step (recurring f pre) (states_of step (recurring f pre) s)"
proof -
  have "\<exists>j\<ge>i. recurring f pre j = a" if "a \<in> A" for a i
  proof -
    obtain n where n: "a = f n" using assms [OF \<open>a \<in> A\<close>] by blast
    let ?j = "prod_encode (n, i + length pre)"
    have "i + length pre \<le> ?j" by (rule le_prod_encode_2)
    with n show ?thesis by (intro exI [of _ ?j]) (simp add: recurring_def)
  qed
  then show ?thesis by (simp add: fair_run_def run_of_def) blast
qed

end
