(* ===== verification/Service_Threads.thy ===== *)
theory Service_Threads
  imports Connectivity_Service
begin

text \<open>
  \<open>ConnectivityService\<close> with its threads (\<open>src/ConnectivityService/connectivity_service.cpp\<close>): a
  small-step model in which the worker that executes \<open>runLoop\<close> and the threads that call \<open>start\<close>
  and \<open>stop\<close> interleave. A program counter is named after the source line it is about to execute;
  each step is one atomic access, one call of another object, or one log line. The interleaving is
  sequentially consistent, as the atomics of the source are.
\<close>

section \<open>The worker\<close>

datatype loop_pc =
    L85 | L86 | L87 | L88 | L89 | L90 | L91 | L93 | L94 | L95
  | L100 | L101 | L102 | L103 | L104 | L105 | L107 | L108
  | L113 | L114 | L117 | L120 | L123 | LDone

fun loop_step ::
  "('c, 'w) env \<Rightarrow> bool \<Rightarrow> loop_pc \<Rightarrow> ('c, 'w) service \<Rightarrow> loop_pc \<times> ('c, 'w) service" where
  "loop_step E stop L85 s = (if stop then L120 else L86, s)"
| "loop_step E stop L86 s =
     (case svc_needs_token E s of (needed, s') \<Rightarrow> (if needed then L87 else L100, s'))"
| "loop_step E stop L87 s = (L88, set_state Authenticating s)"
| "loop_step E stop L88 s =
     (L89, svc_say E Warning ''Token is empty or invalid; attempting to refresh token'' 88 s)"
| "loop_step E stop L89 s = (case svc_refresh E s of (ok, s') \<Rightarrow> (if ok then L90 else L93, s'))"
| "loop_step E stop L90 s = (L91, svc_say E Info ''Token refreshed successfully'' 90 s)"
| "loop_step E stop L91 s = (L100, set_state Publishing s)"
| "loop_step E stop L93 s = (L94, svc_say E Error ''Token refresh failed; retrying'' 93 s)"
| "loop_step E stop L94 s = (L95, set_state Disconnected s)"
| "loop_step E stop L95 s = (L85, svc_sleep E kReconnectDelaySec s)"
| "loop_step E stop L100 s = (if svc_online E s then L113 else L101, s)"
| "loop_step E stop L101 s = (L102, set_state Reconnecting s)"
| "loop_step E stop L102 s = (L103, svc_say E Warning ''Connection lost; attempting reconnect'' 102 s)"
| "loop_step E stop L103 s = (case svc_reconnect E s of (ok, s') \<Rightarrow> (if ok then L104 else L107, s'))"
| "loop_step E stop L104 s = (L105, set_state Connected s)"
| "loop_step E stop L105 s = (L113, svc_say E Info ''Reconnected successfully'' 105 s)"
| "loop_step E stop L107 s = (L108, set_state Disconnected s)"
| "loop_step E stop L108 s = (L85, svc_sleep E kReconnectDelaySec s)"
| "loop_step E stop L113 s = (case publishTelemetry E s of (ok, s') \<Rightarrow> (if ok then L117 else L114, s'))"
| "loop_step E stop L114 s = (L117, svc_say E Warning ''Telemetry publish queued for later'' 114 s)"
| "loop_step E stop L117 s = (L85, svc_sleep E kPublishIntervalSec s)"
| "loop_step E stop L120 s = (L123, svc_disconnect E s)"
| "loop_step E stop L123 s = (LDone, svc_say E Info ''Connectivity service loop stopped'' 123 s)"
| "loop_step E stop LDone s = (LDone, s)"

section \<open>The callers\<close>

datatype call_kind = Start | Stop

text \<open>\<open>Ready r\<close> is a caller between calls, \<open>r\<close> the last call and its result; \<open>S51_assign t\<close> has created
  thread \<open>t\<close> and is about to move it into \<open>worker_\<close>, which first stops and joins a thread that
  \<open>worker_\<close> still holds; \<open>Thrown\<close> is a call left by the \<open>system_error\<close> of \<open>join\<close>.\<close>

datatype caller_pc =
    Ready "(call_kind \<times> bool) option"
  | S24 | S28 | S29 | S31 | S32 | S33 | S34 | S38 | S39 | S41 | S42 | S43 | S44 | S48 | S49
  | S51 | S51_assign nat | S51_join nat nat | S52
  | P57 | P61 | P62 | P63 | P64 | Thrown
  | Destroy | Destroy_join nat | Destroyed

record ('c, 'w) process =
  pr_svc :: "('c, 'w) service"
  pr_worker :: "nat option"
  pr_threads :: "(loop_pc \<times> bool) list"
  pr_callers :: "caller_pc list"

definition request_stop :: "nat \<Rightarrow> ('c, 'w) process \<Rightarrow> ('c, 'w) process" where
  "request_stop t p = p\<lparr>pr_threads := (pr_threads p)[t := (fst (pr_threads p ! t), True)]\<rparr>"

definition finished :: "nat \<Rightarrow> ('c, 'w) process \<Rightarrow> bool" where
  "finished t p \<longleftrightarrow> fst (pr_threads p ! t) = LDone"

definition on_svc :: "(('c, 'w) service \<Rightarrow> ('c, 'w) service) \<Rightarrow> ('c, 'w) process \<Rightarrow> ('c, 'w) process" where
  "on_svc f p = p\<lparr>pr_svc := f (pr_svc p)\<rparr>"

text \<open>One step of a caller inside a call; \<open>None\<close> while \<open>join\<close> waits.\<close>

fun caller_step ::
  "('c, 'w) env \<Rightarrow> caller_pc \<Rightarrow> ('c, 'w) process \<Rightarrow> (caller_pc \<times> ('c, 'w) process) option" where
  "caller_step E S24 p =
     Some (if svc_running (pr_svc p) then (Ready (Some (Start, True)), p)
           else (S28, on_svc (\<lambda>s. s\<lparr>svc_running := True\<rparr>) p))"
| "caller_step E S28 p = Some (S29, on_svc (set_state Starting) p)"
| "caller_step E S29 p = Some (S31, on_svc (svc_say E Info ''Starting connectivity service'' 29) p)"
| "caller_step E S31 p =
     (case svc_authenticate E (pr_svc p) of (ok, s) \<Rightarrow>
      Some (if ok then S38 else S32, p\<lparr>pr_svc := s\<rparr>))"
| "caller_step E S32 p = Some (S33, on_svc (svc_say E Error ''Authentication failed'' 32) p)"
| "caller_step E S33 p = Some (S34, on_svc (set_state Disconnected) p)"
| "caller_step E S34 p = Some (Ready (Some (Start, False)), on_svc (\<lambda>s. s\<lparr>svc_running := False\<rparr>) p)"
| "caller_step E S38 p = Some (S39, on_svc (set_state Authenticating) p)"
| "caller_step E S39 p = Some (S41, on_svc (svc_say E Info ''Authentication succeeded'' 39) p)"
| "caller_step E S41 p =
     (case svc_connect E (pr_svc p) of (ok, s) \<Rightarrow>
      Some (if ok then S48 else S42, p\<lparr>pr_svc := s\<rparr>))"
| "caller_step E S42 p = Some (S43, on_svc (svc_say E Error ''MQTT connection failed'' 42) p)"
| "caller_step E S43 p = Some (S44, on_svc (set_state Disconnected) p)"
| "caller_step E S44 p = Some (Ready (Some (Start, False)), on_svc (\<lambda>s. s\<lparr>svc_running := False\<rparr>) p)"
| "caller_step E S48 p = Some (S49, on_svc (set_state Connected) p)"
| "caller_step E S49 p = Some (S51, on_svc (svc_say E Info ''Cloud transport established'' 49) p)"
| "caller_step E S51 p =
     Some (S51_assign (length (pr_threads p)), p\<lparr>pr_threads := pr_threads p @ [(L85, False)]\<rparr>)"
| "caller_step E (S51_assign t) p =
     Some (case pr_worker p of
             None \<Rightarrow> (S52, p\<lparr>pr_worker := Some t\<rparr>)
           | Some old \<Rightarrow> (S51_join t old, request_stop old p))"
| "caller_step E (S51_join t old) p =
     (if finished old p then Some (S52, p\<lparr>pr_worker := Some t\<rparr>) else None)"
| "caller_step E S52 p = Some (Ready (Some (Start, True)), on_svc (set_state Publishing) p)"
| "caller_step E P57 p =
     Some (if svc_running (pr_svc p) then (P61, on_svc (\<lambda>s. s\<lparr>svc_running := False\<rparr>) p)
           else (Ready (Some (Stop, True)), p))"
| "caller_step E P61 p = Some (P62, on_svc (svc_say E Info ''Stopping connectivity service'' 61) p)"
| "caller_step E P62 p =
     Some (P63, case pr_worker p of None \<Rightarrow> p | Some t \<Rightarrow> request_stop t p)"
| "caller_step E P63 p =
     (case pr_worker p of
        None \<Rightarrow> Some (Thrown, p)
      | Some t \<Rightarrow> if finished t p then Some (P64, p\<lparr>pr_worker := None\<rparr>) else None)"
| "caller_step E P64 p = Some (Ready (Some (Stop, True)), on_svc (set_state Stopped) p)"
| "caller_step E (Ready r) p = None"
| "caller_step E Thrown p = None"
| "caller_step E Destroy p =
     Some (case pr_worker p of None \<Rightarrow> (Destroyed, p) | Some t \<Rightarrow> (Destroy_join t, request_stop t p))"
| "caller_step E (Destroy_join t) p =
     (if finished t p then Some (Destroyed, p\<lparr>pr_worker := None\<rparr>) else None)"
| "caller_step E Destroyed p = None"

section \<open>Interleavings\<close>

text \<open>The scheduler's choices. \<open>publishTelemetry\<close>, which is public, is a call in one step.\<close>

datatype choice =
  Worker nat | Caller nat | CallStart nat | CallStop nat | CallPublish nat | CallDestroy nat

fun is_ready :: "caller_pc \<Rightarrow> bool" where
  "is_ready (Ready r) = True"
| "is_ready pc = False"

fun sched :: "('c, 'w) env \<Rightarrow> choice \<Rightarrow> ('c, 'w) process \<Rightarrow> ('c, 'w) process option" where
  "sched E (Worker i) p =
     (if i < length (pr_threads p) \<and> \<not> finished i p
      then (case loop_step E (snd (pr_threads p ! i)) (fst (pr_threads p ! i)) (pr_svc p) of (pc, s) \<Rightarrow>
             Some (p\<lparr>pr_svc := s, pr_threads := (pr_threads p)[i := (pc, snd (pr_threads p ! i))]\<rparr>))
      else None)"
| "sched E (Caller j) p =
     (if j < length (pr_callers p)
      then (case caller_step E (pr_callers p ! j) p of
              None \<Rightarrow> None
            | Some (pc, p') \<Rightarrow> Some (p'\<lparr>pr_callers := (pr_callers p)[j := pc]\<rparr>))
      else None)"
| "sched E (CallStart j) p =
     (if j < length (pr_callers p) \<and> is_ready (pr_callers p ! j)
      then Some (p\<lparr>pr_callers := (pr_callers p)[j := S24]\<rparr>) else None)"
| "sched E (CallStop j) p =
     (if j < length (pr_callers p) \<and> is_ready (pr_callers p ! j)
      then Some (p\<lparr>pr_callers := (pr_callers p)[j := P57]\<rparr>) else None)"
| "sched E (CallPublish j) p =
     (if j < length (pr_callers p) \<and> is_ready (pr_callers p ! j)
      then Some (on_svc (\<lambda>s. snd (publishTelemetry E s)) p) else None)"
| "sched E (CallDestroy j) p =
     (if j < length (pr_callers p) \<and> is_ready (pr_callers p ! j)
      then Some (p\<lparr>pr_callers := (pr_callers p)[j := Destroy]\<rparr>) else None)"

inductive proc_step :: "('c, 'w) env \<Rightarrow> ('c, 'w) process \<Rightarrow> ('c, 'w) process \<Rightarrow> bool" for E where
  proc_step: "sched E ch p = Some p' \<Longrightarrow> proc_step E p p'"

inductive proc_reach :: "('c, 'w) env \<Rightarrow> ('c, 'w) process \<Rightarrow> ('c, 'w) process \<Rightarrow> bool" for E p0 where
  reach_start: "proc_reach E p0 p0"
| reach_step: "proc_reach E p0 p \<Longrightarrow> proc_step E p p' \<Longrightarrow> proc_reach E p0 p'"

inductive_cases proc_stepE: "proc_step E p p'"

text \<open>A process around a fresh service, with \<open>n\<close> threads that may call it.\<close>

definition launch :: "nat \<Rightarrow> ('c, 'w) service \<Rightarrow> ('c, 'w) process" where
  "launch n s = \<lparr>pr_svc = s, pr_worker = None, pr_threads = [], pr_callers = replicate n (Ready None)\<rparr>"

fun run_schedule :: "('c, 'w) env \<Rightarrow> choice list \<Rightarrow> ('c, 'w) process \<Rightarrow> ('c, 'w) process option" where
  "run_schedule E [] p = Some p"
| "run_schedule E (ch # chs) p =
     (case sched E ch p of None \<Rightarrow> None | Some p' \<Rightarrow> run_schedule E chs p')"

lemma run_schedule_reach:
  "proc_reach E p0 p \<Longrightarrow> run_schedule E chs p = Some p' \<Longrightarrow> proc_reach E p0 p'"
proof (induction chs arbitrary: p)
  case Nil
  then show ?case by simp
next
  case (Cons ch chs)
  then obtain p1 where 1: "sched E ch p = Some p1" "run_schedule E chs p1 = Some p'"
    by (auto split: option.splits)
  have "proc_reach E p0 p1" by (rule reach_step [OF Cons.prems(1) proc_step [OF 1(1)]])
  from Cons.IH [OF this 1(2)] show ?case .
qed

section \<open>The worker on its own\<close>

text \<open>The worker alone, with fuel, when the stop token is seen set at the test after \<open>n\<close> passes.\<close>

fun worker_run ::
  "('c, 'w) env \<Rightarrow> nat \<Rightarrow> nat \<Rightarrow> loop_pc \<Rightarrow> ('c, 'w) service \<Rightarrow> loop_pc \<times> ('c, 'w) service" where
  "worker_run E 0 n pc s = (pc, s)"
| "worker_run E (Suc fuel) n pc s =
     (if pc = LDone then (pc, s)
      else case loop_step E (n = 0) pc s of
        (pc', s') \<Rightarrow> worker_run E fuel (if pc = L85 then n - 1 else n) pc' s')"

lemma worker_run_done: "worker_run E fuel n LDone s = (LDone, s)"
  by (cases fuel) simp_all

lemma worker_run_token:
  assumes "loop_token E s = (go, s')"
  shows "\<exists>k \<le> 7. \<forall>fuel n. worker_run E (k + fuel) n L86 s = worker_run E fuel n (if go then L100 else L85) s'"
proof -
  obtain needed s1 where n: "svc_needs_token E s = (needed, s1)" by fastforce
  let ?s1 = "svc_say E Warning ''Token is empty or invalid; attempting to refresh token'' 88
     (set_state Authenticating s1)"
  obtain ok s2 where r: "svc_refresh E ?s1 = (ok, s2)" by fastforce
  consider "\<not> needed" | "needed" "ok" | "needed" "\<not> ok" by blast
  then show ?thesis
  proof cases
    case 1
    with assms n show ?thesis by (intro exI [of _ 1]) (simp add: loop_token_def)
  next
    case 2
    with assms n r show ?thesis
      by (intro exI [of _ 6]) (simp add: loop_token_def numeral_eq_Suc)
  next
    case 3
    with assms n r show ?thesis
      by (intro exI [of _ 7]) (simp add: loop_token_def numeral_eq_Suc)
  qed
qed

lemma worker_run_connection:
  assumes "loop_connection E s = (go, s')"
  shows "\<exists>k \<le> 6. \<forall>fuel n. worker_run E (k + fuel) n L100 s = worker_run E fuel n (if go then L113 else L85) s'"
proof -
  let ?s1 = "svc_say E Warning ''Connection lost; attempting reconnect'' 102 (set_state Reconnecting s)"
  obtain ok s2 where r: "svc_reconnect E ?s1 = (ok, s2)" by fastforce
  consider "svc_online E s" | "\<not> svc_online E s" by blast
  then show ?thesis
  proof cases
    case 1
    with assms show ?thesis by (intro exI [of _ 1]) (simp add: loop_connection_def)
  next
    case 2
    with assms r show ?thesis
      by (intro exI [of _ 6]) (auto simp: loop_connection_def numeral_eq_Suc split: if_splits)
  qed
qed

lemma worker_run_publish:
  "\<exists>k \<le> 3. \<forall>fuel n. worker_run E (k + fuel) n L113 s = worker_run E fuel n L85 (loop_publish E s)"
proof -
  obtain ok s1 where p: "publishTelemetry E s = (ok, s1)" by fastforce
  show ?thesis
    using p by (intro exI [of _ "if ok then 2 else 3"]) (simp add: loop_publish_def numeral_eq_Suc)
qed

lemma worker_run_body:
  "\<exists>k \<le> 16. \<forall>fuel n. worker_run E (k + fuel) n L86 s = worker_run E fuel n L85 (loop_body E s)"
proof (cases rule: loop_body_cases [where E = E and s = s])
  case (token s1)
  from worker_run_token [OF token(1)] obtain k where
    "k \<le> 7" "\<forall>fuel n. worker_run E (k + fuel) n L86 s = worker_run E fuel n L85 s1" by auto
  with token(2) show ?thesis by (intro exI [of _ k]) simp
next
  case (offline s1 s2)
  from worker_run_token [OF offline(1)] obtain k where
    1: "k \<le> 7" "\<forall>fuel n. worker_run E (k + fuel) n L86 s = worker_run E fuel n L100 s1" by auto
  from worker_run_connection [OF offline(2)] obtain j where
    2: "j \<le> 6" "\<forall>fuel n. worker_run E (j + fuel) n L100 s1 = worker_run E fuel n L85 s2" by auto
  from 1 2 offline(3) show ?thesis by (intro exI [of _ "k + j"]) (simp add: add.assoc)
next
  case (publish s1 s2)
  from worker_run_token [OF publish(1)] obtain k where
    1: "k \<le> 7" "\<forall>fuel n. worker_run E (k + fuel) n L86 s = worker_run E fuel n L100 s1" by auto
  from worker_run_connection [OF publish(2)] obtain j where
    2: "j \<le> 6" "\<forall>fuel n. worker_run E (j + fuel) n L100 s1 = worker_run E fuel n L113 s2" by auto
  from worker_run_publish [of E s2] obtain i where
    3: "i \<le> 3" "\<forall>fuel n. worker_run E (i + fuel) n L113 s2 = worker_run E fuel n L85 (loop_publish E s2)"
    by auto
  from 1 2 3 publish(3) show ?thesis by (intro exI [of _ "k + j + i"]) (simp add: add.assoc)
qed

section \<open>Properties of the worker\<close>

text \<open>C4: The small steps of the worker implement the loop: run alone, with the stop token seen set
  after \<open>n\<close> passes, the thread ends and has done exactly \<open>n\<close> passes of the loop body followed by
  the disconnect and the last log line; \<open>17 * n + 3\<close> steps are enough.\<close>

theorem worker_refines_runLoop:
  assumes "17 * n + 3 \<le> fuel"
  shows "worker_run E fuel n L85 s = (LDone, runLoop E n s)"
  using assms
proof (induction n arbitrary: fuel s)
  case 0
  then obtain f where "fuel = Suc (Suc (Suc f))" by (auto dest!: le_Suc_ex)
  then show ?case by (simp add: worker_run_done loop_exit_def)
next
  case (Suc n)
  from worker_run_body [of E s] obtain k where
    k: "k \<le> 16" "\<forall>fuel n. worker_run E (k + fuel) n L86 s = worker_run E fuel n L85 (loop_body E s)"
    by blast
  have f: "fuel = Suc (k + (fuel - Suc k))" and le: "17 * n + 3 \<le> fuel - Suc k"
    using Suc.prems k(1) by simp_all
  have "worker_run E fuel (Suc n) L85 s = worker_run E (k + (fuel - Suc k)) n L86 s"
    by (subst f) simp
  with k(2) Suc.IH [OF le] show ?case by simp
qed

theorem worker_refines_runLoop_witness:
  "worker_run demo_env 54 3 L85 (demo_service ''jwt'') = (LDone, runLoop demo_env 3 (demo_service ''jwt''))"
  by (rule worker_refines_runLoop) simp

text \<open>How far a worker is from its end once its stop token is set.\<close>

fun loop_rank :: "loop_pc \<Rightarrow> nat" where
  "loop_rank LDone = 0" | "loop_rank L123 = 1" | "loop_rank L120 = 2" | "loop_rank L85 = 3"
| "loop_rank L95 = 4" | "loop_rank L108 = 4" | "loop_rank L117 = 4" | "loop_rank L114 = 5"
| "loop_rank L113 = 6" | "loop_rank L107 = 5" | "loop_rank L105 = 7" | "loop_rank L104 = 8"
| "loop_rank L103 = 9" | "loop_rank L102 = 10" | "loop_rank L101 = 11" | "loop_rank L100 = 12"
| "loop_rank L94 = 5" | "loop_rank L93 = 6" | "loop_rank L91 = 13" | "loop_rank L90 = 14"
| "loop_rank L89 = 15" | "loop_rank L88 = 16" | "loop_rank L87 = 17" | "loop_rank L86 = 18"

lemma loop_step_rank:
  "pc \<noteq> LDone \<Longrightarrow> loop_rank (fst (loop_step E True pc s)) < loop_rank pc"
  by (cases pc) (simp_all split: prod.split)

lemma loop_rank_bound: "loop_rank pc \<le> 18"
  by (cases pc) simp_all

section \<open>Threads under interleaving\<close>

lemma request_stop_threads [simp]:
  "length (pr_threads (request_stop u p)) = length (pr_threads p)"
  "t < length (pr_threads p) \<Longrightarrow> fst (pr_threads (request_stop u p) ! t) = fst (pr_threads p ! t)"
  "t < length (pr_threads p) \<Longrightarrow>
     snd (pr_threads (request_stop u p) ! t) = (t = u \<or> snd (pr_threads p ! t))"
  "pr_svc (request_stop u p) = pr_svc p" "pr_worker (request_stop u p) = pr_worker p"
  "pr_callers (request_stop u p) = pr_callers p"
  by (simp_all add: request_stop_def) (cases "t = u"; simp)+

lemma on_svc_sel [simp]:
  "pr_svc (on_svc f p) = f (pr_svc p)" "pr_worker (on_svc f p) = pr_worker p"
  "pr_threads (on_svc f p) = pr_threads p" "pr_callers (on_svc f p) = pr_callers p"
  by (simp_all add: on_svc_def)

lemma finished_svc [simp]: "finished t (on_svc f p) = finished t p"
  by (simp add: finished_def)

lemma caller_step_threads:
  assumes "caller_step E pc p = Some (pc', p')" and "t < length (pr_threads p)"
  shows "t < length (pr_threads p') \<and> fst (pr_threads p' ! t) = fst (pr_threads p ! t) \<and>
    (snd (pr_threads p ! t) \<longrightarrow> snd (pr_threads p' ! t))"
  using assms
  by (cases pc) (auto simp: nth_append split: if_splits option.splits prod.splits)

lemma sched_thread:
  assumes "sched E ch p = Some p'" and "t < length (pr_threads p)"
  shows "t < length (pr_threads p') \<and> (snd (pr_threads p ! t) \<longrightarrow> snd (pr_threads p' ! t)) \<and>
    (ch \<noteq> Worker t \<longrightarrow> fst (pr_threads p' ! t) = fst (pr_threads p ! t))"
proof (cases ch)
  case (Worker i)
  with assms show ?thesis by (cases "t = i") (auto split: if_splits prod.splits)
next
  case (Caller j)
  with assms obtain pc p1 where "caller_step E (pr_callers p ! j) p = Some (pc, p1)"
    and "p' = p1\<lparr>pr_callers := (pr_callers p)[j := pc]\<rparr>"
    by (auto split: if_splits option.splits)
  with caller_step_threads [OF _ assms(2)] show ?thesis by simp
qed (use assms in \<open>auto split: if_splits\<close>)

lemma sched_worker_rank:
  assumes "sched E (Worker t) p = Some p'" and "snd (pr_threads p ! t)"
  shows "loop_rank (fst (pr_threads p' ! t)) < loop_rank (fst (pr_threads p ! t))"
  using assms loop_step_rank [of "fst (pr_threads p ! t)" E "pr_svc p"]
  by (auto simp: finished_def split: if_splits prod.splits)

lemma stopped_worker_steps:
  assumes "run_schedule E chs p = Some p'" and "t < length (pr_threads p)" and "snd (pr_threads p ! t)"
  shows "snd (pr_threads p' ! t) \<and>
    loop_rank (fst (pr_threads p' ! t)) + count_list chs (Worker t) \<le> loop_rank (fst (pr_threads p ! t))"
  using assms
proof (induction chs arbitrary: p)
  case Nil
  then show ?case by simp
next
  case (Cons ch chs)
  then obtain p1 where 1: "sched E ch p = Some p1" "run_schedule E chs p1 = Some p'"
    by (auto split: option.splits)
  note th = sched_thread [OF 1(1) Cons.prems(2)]
  have rank: "loop_rank (fst (pr_threads p1 ! t)) + (if ch = Worker t then 1 else 0)
      \<le> loop_rank (fst (pr_threads p ! t))"
    using th sched_worker_rank [of E t p p1] 1(1) Cons.prems(3) by auto
  from Cons.IH [OF 1(2)] th Cons.prems(3) rank 1(1) show ?case by auto
qed

text \<open>C5: Stopping is prompt in every interleaving: once the stop token of a worker is set it never
  becomes unset, and from then on, whatever the callers and other threads do in between, the worker is
  scheduled at most 18 times before it has left the loop, disconnected the client and ended: every one
  of its steps brings it nearer to its end.\<close>

theorem stopped_worker_ends:
  assumes "run_schedule E chs p = Some p'" and "t < length (pr_threads p)" and "snd (pr_threads p ! t)"
  shows "snd (pr_threads p' ! t) \<and>
    loop_rank (fst (pr_threads p' ! t)) + count_list chs (Worker t) \<le> loop_rank (fst (pr_threads p ! t)) \<and>
    count_list chs (Worker t) \<le> 18"
  using stopped_worker_steps [OF assms] loop_rank_bound [of "fst (pr_threads p ! t)"] by auto

text \<open>No step changes the backend and the credentials of the authentication client.\<close>

definition svc_login :: "('c, 'w) service \<Rightarrow> ('w auth_backend option \<times> string \<times> string) option" where
  "svc_login s = map_option (\<lambda>ac. (ac_backend ac, ac_vehicle_id ac, ac_vehicle_secret ac)) (svc_auth s)"

lemma svc_login_simps [simp]:
  "svc_login (svc_say E lv ms l s) = svc_login s" "svc_login (set_state st s) = svc_login s"
  "svc_login (svc_sleep E n s) = svc_login s" "svc_login (s\<lparr>svc_running := b\<rparr>) = svc_login s"
  "svc_login (s\<lparr>svc_world := w\<rparr>) = svc_login s"
  by (simp_all add: svc_login_def)

lemma authenticate_credentials:
  "AuthClient_authenticate now ac w = (r, ac', w') \<Longrightarrow> ac_backend ac' = ac_backend ac \<and>
     ac_vehicle_id ac' = ac_vehicle_id ac \<and> ac_vehicle_secret ac' = ac_vehicle_secret ac"
  by (auto simp: AuthClient_authenticate_def split: option.splits prod.splits if_splits)

lemma svc_login_ops [simp]:
  "svc_login (snd (svc_authenticate E s)) = svc_login s" "svc_login (snd (svc_refresh E s)) = svc_login s"
  "svc_login (snd (svc_needs_token E s)) = svc_login s" "svc_login (snd (svc_on_client f s)) = svc_login s"
  "svc_login (snd (publishTelemetry E s)) = svc_login s"
  by (auto simp: svc_login_def svc_authenticate_def svc_refresh_def AuthClient_refreshToken_def svc_needs_token_def
      svc_on_client_def publishTelemetry_def split: option.split prod.split dest: authenticate_credentials)

lemma svc_login_links [simp]:
  "svc_login (snd (svc_connect E s)) = svc_login s" "svc_login (snd (svc_reconnect E s)) = svc_login s"
  "svc_login (svc_disconnect E s) = svc_login s"
  by (simp_all add: svc_connect_def svc_reconnect_def svc_disconnect_def)

lemma loop_step_login: "svc_login (snd (loop_step E stop pc s)) = svc_login s"
  by (cases pc) (simp_all add: case_prod_unfold)

lemma caller_step_login:
  "caller_step E pc p = Some (pc', p') \<Longrightarrow> svc_login (pr_svc p') = svc_login (pr_svc p)"
  by (cases pc) (auto simp: case_prod_unfold on_svc_def request_stop_def split: option.splits if_splits)

lemma sched_login: "sched E ch p = Some p' \<Longrightarrow> svc_login (pr_svc p') = svc_login (pr_svc p)"
  by (cases ch) (auto simp: case_prod_unfold loop_step_login split: option.splits if_splits dest: caller_step_login)

section \<open>One caller\<close>

text \<open>
  The invariant for a single calling thread that issues \<open>start\<close>, \<open>stop\<close> and \<open>publishTelemetry\<close> in
  any order. \<open>idle\<close>: no handle, every worker created so far has ended. \<open>live b t\<close>: \<open>worker_\<close>
  holds thread \<open>t\<close>, its stop token is \<open>b\<close>, every other worker has ended, and if \<open>t\<close> is past its
  disconnect the client is down.
\<close>

definition idle :: "('c, 'w) process \<Rightarrow> bool" where
  "idle p \<longleftrightarrow> pr_worker p = None \<and> (\<forall>i < length (pr_threads p). finished i p)"

definition live :: "('c, 'w) env \<Rightarrow> bool \<Rightarrow> nat \<Rightarrow> ('c, 'w) process \<Rightarrow> bool" where
  "live E b t p \<longleftrightarrow> t < length (pr_threads p) \<and> snd (pr_threads p ! t) = b \<and>
     (\<forall>i < length (pr_threads p). i \<noteq> t \<longrightarrow> finished i p) \<and>
     (fst (pr_threads p ! t) \<in> {L120, L123, LDone} \<longrightarrow> b) \<and>
     (fst (pr_threads p ! t) \<in> {L123, LDone} \<longrightarrow> \<not> svc_online E (pr_svc p))"

fun caller_inv :: "('c, 'w) env \<Rightarrow> caller_pc \<Rightarrow> ('c, 'w) process \<Rightarrow> bool" where
  "caller_inv E (Ready r) p \<longleftrightarrow>
     (if svc_running (pr_svc p)
      then \<exists>t. pr_worker p = Some t \<and> live E False t p \<and> r \<noteq> Some (Start, False) \<and>
        (\<forall>x. r \<noteq> Some (Stop, x))
      else idle p \<and> \<not> svc_online E (pr_svc p) \<and> svc_state (pr_svc p) \<in> {Stopped, Disconnected} \<and>
        r \<noteq> Some (Start, True) \<and> r \<noteq> Some (Stop, False) \<and> (r = Some (Start, False) \<longrightarrow> svc_state (pr_svc p) = Disconnected))"
| "caller_inv E S24 p \<longleftrightarrow>
     (if svc_running (pr_svc p) then \<exists>t. pr_worker p = Some t \<and> live E False t p
      else idle p \<and> \<not> svc_online E (pr_svc p))"
| "caller_inv E P57 p \<longleftrightarrow>
     (if svc_running (pr_svc p) then \<exists>t. pr_worker p = Some t \<and> live E False t p
      else idle p \<and> \<not> svc_online E (pr_svc p) \<and> svc_state (pr_svc p) \<in> {Stopped, Disconnected})"
| "caller_inv E (S51_assign t) p \<longleftrightarrow> svc_running (pr_svc p) \<and> pr_worker p = None \<and> live E False t p"
| "caller_inv E (S51_join t old) p \<longleftrightarrow> False"
| "caller_inv E S52 p \<longleftrightarrow> svc_running (pr_svc p) \<and> (\<exists>t. pr_worker p = Some t \<and> live E False t p)"
| "caller_inv E P61 p \<longleftrightarrow> \<not> svc_running (pr_svc p) \<and> (\<exists>t. pr_worker p = Some t \<and> live E False t p)"
| "caller_inv E P62 p \<longleftrightarrow> \<not> svc_running (pr_svc p) \<and> (\<exists>t. pr_worker p = Some t \<and> live E False t p)"
| "caller_inv E P63 p \<longleftrightarrow> \<not> svc_running (pr_svc p) \<and> (\<exists>t. pr_worker p = Some t \<and> live E True t p)"
| "caller_inv E P64 p \<longleftrightarrow> \<not> svc_running (pr_svc p) \<and> idle p \<and> \<not> svc_online E (pr_svc p)"
| "caller_inv E Thrown p \<longleftrightarrow> False"
| "caller_inv E Destroy p \<longleftrightarrow>
     (if svc_running (pr_svc p) then \<exists>t. pr_worker p = Some t \<and> live E False t p
      else idle p \<and> \<not> svc_online E (pr_svc p))"
| "caller_inv E (Destroy_join t) p \<longleftrightarrow> pr_worker p = Some t \<and> live E True t p"
| "caller_inv E Destroyed p \<longleftrightarrow> idle p \<and> \<not> svc_online E (pr_svc p)"
| "caller_inv E S34 p \<longleftrightarrow>
     svc_running (pr_svc p) \<and> idle p \<and> \<not> svc_online E (pr_svc p) \<and> svc_state (pr_svc p) = Disconnected"
| "caller_inv E S44 p \<longleftrightarrow>
     svc_running (pr_svc p) \<and> idle p \<and> \<not> svc_online E (pr_svc p) \<and> svc_state (pr_svc p) = Disconnected"
| "caller_inv E S48 p \<longleftrightarrow> svc_running (pr_svc p) \<and> idle p \<and> svc_online E (pr_svc p)"
| "caller_inv E S49 p \<longleftrightarrow> svc_running (pr_svc p) \<and> idle p \<and> svc_online E (pr_svc p)"
| "caller_inv E S51 p \<longleftrightarrow> svc_running (pr_svc p) \<and> idle p \<and> svc_online E (pr_svc p)"
| "caller_inv E pc p \<longleftrightarrow> svc_running (pr_svc p) \<and> idle p \<and> \<not> svc_online E (pr_svc p)"

lemma idle_svc [simp]: "idle (on_svc f p) = idle p" "idle (p\<lparr>pr_svc := s\<rparr>) = idle p"
  "idle (p\<lparr>pr_callers := cs\<rparr>) = idle p"
  by (simp_all add: idle_def finished_def)

lemma live_svc:
  "svc_online E (f (pr_svc p)) = svc_online E (pr_svc p) \<Longrightarrow> live E b t (on_svc f p) = live E b t p"
  by (simp add: live_def)

lemma live_frame [simp]:
  "live E b t (p\<lparr>pr_callers := cs\<rparr>) = live E b t p" "live E b t (p\<lparr>pr_worker := w\<rparr>) = live E b t p"
  by (simp_all add: live_def finished_def)

lemma caller_inv_frame [simp]: "caller_inv E pc (p\<lparr>pr_callers := cs\<rparr>) = caller_inv E pc p"
  by (cases pc) simp_all

lemma idle_worker: "idle p \<Longrightarrow> sched E (Worker i) p = None"
  by (auto simp: idle_def)

lemma idle_spawn:
  "idle p \<Longrightarrow> live E False (length (pr_threads p)) (p\<lparr>pr_threads := pr_threads p @ [(L85, False)]\<rparr>)"
  by (auto simp: idle_def live_def finished_def nth_append)

lemma live_stop: "live E b t p \<Longrightarrow> live E True t (request_stop t p)"
  by (auto simp: live_def finished_def)

lemma live_join: "live E b t p \<Longrightarrow> finished t p \<Longrightarrow> idle (p\<lparr>pr_worker := None\<rparr>)"
  by (auto simp: live_def idle_def finished_def)

lemma live_finished_offline: "live E b t p \<Longrightarrow> finished t p \<Longrightarrow> \<not> svc_online E (pr_svc p)"
  by (simp add: live_def finished_def)

lemma svc_disconnect_running [simp]: "svc_running (svc_disconnect E s) = svc_running s"
  using svc_on_client_frame [of "m_disconnect (env_ops E)" s]
  by (cases "svc_on_client (m_disconnect (env_ops E)) s") (simp add: svc_disconnect_def same_control_def)

lemma loop_step_running:
  "loop_step E b pc s = (pc', s') \<Longrightarrow> svc_running s' = svc_running s"
  by (cases pc) (auto simp: same_control_def split: prod.splits
      dest: svc_needs_token_frame svc_refresh_frame svc_reconnect_frame publishTelemetry_frame)

lemma loop_step_control:
  "loop_step E b pc s = (pc', s') \<Longrightarrow>
     (pc' = L120 \<longrightarrow> b) \<and> (pc' = L123 \<longrightarrow> pc = L120 \<and> s' = svc_disconnect E s) \<and>
     (pc' = LDone \<longrightarrow> pc \<in> {L123, LDone} \<and> svc_online E s' = svc_online E s)"
  by (cases pc) (auto split: prod.splits if_splits)

lemma store_inv_cong: "svc_heap t = svc_heap s \<Longrightarrow> store_inv I s \<Longrightarrow> store_inv I t"
  by (simp add: store_inv_def)

context mqtt_client
begin

lemma loop_step_store:
  assumes "store_inv inv s" and "env_ops E = M" and "loop_step E b pc s = (pc', s')"
  shows "store_inv inv s'"
  using assms svc_reconnect_online [OF assms(1,2)] publishTelemetry_online [OF assms(1,2)]
    svc_disconnect_offline [OF assms(1,2)]
  by (cases pc) (auto split: prod.splits dest: svc_needs_token_frame svc_refresh_frame
      intro: store_inv_cong [OF _ assms(1)])

lemma live_worker:
  assumes "store_inv inv (pr_svc p)" and "env_ops E = M" and "live E b t p"
    and "sched E (Worker i) p = Some p'"
  shows "live E b t p' \<and> store_inv inv (pr_svc p') \<and> svc_running (pr_svc p') = svc_running (pr_svc p) \<and>
    pr_worker p' = pr_worker p \<and> pr_callers p' = pr_callers p"
proof -
  from assms(4) have i: "i < length (pr_threads p)" "\<not> finished i p" by (auto split: if_splits)
  with assms(3) have t: "i = t" by (auto simp: live_def)
  obtain pc where pc: "pr_threads p ! t = (pc, b)"
    using assms(3) by (cases "pr_threads p ! t") (simp add: live_def)
  obtain pc' s' where st: "loop_step E b pc (pr_svc p) = (pc', s')" by fastforce
  have p': "p' = p\<lparr>pr_svc := s', pr_threads := (pr_threads p)[t := (pc', b)]\<rparr>"
    using assms(4) i t pc st by simp
  note c = loop_step_control [OF st]
  have off: "pc' \<in> {L123, LDone} \<longrightarrow> \<not> svc_online E s'"
    using c assms(3) pc svc_disconnect_offline [OF assms(1,2)] by (auto simp: live_def)
  have stop: "pc' \<in> {L120, L123, LDone} \<longrightarrow> b"
    using c assms(3) pc by (auto simp: live_def)
  have "live E b t p'"
    using assms(3) p' off stop by (auto simp: live_def finished_def)
  with p' loop_step_store [OF assms(1,2) st] loop_step_running [OF st] show ?thesis by simp
qed

lemma caller_inv_worker:
  assumes "caller_inv E pc p" and "store_inv inv (pr_svc p)" and "env_ops E = M"
    and "sched E (Worker i) p = Some p'"
  shows "caller_inv E pc p' \<and> store_inv inv (pr_svc p') \<and> pr_callers p' = pr_callers p"
proof -
  from assms(4) have ni: "\<not> idle p" by (metis idle_worker option.distinct(1))
  then obtain b t where l: "live E b t p"
    using assms(1) by (cases pc) (auto split: if_splits)
  note w = live_worker [OF assms(2,3) _ assms(4)]
  show ?thesis
    using assms(1) ni w l by (cases pc) (auto split: if_splits)
qed

end

lemma svc_authenticate_online:
  "svc_authenticate E s = (r, s') \<Longrightarrow>
     svc_online E s' = svc_online E s \<and> store_inv I s' = store_inv I s \<and> svc_running s' = svc_running s"
  using svc_authenticate_frame [of E s r s'] store_online_cong [of s' s E I] by (simp add: same_control_def)

context mqtt_client
begin

lemma caller_inv_step:
  assumes "caller_inv E pc p" and "store_inv inv (pr_svc p)" and "env_ops E = M"
    and "caller_step E pc p = Some (pc', p')"
  shows "caller_inv E pc' p' \<and> store_inv inv (pr_svc p')"
proof (cases pc)
  case S31
  obtain ok s where a: "svc_authenticate E (pr_svc p) = (ok, s)" by fastforce
  from svc_authenticate_online [OF a, of inv] a S31 assms show ?thesis by auto
next
  case S41
  obtain ok s where a: "svc_connect E (pr_svc p) = (ok, s)" by fastforce
  have "svc_running s = svc_running (pr_svc p)" using svc_connect_frame [OF a] by (simp add: same_control_def)
  with svc_connect_online [OF assms(2,3) a] a S41 assms show ?thesis by auto
next
  case S51
  with assms show ?thesis by (auto simp: idle_spawn) (simp add: idle_def)
next
  case P62
  with assms show ?thesis by (auto simp: live_stop)
next
  case Destroy
  show ?thesis
  proof (cases "pr_worker p")
    case None
    with Destroy assms show ?thesis by (auto simp: idle_def split: if_splits)
  next
    case (Some t)
    with Destroy assms show ?thesis by (auto simp: live_stop idle_def split: if_splits)
  qed
next
  case (Destroy_join t)
  then have t: "pr_worker p = Some t" "live E True t p" using assms(1) by auto
  with Destroy_join assms(4) have "finished t p" "pc' = Destroyed" "p' = p\<lparr>pr_worker := None\<rparr>"
    by (auto split: if_splits)
  with t assms(2) live_join [OF t(2)] live_finished_offline [OF t(2)] show ?thesis by simp
next
  case P63
  then obtain t where t: "pr_worker p = Some t" "live E True t p" "\<not> svc_running (pr_svc p)"
    using assms(1) by auto
  with P63 assms(4) have "finished t p" "pc' = P64" "p' = p\<lparr>pr_worker := None\<rparr>"
    by (auto split: if_splits)
  with t assms(2) live_join [OF t(2)] live_finished_offline [OF t(2)] show ?thesis by simp
qed (use assms in \<open>auto simp: live_svc idle_def split: if_splits option.splits\<close>)

lemma caller_inv_publish:
  assumes "caller_inv E (Ready r) p" and "store_inv inv (pr_svc p)" and "env_ops E = M"
  shows "caller_inv E (Ready r) (on_svc (\<lambda>s. snd (publishTelemetry E s)) p) \<and>
    store_inv inv (snd (publishTelemetry E (pr_svc p)))"
proof -
  obtain ok s where p: "publishTelemetry E (pr_svc p) = (ok, s)" by fastforce
  note o = publishTelemetry_online [OF assms(2,3) p]
  have f: "svc_running s = svc_running (pr_svc p)" "svc_state s = svc_state (pr_svc p)"
    using publishTelemetry_frame [OF p] by (simp_all add: same_control_def)
  have "live E b t (on_svc (\<lambda>s. snd (publishTelemetry E s)) p) = live E b t p" for b t
    using o p by (intro live_svc) simp
  with assms(1) o f p show ?thesis by (auto split: if_splits)
qed

lemma single_caller_step:
  assumes "pr_callers p = [pc]" and "caller_inv E pc p" and "store_inv inv (pr_svc p)"
    and "env_ops E = M" and "sched E ch p = Some p'"
  shows "\<exists>pc'. pr_callers p' = [pc'] \<and> caller_inv E pc' p' \<and> store_inv inv (pr_svc p')"
proof (cases ch)
  case (Worker i)
  with caller_inv_worker [OF assms(2-4)] assms(1,5) show ?thesis by auto
next
  case (Caller j)
  with assms(1,5) obtain pc' p1 where j: "j = 0" and s: "caller_step E pc p = Some (pc', p1)"
    and p': "p' = p1\<lparr>pr_callers := [pc']\<rparr>"
    by (auto split: if_splits option.splits)
  with caller_inv_step [OF assms(2-4) s] show ?thesis by simp
next
  case (CallStart j)
  with assms(1,5) obtain r where "pc = Ready r" and "p' = p\<lparr>pr_callers := [S24]\<rparr>"
    by (cases pc) (auto split: if_splits)
  with assms(2,3) show ?thesis by (auto split: if_splits)
next
  case (CallStop j)
  with assms(1,5) obtain r where "pc = Ready r" and "p' = p\<lparr>pr_callers := [P57]\<rparr>"
    by (cases pc) (auto split: if_splits)
  with assms(2,3) show ?thesis by (auto split: if_splits)
next
  case (CallDestroy j)
  with assms(1,5) obtain r where "pc = Ready r" and "p' = p\<lparr>pr_callers := [Destroy]\<rparr>"
    by (cases pc) (auto split: if_splits)
  with assms(2,3) show ?thesis by (auto split: if_splits)
next
  case (CallPublish j)
  with assms(1,5) obtain r where r: "pc = Ready r"
    and p': "p' = on_svc (\<lambda>s. snd (publishTelemetry E s)) p"
    by (cases pc) (auto split: if_splits)
  from caller_inv_publish [OF assms(2) [unfolded r] assms(3,4)] assms(1) r p' show ?thesis
    by (simp del: caller_inv.simps)
qed

lemma single_caller_reach:
  assumes "proc_reach E (launch 1 s) p" and "env_ops E = M" and "store_inv inv s"
    and "\<not> svc_running s" and "svc_state s = Stopped" and "\<not> svc_online E s"
  shows "\<exists>pc. pr_callers p = [pc] \<and> caller_inv E pc p \<and> store_inv inv (pr_svc p)"
  using assms(1)
proof (induction rule: proc_reach.induct)
  case reach_start
  from assms(3-6) show ?case by (simp add: launch_def idle_def)
next
  case (reach_step p p')
  from reach_step.hyps(2) obtain ch where "sched E ch p = Some p'" by (rule proc_stepE)
  with reach_step.IH single_caller_step [OF _ _ _ assms(2)] show ?case by blast
qed

end

lemma caller_inv_threads:
  assumes "caller_inv E pc p"
  shows "\<exists>t. \<forall>i < length (pr_threads p). i \<noteq> t \<longrightarrow> finished i p"
  using assms by (cases pc) (auto simp: idle_def live_def split: if_splits)

section \<open>A demonstration process\<close>

lemma demo_say_world [simp]: "svc_world (svc_say demo_env lv m l s) = svc_world s"
  by (simp add: svc_say_def demo_env_def demo_wall_def)

definition started_schedule :: "choice list" where
  "started_schedule = [CallStart 0, Caller 0, Caller 0, Caller 0, Caller 0, Caller 0, Caller 0,
     Caller 0, Caller 0, Caller 0, Caller 0, Caller 0, Caller 0]"

definition demo_login :: "(SomeipClient, byte list list) service \<Rightarrow> (SomeipClient, byte list list) service" where
  "demo_login s = s\<lparr>svc_auth := Some ((demo_auth ''jwt'')\<lparr>ac_token := ''jwt'', ac_expires_at := 60000000000\<rparr>)\<rparr>"

definition demo_link :: "(SomeipClient, byte list list) service \<Rightarrow> (SomeipClient, byte list list) service" where
  "demo_link s = s\<lparr>svc_heap := (svc_heap s)(0 := (svc_heap s 0)\<lparr>sc_socket_fd := 3, sc_connected := True\<rparr>)\<rparr>"

lemma demo_authenticate:
  "svc_auth s = Some (demo_auth ''jwt'') \<Longrightarrow> svc_authenticate demo_env s = (True, demo_login s)"
  by (simp add: svc_authenticate_def AuthClient_authenticate_def demo_auth_def const_backend_def
      demo_env_def demo_login_def nanos_def)

lemma demo_connect:
  "svc_mqtt s = Some 0 \<Longrightarrow> svc_heap s 0 = SomeipClient_new SomeipConfig_default \<Longrightarrow>
     svc_connect demo_env s = (True, demo_link s)"
  by (simp add: svc_connect_def svc_on_client_def demo_env_ops SomeipClient_connect_def
      demo_sockets_def SomeipClient_new_def demo_link_def Let_def)

lemma demo_login_sel [simp]: "svc_mqtt (demo_login s) = svc_mqtt s" "svc_heap (demo_login s) = svc_heap s"
   "svc_running (demo_login s) = svc_running s"
  by (simp_all add: demo_login_def)
lemma demo_link_sel [simp]:
  "svc_running (demo_link s) = svc_running s" "svc_mqtt (demo_link s) = svc_mqtt s"
  "svc_heap (demo_link s) 0 = (svc_heap s 0)\<lparr>sc_socket_fd := 3, sc_connected := True\<rparr>"
  by (simp_all add: demo_link_def)

lemma demo_service_sel [simp]:
  "svc_auth (demo_service tok) = Some (demo_auth tok)" "svc_mqtt (demo_service tok) = Some 0"
  "svc_heap (demo_service tok) = (\<lambda>_. SomeipClient_new SomeipConfig_default)"
  "svc_running (demo_service tok) = False"
  by (simp_all add: demo_service_def ConnectivityService_new_def)

lemma demo_started:
  "\<exists>s. run_schedule demo_env started_schedule (launch 1 (demo_service ''jwt'')) =
     Some \<lparr>pr_svc = s, pr_worker = Some 0, pr_threads = [(L85, False)],
       pr_callers = [Ready (Some (Start, True))]\<rparr> \<and> svc_running s"
  by (simp add: started_schedule_def launch_def on_svc_def demo_authenticate demo_connect)

definition stopped_schedule :: "choice list" where
  "stopped_schedule = [CallStop 0, Caller 0, Caller 0, Caller 0, Worker 0, Worker 0, Worker 0,
     Caller 0, Caller 0]"

lemma demo_stopped:
  "svc_running s \<Longrightarrow> \<exists>s'. run_schedule E stopped_schedule
     \<lparr>pr_svc = s, pr_worker = Some 0, pr_threads = [(L85, False)],
       pr_callers = [Ready (Some (Start, True))]\<rparr> =
     Some \<lparr>pr_svc = s', pr_worker = None, pr_threads = [(LDone, True)],
       pr_callers = [Ready (Some (Stop, True))]\<rparr>"
  by (simp add: stopped_schedule_def on_svc_def request_stop_def finished_def)

lemma demo_fresh:
  "\<not> svc_running (demo_service tok)" "svc_state (demo_service tok) = Stopped"
  "\<not> svc_online demo_env (demo_service tok)"
  by (simp_all add: demo_service_def ConnectivityService_new_def svc_online_def demo_env_ops
      SomeipClient_new_def SomeipClient_isConnected_def)

lemma demo_reach:
  "run_schedule E chs (launch n s) = Some p \<Longrightarrow> proc_reach E (launch n s) p"
  by (rule run_schedule_reach [OF reach_start])

lemma run_schedule_append:
  "run_schedule E (as @ bs) p =
     (case run_schedule E as p of None \<Rightarrow> None | Some p' \<Rightarrow> run_schedule E bs p')"
  by (induction as arbitrary: p) (simp_all split: option.splits)

section \<open>Properties of the threads\<close>

text \<open>C1: With a single calling thread that calls \<open>start\<close>, \<open>stop\<close> and \<open>publishTelemetry\<close> in any
  order, in every interleaving with the workers, \<open>join\<close> is never called on a thread object that is
  not joinable, so \<open>stop\<close> never throws, and at most one worker has not ended.\<close>

theorem single_caller_safe:
  assumes "mqtt_client (env_ops E) I" and "store_inv I s" and "\<not> svc_running s"
    and "svc_state s = Stopped" and "\<not> svc_online E s" and "proc_reach E (launch 1 s) p"
  shows "pr_callers p \<noteq> [Thrown] \<and>
    (\<exists>t. \<forall>i < length (pr_threads p). i \<noteq> t \<longrightarrow> finished i p)"
proof -
  from mqtt_client.single_caller_reach [OF assms(1) assms(6) refl assms(2-5)]
  obtain pc where "pr_callers p = [pc]" and inv: "caller_inv E pc p" by blast
  then have "pr_callers p \<noteq> [Thrown]" by (cases pc) simp_all
  with caller_inv_threads [OF inv] show ?thesis by blast
qed

theorem single_caller_safe_witness:
  "\<exists>p. run_schedule demo_env [CallStop 0, Caller 0, CallStart 0, Caller 0, Caller 0]
      (launch 1 (demo_service ''jwt'')) = Some p \<and> pr_callers p \<noteq> [Thrown]"
proof -
  obtain p where p: "run_schedule demo_env [CallStop 0, Caller 0, CallStart 0, Caller 0, Caller 0]
      (launch 1 (demo_service ''jwt'')) = Some p"
    using demo_fresh(1) by (simp add: launch_def)
  from single_caller_safe [OF demo_contract demo_store demo_fresh demo_reach [OF p]] p
  show ?thesis by blast
qed

text \<open>C2: For a service that starts out stopped and offline and has one calling thread: when \<open>stop\<close> has
  returned to that caller, in any interleaving with the worker, it returned true, the running flag is
  clear, every worker ever started has ended, the client is disconnected and the state is
  \<open>Stopped\<close>, or \<open>Disconnected\<close> when the last \<open>start\<close> had failed.\<close>

theorem stop_returns_stopped:
  assumes "mqtt_client (env_ops E) I" and "store_inv I s" and "\<not> svc_running s"
    and "svc_state s = Stopped" and "\<not> svc_online E s" and "proc_reach E (launch 1 s) p"
    and "pr_callers p = [Ready (Some (Stop, r))]"
  shows "r \<and> \<not> svc_running (pr_svc p) \<and> (\<forall>i < length (pr_threads p). finished i p) \<and>
    \<not> svc_online E (pr_svc p) \<and> svc_state (pr_svc p) \<in> {Stopped, Disconnected}"
proof -
  from mqtt_client.single_caller_reach [OF assms(1) assms(6) refl assms(2-5)] assms(7)
  have "caller_inv E (Ready (Some (Stop, r))) p" by auto
  then show ?thesis by (auto simp: idle_def split: if_splits)
qed

theorem stop_returns_stopped_witness:
  "\<exists>p. run_schedule demo_env (started_schedule @ stopped_schedule) (launch 1 (demo_service ''jwt'')) = Some p \<and>
     pr_threads p = [(LDone, True)] \<and> \<not> svc_online demo_env (pr_svc p)"
proof -
  obtain s where s: "run_schedule demo_env started_schedule (launch 1 (demo_service ''jwt'')) =
     Some \<lparr>pr_svc = s, pr_worker = Some 0, pr_threads = [(L85, False)],
       pr_callers = [Ready (Some (Start, True))]\<rparr>" "svc_running s"
    using demo_started by blast
  obtain s' where "run_schedule demo_env (started_schedule @ stopped_schedule) (launch 1 (demo_service ''jwt'')) =
     Some \<lparr>pr_svc = s', pr_worker = None, pr_threads = [(LDone, True)],
       pr_callers = [Ready (Some (Stop, True))]\<rparr>"
    using s demo_stopped [OF s(2), of demo_env] by (auto simp: run_schedule_append)
  with stop_returns_stopped [OF demo_contract demo_store demo_fresh demo_reach [OF this]]
  show ?thesis by simp
qed

text \<open>C3: For a service that starts out stopped and offline and has one calling thread: when \<open>start\<close> has
  returned to that caller, in any interleaving with the worker, the running flag is its result. After true
  there is exactly one worker that has not been asked to stop and has not left its loop; after
  false no worker is left, the client is down and the state is \<open>Disconnected\<close>.\<close>

theorem start_returns_running:
  assumes "mqtt_client (env_ops E) I" and "store_inv I s" and "\<not> svc_running s"
    and "svc_state s = Stopped" and "\<not> svc_online E s" and "proc_reach E (launch 1 s) p"
    and "pr_callers p = [Ready (Some (Start, r))]"
  shows "svc_running (pr_svc p) = r \<and>
    (if r then \<exists>t < length (pr_threads p). pr_worker p = Some t \<and> \<not> snd (pr_threads p ! t) \<and>
        fst (pr_threads p ! t) \<notin> {L120, L123, LDone} \<and>
        (\<forall>i < length (pr_threads p). i \<noteq> t \<longrightarrow> finished i p)
     else (\<forall>i < length (pr_threads p). finished i p) \<and> \<not> svc_online E (pr_svc p) \<and>
        svc_state (pr_svc p) = Disconnected)"
proof -
  from mqtt_client.single_caller_reach [OF assms(1) assms(6) refl assms(2-5)] assms(7)
  have "caller_inv E (Ready (Some (Start, r))) p" by auto
  then show ?thesis by (cases r) (auto simp: idle_def live_def split: if_splits)
qed

theorem start_returns_running_witness:
  "\<exists>p. run_schedule demo_env started_schedule (launch 1 (demo_service ''jwt'')) = Some p \<and>
     svc_running (pr_svc p) \<and> pr_worker p = Some 0"
proof -
  obtain s where s: "run_schedule demo_env started_schedule (launch 1 (demo_service ''jwt'')) =
     Some \<lparr>pr_svc = s, pr_worker = Some 0, pr_threads = [(L85, False)],
       pr_callers = [Ready (Some (Start, True))]\<rparr>"
    using demo_started by blast
  with start_returns_running [OF demo_contract demo_store demo_fresh demo_reach [OF s]]
  show ?thesis by simp
qed

lemma caller_inv_progress:
  assumes "caller_inv E pc p" and "pr_callers p = [pc]" and "\<not> is_ready pc" and "pc \<noteq> Destroyed"
  shows "sched E (Caller 0) p \<noteq> None \<or>
    (\<exists>t. pr_worker p = Some t \<and> snd (pr_threads p ! t) \<and> sched E (Worker t) p \<noteq> None)"
  using assms by (cases pc) (auto simp: live_def split: option.split prod.split)

text \<open>The single caller is never stuck: inside a call, until the service has been destroyed, either
  its next step is possible or it waits in a join for the worker, whose stop token is set and which
  can make a step.\<close>

theorem single_caller_progress:
  assumes "mqtt_client (env_ops E) I" and "store_inv I s" and "\<not> svc_running s"
    and "svc_state s = Stopped" and "\<not> svc_online E s" and "proc_reach E (launch 1 s) p"
    and "pr_callers p = [pc]" and "\<not> is_ready pc" and "pc \<noteq> Destroyed"
  shows "sched E (Caller 0) p \<noteq> None \<or>
    (\<exists>t. pr_worker p = Some t \<and> snd (pr_threads p ! t) \<and> sched E (Worker t) p \<noteq> None)"
proof -
  from mqtt_client.single_caller_reach [OF assms(1) assms(6) refl assms(2-5)] assms(7)
  have "caller_inv E pc p" by auto
  from caller_inv_progress [OF this assms(7-9)] show ?thesis .
qed

text \<open>C7: Destroying the service is safe: when the destructor of the single caller's service is through
  with \<open>worker_\<close>, which is destroyed before the members the worker uses, every worker has ended and
  the client is disconnected, whether \<open>stop\<close> was called before or not.\<close>

theorem destructor_joins_worker:
  assumes "mqtt_client (env_ops E) I" and "store_inv I s" and "\<not> svc_running s"
    and "svc_state s = Stopped" and "\<not> svc_online E s" and "proc_reach E (launch 1 s) p"
    and "pr_callers p = [Destroyed]"
  shows "(\<forall>i < length (pr_threads p). finished i p) \<and> pr_worker p = None \<and> \<not> svc_online E (pr_svc p)"
proof -
  from mqtt_client.single_caller_reach [OF assms(1) assms(6) refl assms(2-5)] assms(7)
  have "caller_inv E Destroyed p" by auto
  then show ?thesis by (simp add: idle_def)
qed

theorem destructor_joins_worker_witness:
  "\<exists>p. run_schedule demo_env (started_schedule @ [CallDestroy 0, Caller 0, Worker 0, Worker 0, Worker 0, Caller 0])
       (launch 1 (demo_service ''jwt'')) = Some p \<and>
     length (pr_threads p) = 1 \<and> finished 0 p \<and> svc_running (pr_svc p)"
proof -
  let ?d = "[CallDestroy 0, Caller 0, Worker 0, Worker 0, Worker 0, Caller 0]"
  obtain s where s: "run_schedule demo_env started_schedule (launch 1 (demo_service ''jwt'')) =
     Some \<lparr>pr_svc = s, pr_worker = Some 0, pr_threads = [(L85, False)],
       pr_callers = [Ready (Some (Start, True))]\<rparr>" "svc_running s"
    using demo_started by blast
  then obtain s' where p: "run_schedule demo_env (started_schedule @ ?d) (launch 1 (demo_service ''jwt'')) =
     Some \<lparr>pr_svc = s', pr_worker = None, pr_threads = [(LDone, True)], pr_callers = [Destroyed]\<rparr>"
    and r: "svc_running s'"
    by (auto simp: run_schedule_append on_svc_def request_stop_def finished_def)
  with destructor_joins_worker [OF demo_contract demo_store demo_fresh demo_reach [OF p]] show ?thesis
    by simp
qed

theorem single_caller_progress_witness:
  "\<exists>p. run_schedule demo_env (started_schedule @ [CallStop 0, Caller 0, Caller 0, Caller 0])
       (launch 1 (demo_service ''jwt'')) = Some p \<and>
     sched demo_env (Caller 0) p = None \<and> sched demo_env (Worker 0) p \<noteq> None"
proof -
  let ?stopping = "[CallStop 0, Caller 0, Caller 0, Caller 0]"
  obtain s where s: "run_schedule demo_env started_schedule (launch 1 (demo_service ''jwt'')) =
     Some \<lparr>pr_svc = s, pr_worker = Some 0, pr_threads = [(L85, False)],
       pr_callers = [Ready (Some (Start, True))]\<rparr>" "svc_running s"
    using demo_started by blast
  then obtain s' where p: "run_schedule demo_env (started_schedule @ ?stopping)
      (launch 1 (demo_service ''jwt'')) =
     Some \<lparr>pr_svc = s', pr_worker = Some 0, pr_threads = [(L85, True)], pr_callers = [P63]\<rparr>"
    by (auto simp: run_schedule_append on_svc_def request_stop_def)
  have "sched demo_env (Caller 0) \<lparr>pr_svc = s', pr_worker = Some 0, pr_threads = [(L85, True)],
      pr_callers = [P63]\<rparr> = None"
    by (simp add: finished_def)
  with single_caller_progress [OF demo_contract demo_store demo_fresh demo_reach [OF p]] p
  show ?thesis by (simp del: sched.simps)
qed

section \<open>The caller on its own\<close>

fun caller_run ::
  "('c, 'w) env \<Rightarrow> nat \<Rightarrow> caller_pc \<Rightarrow> ('c, 'w) process \<Rightarrow> caller_pc \<times> ('c, 'w) process" where
  "caller_run E 0 pc p = (pc, p)"
| "caller_run E (Suc fuel) pc p =
     (case caller_step E pc p of None \<Rightarrow> (pc, p) | Some (pc', p') \<Rightarrow> caller_run E fuel pc' p')"

lemma caller_run_ready [simp]: "caller_run E fuel (Ready r) p = (Ready r, p)"
  by (cases fuel) simp_all

text \<open>Run without interruption on a service whose worker slot is empty, the small steps of
  \<open>start\<close> compute the sequential \<open>start\<close>: same result, same service, and a new thread in the slot
  exactly when the sequential one reports a launch. Twelve steps are enough.\<close>

theorem caller_run_start:
  assumes "12 \<le> fuel" and "pr_worker p = None" and "service_start E (pr_svc p) = ((r, spawned), s')"
  shows "caller_run E fuel S24 p = (Ready (Some (Start, r)),
     p\<lparr>pr_svc := s',
       pr_threads := (if spawned then pr_threads p @ [(L85, False)] else pr_threads p),
       pr_worker := (if spawned then Some (length (pr_threads p)) else None)\<rparr>)"
proof -
  from assms(1) obtain f where "fuel = 12 + f" using le_Suc_ex by blast
  then have fuel: "fuel = Suc (Suc (Suc (Suc (Suc (Suc (Suc (Suc (Suc (Suc (Suc (Suc f)))))))))))"
    by linarith
  have p: "p\<lparr>pr_worker := None\<rparr> = p" "p\<lparr>pr_svc := x, pr_worker := None\<rparr> = p\<lparr>pr_svc := x\<rparr>" for x
    using assms(2) by (cases p; simp)+
  show ?thesis
  proof (cases "svc_running (pr_svc p)")
    case True
    with assms(3) fuel p show ?thesis by (auto simp: service_start_def)
  next
    case False
    then show ?thesis
    proof (cases rule: service_start_cases [where E = E])
      case (denied s2)
      with False assms(3) fuel p show ?thesis by (simp add: on_svc_def)
    next
      case (offline s2 s4)
      with False assms(3) fuel p show ?thesis by (simp add: on_svc_def)
    next
      case (launched s2 s4)
      with False assms(2,3) fuel show ?thesis by (simp add: on_svc_def)
    qed
  qed
qed

theorem caller_run_start_witness:
  "fst (caller_run demo_env 12 S24 (launch 1 (demo_service []))) = Ready (Some (Start, False)) \<and>
   fst (caller_run demo_env 12 S24 (launch 1 (demo_service ''jwt''))) = Ready (Some (Start, True))"
  using caller_run_start [of 12 "launch 1 (demo_service [])" demo_env False False]
    caller_run_start [of 12 "launch 1 (demo_service ''jwt'')" demo_env True True]
    demo_start(2) [of "[]"] demo_start(2) [of "''jwt''"]
  by (simp add: launch_def)

section \<open>Races\<close>

text \<open>C40: With two callers \<open>stop\<close> can throw: on any service that is not running, whatever the client
  and the backend do, there is an interleaving in which one caller has entered \<open>start\<close>, the other
  calls \<open>stop\<close>, passes the test of \<open>running_\<close> and calls \<open>join\<close> on the thread object that was never
  started.\<close>

theorem concurrent_stop_throws:
  assumes "\<not> svc_running s"
  shows "\<exists>p. proc_reach E (launch 2 s) p \<and> pr_callers p ! 1 = Thrown"
proof -
  let ?sch = "[CallStart 0, Caller 0, CallStop 1, Caller 1, Caller 1, Caller 1, Caller 1]"
  have "launch 2 s = \<lparr>pr_svc = s, pr_worker = None, pr_threads = [], pr_callers = [Ready None, Ready None]\<rparr>"
    by (simp add: launch_def numeral_2_eq_2)
  then have "\<exists>p. run_schedule E ?sch (launch 2 s) = Some p \<and> pr_callers p ! 1 = Thrown"
    using assms by (simp add: on_svc_def)
  then show ?thesis using demo_reach by blast
qed

theorem concurrent_stop_throws_witness:
  "\<exists>p. proc_reach demo_env (launch 2 (demo_service ''jwt'')) p \<and> pr_callers p ! 1 = Thrown"
  by (rule concurrent_stop_throws) (simp add: demo_service_def ConnectivityService_new_def)

text \<open>A process whose only worker runs, unasked to stop, while the flag says it does not.\<close>

definition leaked :: "('c, 'w) process \<Rightarrow> bool" where
  "leaked p \<longleftrightarrow> \<not> svc_running (pr_svc p) \<and> pr_worker p = Some 0 \<and> length (pr_threads p) = 1 \<and>
     \<not> finished 0 p \<and> \<not> snd (pr_threads p ! 0)"

definition leak_schedule :: "choice list" where
  "leak_schedule =
     [CallStart 0, Caller 0, CallStop 1, Caller 1, Caller 1, Caller 1, Caller 1,
      Caller 0, Caller 0, Caller 0, Caller 0, Caller 0, Caller 0, Caller 0, Caller 0, Caller 0,
      Caller 0, Caller 0]"

lemma demo_leak:
  "\<exists>p. run_schedule demo_env leak_schedule (launch 2 (demo_service ''jwt'')) = Some p \<and> leaked p \<and>
     pr_callers p = [Ready (Some (Start, True)), Thrown]"
proof -
  have l: "launch 2 (demo_service ''jwt'') = \<lparr>pr_svc = demo_service ''jwt'', pr_worker = None,
      pr_threads = [], pr_callers = [Ready None, Ready None]\<rparr>"
    by (simp add: launch_def numeral_2_eq_2)
  show ?thesis
    unfolding l leak_schedule_def
    by (simp add: on_svc_def demo_authenticate demo_connect leaked_def finished_def)
qed

text \<open>After such a \<open>stop\<close> the service can be left running with its flag cleared: \<open>start\<close> has
  returned true with a live worker, the flag says that the service is not running, and a later
  \<open>stop\<close> returns true at once without asking the worker to stop.\<close>

theorem concurrent_stop_leaks_worker:
  "\<exists>p p'. proc_reach demo_env (launch 2 (demo_service ''jwt'')) p \<and> leaked p \<and>
     pr_callers p ! 0 = Ready (Some (Start, True)) \<and>
     run_schedule demo_env [CallStop 0, Caller 0] p = Some p' \<and>
     pr_callers p' ! 0 = Ready (Some (Stop, True)) \<and> leaked p'"
proof -
  obtain p where p: "run_schedule demo_env leak_schedule (launch 2 (demo_service ''jwt'')) = Some p"
    and l: "leaked p" and c: "pr_callers p = [Ready (Some (Start, True)), Thrown]"
    using demo_leak by blast
  let ?q = "p\<lparr>pr_callers := [Ready (Some (Stop, True)), Thrown]\<rparr>"
  have "run_schedule demo_env [CallStop 0, Caller 0] p = Some ?q"
    using l c by (simp add: leaked_def)
  moreover have "leaked ?q" using l by (simp add: leaked_def finished_def)
  ultimately show ?thesis
    using demo_reach [OF p] l c by (intro exI [of _ p] exI [of _ ?q]) simp
qed

definition stale_service :: "(SomeipClient, byte list list) service" where
  "stale_service = (demo_service ''jwt'')\<lparr>svc_auth :=
     Some ((demo_auth ''jwt'')\<lparr>ac_backend := Some (const_backend ''jwt'' 0)\<rparr>)\<rparr>"

definition stale_login :: "(SomeipClient, byte list list) service \<Rightarrow> (SomeipClient, byte list list) service" where
  "stale_login s = s\<lparr>svc_auth := Some ((demo_auth ''jwt'')
     \<lparr>ac_backend := Some (const_backend ''jwt'' 0), ac_token := ''jwt'', ac_expires_at := 0\<rparr>)\<rparr>"

lemma stale_authenticate:
  "svc_auth s = svc_auth stale_service \<Longrightarrow> svc_authenticate demo_env s = (True, stale_login s)"
  by (simp add: svc_authenticate_def AuthClient_authenticate_def demo_auth_def const_backend_def
      demo_env_def stale_service_def stale_login_def nanos_def)

lemma stale_needs_token:
  "svc_auth s = svc_auth (stale_login t) \<Longrightarrow> svc_needs_token demo_env s = (True, s)"
  by (simp add: svc_needs_token_def stale_login_def AuthClient_isTokenValid_def demo_env_def)

lemma stale_sel [simp]:
  "svc_mqtt (stale_login s) = svc_mqtt s" "svc_heap (stale_login s) = svc_heap s"
  "svc_running (stale_login s) = svc_running s"
  "svc_mqtt stale_service = Some 0" "svc_heap stale_service = (\<lambda>_. SomeipClient_new SomeipConfig_default)"
  "svc_running stale_service = False"
  "svc_auth (stale_login s) = svc_auth (stale_login t) \<longleftrightarrow> True"
  "svc_auth (demo_link s) = svc_auth s"
  by (simp_all add: stale_login_def stale_service_def demo_link_def)

text \<open>\<open>start\<close> writes its last state after it has created the worker, so it can overwrite a state
  the worker has set: an interleaving ends with state \<open>Publishing\<close> while the worker, with a token
  that is not valid, is between its announcement of the refresh and the refresh.\<close>

theorem start_overwrites_state:
  "\<exists>p. proc_reach demo_env (launch 1 stale_service) p \<and> svc_state (pr_svc p) = Publishing \<and>
     pr_threads p = [(L88, False)] \<and> pr_callers p = [Ready (Some (Start, True))]"
proof -
  have "\<exists>p. run_schedule demo_env
      [CallStart 0, Caller 0, Caller 0, Caller 0, Caller 0, Caller 0, Caller 0, Caller 0, Caller 0,
       Caller 0, Caller 0, Caller 0, Worker 0, Worker 0, Worker 0, Caller 0]
      (launch 1 stale_service) = Some p \<and> svc_state (pr_svc p) = Publishing \<and>
     pr_threads p = [(L88, False)] \<and> pr_callers p = [Ready (Some (Start, True))]"
    by (simp add: launch_def on_svc_def finished_def stale_authenticate demo_connect
        stale_needs_token [where t = undefined])
  then show ?thesis using demo_reach by blast
qed

text \<open>The bound on a concrete process: a worker asked to stop while it is about to sleep for its next
  publication makes four more steps.\<close>

theorem stopped_worker_ends_witness:
  "\<exists>p. run_schedule demo_env [Worker 0, Worker 0, Worker 0, Worker 0]
      \<lparr>pr_svc = demo_service ''jwt'', pr_worker = Some 0, pr_threads = [(L117, True)], pr_callers = []\<rparr>
      = Some p \<and> snd (pr_threads p ! 0) \<and> loop_rank (fst (pr_threads p ! 0)) = 0"
proof -
  let ?chs = "[Worker 0, Worker 0, Worker 0, Worker 0]"
  let ?p = "\<lparr>pr_svc = demo_service ''jwt'', pr_worker = Some 0, pr_threads = [(L117, True)], pr_callers = []\<rparr>"
  obtain p where p: "run_schedule demo_env ?chs ?p = Some p"
    by (simp add: finished_def)
  have "count_list ?chs (Worker 0) = 4" by simp
  with stopped_worker_ends [OF p, of 0] p show ?thesis by simp
qed

end
