(* ===== verification/Service_Sleeps.thy ===== *)
theory Service_Sleeps
  imports Service_Threads
begin

text \<open>
  How long the worker of \<open>ConnectivityService\<close> sleeps once it has been asked to stop
  (\<open>src/ConnectivityService/connectivity_service.cpp\<close>, lines 95, 108 and 117). Time slept is read off a
  meter in the world that \<open>sleep_for\<close> advances by its argument and nothing else moves; the locale
  \<open>sleep_meter\<close> states that contract, and any environment can be given such a meter.
\<close>

section \<open>A meter of the time slept\<close>

locale sleep_meter =
  fixes E :: "('c, 'w) env" and m :: "'w \<Rightarrow> int"
  assumes meter_sleep: "m (env_sleep E secs w) = m w + secs"
    and meter_now: "m (snd (env_now E w)) = m w"
    and meter_time: "m (snd (env_local_time E w)) = m w"
    and meter_disconnect: "m (wld (m_disconnect (env_ops E) c w)) = m w"
    and meter_reconnect: "m (wld (m_reconnect (env_ops E) c w)) = m w"
    and meter_publish: "m (wld (m_publish (env_ops E) topic payload q c w)) = m w"

text \<open>The meter also stands still while the backend of the authentication client answers.\<close>

definition meter_backend :: "('w \<Rightarrow> int) \<Rightarrow> ('c, 'w) service \<Rightarrow> bool" where
  "meter_backend m s \<longleftrightarrow>
     (\<forall>f vid secret request w. svc_login s = Some (Some f, vid, secret) \<longrightarrow> m (snd (f request w)) = m w)"

section \<open>The steps of the worker on the meter\<close>

text \<open>What a step of the worker should sleep, by its line, and what a worker whose stop token is set may
  still sleep from a line on.\<close>

fun pause :: "loop_pc \<Rightarrow> int" where
  "pause L95 = 2" | "pause L108 = 2" | "pause L117 = 5" | "pause pc = 0"

fun pause_left :: "loop_pc \<Rightarrow> int" where
  "pause_left L85 = 0" | "pause_left L120 = 0" | "pause_left L123 = 0" | "pause_left LDone = 0"
| "pause_left pc = 5"

lemma pause_left_bound: "0 \<le> pause_left pc \<and> pause_left pc \<le> 5"
  by (cases pc) simp_all

lemma loop_step_pause: "pause pc + pause_left (fst (loop_step E True pc s)) \<le> pause_left pc"
  by (cases pc) (simp_all split: prod.split)

context sleep_meter
begin

abbreviation meter :: "('c, 'w) service \<Rightarrow> int" where
  "meter s \<equiv> m (svc_world s)"

lemma meter_say [simp]: "meter (svc_say E lv ms l s) = meter s"
  using meter_time [of "svc_world s"] by (simp add: svc_say_def case_prod_unfold)

lemma meter_svc_sleep [simp]: "meter (svc_sleep E secs s) = meter s + secs"
  by (simp add: svc_sleep_def meter_sleep)

lemma meter_needs_token [simp]: "meter (snd (svc_needs_token E s)) = meter s"
  by (auto simp: svc_needs_token_def AuthClient_isTokenValid_def case_prod_unfold meter_now split: option.split)

lemma meter_refresh:
  "meter_backend m s \<Longrightarrow> meter (snd (svc_refresh E s)) = meter s"
  by (auto simp: svc_refresh_def AuthClient_refreshToken_def AuthClient_authenticate_def svc_login_def
      meter_backend_def case_prod_unfold meter_now split: option.split)

lemma meter_links [simp]:
  "meter (snd (svc_reconnect E s)) = meter s" "meter (svc_disconnect E s) = meter s"
  using meter_reconnect meter_disconnect
  by (simp_all add: svc_reconnect_def svc_disconnect_def svc_on_client_def case_prod_unfold wld_def split: option.split)

lemma meter_sample: "m (snd (generateSample (env_local_time E) t w)) = m w"
  using meter_time by (simp add: generateSample_def currentTimestamp_def case_prod_unfold)

lemma meter_publish_sample: "m (wld (publishSample (env_ops E) (env_local_time E) th w)) = m w"
  using meter_sample meter_publish
  by (simp add: publishSample_def queueMessage_def case_prod_unfold Let_def wld_def split: option.split)

lemma meter_publishTelemetry [simp]: "meter (snd (publishTelemetry E s)) = meter s"
  using meter_publish_sample
  by (simp add: publishTelemetry_def case_prod_unfold wld_def split: option.split)

lemma loop_step_meter:
  "meter_backend m s \<Longrightarrow> meter (snd (loop_step E stop pc s)) = meter s + pause pc"
  by (cases pc) (simp_all add: case_prod_unfold meter_refresh kReconnectDelaySec_def kPublishIntervalSec_def)

end

section \<open>A schedule on the meter\<close>

text \<open>How far the steps of worker \<open>t\<close> advance the meter in a schedule.\<close>

fun slept :: "('w \<Rightarrow> int) \<Rightarrow> ('c, 'w) env \<Rightarrow> nat \<Rightarrow> choice list \<Rightarrow> ('c, 'w) process \<Rightarrow> int" where
  "slept m E t [] p = 0"
| "slept m E t (ch # chs) p =
     (case sched E ch p of
        None \<Rightarrow> 0
      | Some p' \<Rightarrow>
          (if ch = Worker t then m (svc_world (pr_svc p')) - m (svc_world (pr_svc p)) else 0) + slept m E t chs p')"

context sleep_meter
begin

lemma sched_worker_meter:
  assumes "sched E (Worker t) p = Some p'" and "snd (pr_threads p ! t)" and "meter_backend m (pr_svc p)"
  shows "meter (pr_svc p') - meter (pr_svc p) + pause_left (fst (pr_threads p' ! t))
    \<le> pause_left (fst (pr_threads p ! t))"
  using assms(1,2) loop_step_pause [of "fst (pr_threads p ! t)" E "pr_svc p"]
    loop_step_meter [OF assms(3), of True "fst (pr_threads p ! t)"]
  by (auto simp: case_prod_unfold split: if_splits)

lemma stopped_sleeps:
  assumes "run_schedule E chs p = Some p'" and "t < length (pr_threads p)" and "snd (pr_threads p ! t)"
    and "meter_backend m (pr_svc p)"
  shows "slept m E t chs p + pause_left (fst (pr_threads p' ! t)) \<le> pause_left (fst (pr_threads p ! t))"
  using assms
proof (induction chs arbitrary: p)
  case Nil
  then show ?case by simp
next
  case (Cons ch chs)
  then obtain p1 where 1: "sched E ch p = Some p1" "run_schedule E chs p1 = Some p'"
    by (auto split: option.splits)
  note th = sched_thread [OF 1(1) Cons.prems(2)]
  have "(if ch = Worker t then meter (pr_svc p1) - meter (pr_svc p) else 0) + pause_left (fst (pr_threads p1 ! t))
      \<le> pause_left (fst (pr_threads p ! t))"
    using th sched_worker_meter [of t p p1] 1(1) Cons.prems(3,4) by auto
  moreover have "meter_backend m (pr_svc p1)"
    using Cons.prems(4) sched_login [OF 1(1)] by (simp add: meter_backend_def)
  ultimately show ?case using Cons.IH [OF 1(2)] th Cons.prems(3) 1(1) by auto
qed

end

section \<open>Any environment with a meter\<close>

text \<open>The calls of an environment beside a counter of the seconds slept.\<close>

definition beside_opr :: "('c, 'w, bool) opr \<Rightarrow> ('c, 'w \<times> int, bool) opr" where
  "beside_opr f c v = (case f c (fst v) of (r, c', w) \<Rightarrow> (r, c', (w, snd v)))"

definition metered :: "('c, 'w) env \<Rightarrow> ('c, 'w \<times> int) env" where
  "metered E =
     \<lparr>env_ops = \<lparr>m_connect = beside_opr (m_connect (env_ops E)), m_disconnect = beside_opr (m_disconnect (env_ops E)),
        m_reconnect = beside_opr (m_reconnect (env_ops E)),
        m_publish = (\<lambda>topic payload q. beside_opr (m_publish (env_ops E) topic payload q)),
        m_subscribe = (\<lambda>topic q. beside_opr (m_subscribe (env_ops E) topic q)),
        m_isConnected = m_isConnected (env_ops E), m_config = m_config (env_ops E)\<rparr>,
      env_now = (\<lambda>(w, k). case env_now E w of (t, w') \<Rightarrow> (t, (w', k))),
      env_local_time = (\<lambda>(w, k). case env_local_time E w of (t, w') \<Rightarrow> (t, (w', k))),
      env_sleep = (\<lambda>secs (w, k). (env_sleep E secs w, k + secs)), env_file = env_file E\<rparr>"

interpretation metered: sleep_meter "metered E" snd
  by unfold_locales (simp_all add: metered_def beside_opr_def wld_def case_prod_unfold)

text \<open>C6: A worker that has been asked to stop sleeps at most five seconds more, whatever the callers and the
  other threads do in between: in any environment whose \<open>sleep_for\<close> advances a meter by its argument,
  and in which no other call of the worker moves that meter, the steps of the worker advance it by at
  most 5 from the moment its stop token is set until it has ended. Five seconds is the publish interval:
  a sleep is not interrupted, but none follows another.\<close>

theorem stopped_worker_sleeps:
  assumes "sleep_meter E m" and "meter_backend m (pr_svc p)"
    and "run_schedule E chs p = Some p'" and "t < length (pr_threads p)" and "snd (pr_threads p ! t)"
  shows "slept m E t chs p \<le> 5"
  using sleep_meter.stopped_sleeps [OF assms(1,3,4,5,2)] pause_left_bound [of "fst (pr_threads p ! t)"]
    pause_left_bound [of "fst (pr_threads p' ! t)"] by simp

text \<open>A worker asked to stop while it is about to sleep for its next publication sleeps the five seconds.\<close>

definition metered_service :: "(SomeipClient, byte list list \<times> int) service" where
  "metered_service = ConnectivityService_new None (Some 0) None \<lparr>log_path = ''l''\<rparr>
     (\<lambda>_. SomeipClient_new SomeipConfig_default) demo_io ([], 0)"

definition metered_process :: "(SomeipClient, byte list list \<times> int) process" where
  "metered_process = \<lparr>pr_svc = metered_service, pr_worker = Some 0, pr_threads = [(L117, True)], pr_callers = []\<rparr>"

theorem stopped_worker_sleeps_witness:
  "\<exists>p. run_schedule (metered demo_env) (replicate 4 (Worker 0)) metered_process = Some p \<and> finished 0 p \<and>
     slept snd (metered demo_env) 0 (replicate 4 (Worker 0)) metered_process = 5"
proof -
  let ?chs = "replicate 4 (Worker 0)"
  obtain p where p: "run_schedule (metered demo_env) ?chs metered_process = Some p" "finished 0 p"
    by (simp add: metered_process_def finished_def numeral_eq_Suc)
  have "meter_backend snd (pr_svc metered_process)"
    by (simp add: meter_backend_def svc_login_def metered_process_def metered_service_def ConnectivityService_new_def)
  from stopped_worker_sleeps [OF metered.sleep_meter_axioms this p(1), of 0]
  have "slept snd (metered demo_env) 0 ?chs metered_process \<le> 5" by (simp add: metered_process_def)
  moreover have "5 \<le> slept snd (metered demo_env) 0 ?chs metered_process"
    by (simp add: metered_process_def finished_def numeral_eq_Suc kPublishIntervalSec_def)
  ultimately show ?thesis using p by auto
qed

end
