(* ===== verification/Service_Liveness.thy ===== *)
theory Service_Liveness
  imports Service_Threads Fair_Runs
begin

text \<open>
  Calls of the service return (\<open>src/ConnectivityService/connectivity_service.cpp\<close>): under a fair scheduler
  \<open>start\<close>, \<open>stop\<close> and the destructor come to their end, although the worker's loop has none of its own
  and \<open>stop\<close> waits for it. The threads of the service interpret the contracts of \<open>Fair_Runs\<close>.
\<close>

section \<open>How far a call is from its end\<close>

fun caller_rank :: "caller_pc \<Rightarrow> nat" where
  "caller_rank S24 = 16" | "caller_rank S28 = 15" | "caller_rank S29 = 14" | "caller_rank S31 = 13"
| "caller_rank S38 = 12" | "caller_rank S39 = 11" | "caller_rank S41 = 10" | "caller_rank S48 = 9"
| "caller_rank S49 = 8" | "caller_rank S51 = 7" | "caller_rank (S51_assign t) = 6"
| "caller_rank (S51_join t old) = 5" | "caller_rank S52 = 4"
| "caller_rank S32 = 3" | "caller_rank S33 = 2" | "caller_rank S34 = 1"
| "caller_rank S42 = 3" | "caller_rank S43 = 2" | "caller_rank S44 = 1"
| "caller_rank P57 = 5" | "caller_rank P61 = 4" | "caller_rank P62 = 3" | "caller_rank P63 = 2"
| "caller_rank P64 = 1"
| "caller_rank Destroy = 2" | "caller_rank (Destroy_join t) = 1"
| "caller_rank pc = 0"

lemma caller_step_rank:
  "caller_step E pc p = Some (pc', p') \<Longrightarrow> caller_rank pc' < caller_rank pc"
  by (cases pc) (auto split: if_splits option.splits prod.splits)

lemma caller_rank_bound: "caller_rank pc \<le> 16"
  by (cases pc) simp_all

text \<open>One caller inside a call.\<close>

definition calling :: "('c, 'w) process \<Rightarrow> bool" where
  "calling p \<longleftrightarrow> length (pr_callers p) = 1 \<and> \<not> is_ready (pr_callers p ! 0)"

lemma calling_sched:
  assumes "calling p" and "sched E ch p = Some p'"
  obtains (call) pc p1 where "ch = Caller 0" "caller_step E (pr_callers p ! 0) p = Some (pc, p1)"
      "p' = p1\<lparr>pr_callers := [pc]\<rparr>"
  | (worker) i where "ch = Worker i" "pr_callers p' = pr_callers p" "pr_worker p' = pr_worker p"
proof (cases ch)
  case (Worker i)
  with assms(2) worker show ?thesis by (auto split: if_splits prod.splits)
next
  case (Caller j)
  obtain c where c: "pr_callers p = [c]" using assms(1) by (auto simp: calling_def length_Suc_conv)
  with assms(2) Caller have "j = 0" by (auto split: if_splits)
  with Caller assms(2) c call show ?thesis by (auto split: option.splits)
qed (use assms in \<open>auto simp: calling_def split: if_splits\<close>)

lemma finished_keeps:
  assumes "finished t p" and "t < length (pr_threads p)" and "sched E ch p = Some p'"
  shows "finished t p'"
proof -
  have "ch \<noteq> Worker t" using assms(1,3) by auto
  with sched_thread [OF assms(3,2)] assms(1) show ?thesis by (simp add: finished_def)
qed

interpretation caller: ranked "sched E" calling "Caller 0" "\<lambda>p. caller_rank (pr_callers p ! 0)" for E
proof (unfold_locales, goal_cases)
  case (1 p p')
  from 1(1,3) caller_step_rank show ?case by (cases rule: calling_sched) auto
next
  case (2 p p' a)
  from 2(1,4) 2(3) show ?case by (cases rule: calling_sched) auto
qed

text \<open>A worker whose stop token is set.\<close>

definition stopping_worker :: "nat \<Rightarrow> ('c, 'w) process \<Rightarrow> bool" where
  "stopping_worker t p \<longleftrightarrow> t < length (pr_threads p) \<and> snd (pr_threads p ! t)"

interpretation worker: ranked "sched E" "stopping_worker t" "Worker t"
  "\<lambda>p. loop_rank (fst (pr_threads p ! t))" for E t
proof (unfold_locales, goal_cases)
  case (1 p p')
  then show ?case using sched_worker_rank [OF 1(3)] by (simp add: stopping_worker_def)
next
  case (2 p p' a)
  then show ?case using sched_thread [OF 2(4)] by (simp add: stopping_worker_def)
qed

section \<open>Joining the worker\<close>

text \<open>The caller is in the join of \<open>stop\<close> or of the destructor, for thread \<open>t\<close>, which has been asked to
  stop.\<close>

definition in_join :: "nat \<Rightarrow> ('c, 'w) process \<Rightarrow> bool" where
  "in_join t p \<longleftrightarrow> (pr_callers p = [P63] \<or> pr_callers p = [Destroy_join t]) \<and> pr_worker p = Some t \<and>
     stopping_worker t p"

lemma in_join_calling: "in_join t p \<Longrightarrow> calling p"
  by (auto simp: in_join_def calling_def)

lemma in_join_blocked:
  assumes "in_join t p"
  shows "sched E (Caller 0) p = None \<longleftrightarrow> \<not> finished t p" and "sched E (Worker t) p = None \<longleftrightarrow> finished t p"
  using assms by (auto simp: in_join_def stopping_worker_def split: prod.split)

interpretation join: joining "sched E" "in_join t" "Caller 0" "\<lambda>p. caller_rank (pr_callers p ! 0)"
  "Worker t" "\<lambda>p. loop_rank (fst (pr_threads p ! t))" for E t
proof (unfold_locales, goal_cases)
  case (1 p p')
  then show ?case using caller.mine_falls in_join_calling by metis
next
  case (2 p p' a)
  then show ?case using caller.others_keep in_join_calling by metis
next
  case (3 p p')
  then show ?case using worker.mine_falls [OF _ _ 3(3)] by (simp add: in_join_def)
next
  case (4 p p' a)
  then show ?case using worker.others_keep [OF _ _ 4(3,4)] by (simp add: in_join_def)
next
  case (5 p)
  then show ?case by (simp add: in_join_blocked del: sched.simps)
next
  case (6 p p' a)
  then have "finished t p" "t < length (pr_threads p)"
    by (simp_all add: in_join_blocked in_join_def stopping_worker_def del: sched.simps)
  from finished_keeps [OF this 6(4)] 6(2) show ?case by (simp add: in_join_blocked del: sched.simps)
qed

lemma blocked_in_join:
  assumes "caller_inv E pc p" and "pr_callers p = [pc]" and "\<not> is_ready pc" and "pc \<noteq> Destroyed"
    and "sched E (Caller 0) p = None"
  shows "\<exists>t. in_join t p"
  using assms
  by (cases pc) (auto simp: in_join_def stopping_worker_def live_def split: if_splits option.splits prod.splits)

text \<open>From any time on a call does not go on for ever.\<close>

lemma calls_end:
  assumes "fair_run A (sched E) act p" and "Caller 0 \<in> A" and "range Worker \<subseteq> A"
    and "\<And>j. \<exists>pc. pr_callers (p j) = [pc] \<and> caller_inv E pc (p j)"
  shows "\<exists>j\<ge>n. is_ready (pr_callers (p j) ! 0) \<or> pr_callers (p j) ! 0 = Destroyed"
proof (rule ccontr)
  assume "\<not> ?thesis"
  then have inside: "\<not> is_ready (pr_callers (p j) ! 0)" "pr_callers (p j) ! 0 \<noteq> Destroyed" if "n \<le> j" for j
    using that by metis+
  have run: "run_of (sched E) act p" using assms(1) by (simp add: fair_run_def)
  have one: "length (pr_callers (p j)) = 1" for j using assms(4) [of j] by auto
  have calling: "calling (p j)" if "n \<le> j" for j using inside that one by (simp add: calling_def)
  obtain k where k: "n \<le> k" "\<And>j. k \<le> j \<Longrightarrow> act j = Caller 0 \<Longrightarrow> p (Suc j) = p j"
    using caller.settles [OF run calling] by blast
  obtain m where m: "k \<le> m" "sched E (Caller 0) (p m) = None"
    using caller.blocks [OF assms(1,2), of k] calling k(1) by (meson le_trans)
  obtain pc where pc: "pr_callers (p m) = [pc]" "caller_inv E pc (p m)" using assms(4) by blast
  with inside [of m] m(1) k(1) have "\<not> is_ready pc" "pc \<noteq> Destroyed" by simp_all
  from blocked_in_join [OF pc(2,1) this m(2)] obtain t where t: "in_join t (p m)" by blast
  have "in_join t (p j)" if "m \<le> j" for j
    using that
  proof (induction j rule: dec_induct)
    case base
    show ?case using t .
  next
    case (step i)
    then have i: "n \<le> i" "k \<le> i" using m(1) k(1) by simp_all
    from run show ?case
    proof (cases rule: run_of_cases [where i = i])
      case stay
      with step.IH show ?thesis by simp
    next
      case st: step
      from calling [OF i(1)] st show ?thesis
      proof (cases rule: calling_sched)
        case call
        with k(2) [OF i(2)] step.IH show ?thesis by simp
      next
        case worker
        with step.IH sched_thread [OF st] show ?thesis by (simp add: in_join_def stopping_worker_def)
      qed
    qed
  qed
  moreover obtain j where "m \<le> j" "\<not> in_join t (p j)"
    using join.leaves [OF assms(1,2)] assms(3) by blast
  ultimately show False by blast
qed

section \<open>Calls return\<close>

text \<open>The call a caller is in, or has just come back from.\<close>

fun call_of :: "caller_pc \<Rightarrow> call_kind option" where
  "call_of (Ready r) = map_option fst r"
| "call_of P57 = Some Stop" | "call_of P61 = Some Stop" | "call_of P62 = Some Stop"
| "call_of P63 = Some Stop" | "call_of P64 = Some Stop" | "call_of Thrown = Some Stop"
| "call_of Destroy = None" | "call_of (Destroy_join t) = None" | "call_of Destroyed = None"
| "call_of pc = Some Start"

lemma caller_step_call: "caller_step E pc p = Some (pc', p') \<Longrightarrow> call_of pc' = call_of pc"
  by (cases pc) (auto split: if_splits option.splits prod.splits)

lemma call_goes_on:
  assumes "run_of (sched E) act p" and "\<And>i. n \<le> i \<Longrightarrow> i < j \<Longrightarrow> calling (p i)" and "n \<le> j"
  shows "call_of (pr_callers (p j) ! 0) = call_of (pr_callers (p n) ! 0)"
  using assms(3,2)
proof (induction j rule: dec_induct)
  case (step i)
  then have IH: "call_of (pr_callers (p i) ! 0) = call_of (pr_callers (p n) ! 0)" and c: "calling (p i)"
    by simp_all
  from assms(1) show ?case
  proof (cases rule: run_of_cases [where i = i])
    case stay
    with IH show ?thesis by simp
  next
    case st: step
    from c st show ?thesis
    proof (cases rule: calling_sched)
      case (call pc p1)
      with IH caller_step_call [OF call(2)] show ?thesis by simp
    next
      case worker
      with IH show ?thesis by simp
    qed
  qed
qed simp

text \<open>C8: Every call returns: in every infinite run of a service with one calling thread, under a scheduler
  that is fair to the caller and to the workers, a call of \<open>start\<close> or \<open>stop\<close> that has begun comes back
  with a result, although the worker loops without end until it is asked to stop, whatever clients,
  clocks and backend do.\<close>

theorem fair_calls_return:
  assumes "mqtt_client (env_ops E) I" and "store_inv I s" and "\<not> svc_running s"
    and "svc_state s = Stopped" and "\<not> svc_online E s"
    and "fair_run (insert (Caller 0) (range Worker)) (sched E) act p" and "p 0 = launch 1 s"
    and "call_of (pr_callers (p n) ! 0) = Some k"
  shows "\<exists>j\<ge>n. \<exists>r. pr_callers (p j) = [Ready (Some (k, r))]"
proof -
  have run: "run_of (sched E) act p" using assms(6) by (simp add: fair_run_def)
  have "proc_reach E (launch 1 s) (p j)" for j
  proof (rule run_keeps [OF run _ le0])
    show "proc_reach E (launch 1 s) (p 0)" using assms(7) by (simp add: reach_start)
  qed (blast intro: reach_step proc_step)
  from mqtt_client.single_caller_reach [OF assms(1) this refl assms(2-5)]
  have inv: "\<exists>pc. pr_callers (p j) = [pc] \<and> caller_inv E pc (p j)" for j by blast
  let ?over = "\<lambda>j. n \<le> j \<and> (is_ready (pr_callers (p j) ! 0) \<or> pr_callers (p j) ! 0 = Destroyed)"
  obtain j where j: "?over j" "\<And>i. i < j \<Longrightarrow> \<not> ?over i"
    using calls_end [OF assms(6) _ _ inv, of n] exists_least_iff [of ?over] by auto
  have "calling (p i)" if "n \<le> i" "i < j" for i
    using inv [of i] j(2) [OF that(2)] that(1) by (auto simp: calling_def)
  then have "call_of (pr_callers (p j) ! 0) = Some k" using call_goes_on [OF run _ j(1) [THEN conjunct1]] assms(8) by simp
  moreover obtain pc where "pr_callers (p j) = [pc]" using inv by blast
  ultimately show ?thesis using j(1) by (cases pc) auto
qed

text \<open>A fair schedule, which begins with the choices of a list.\<close>

fun serving_turn :: "nat \<Rightarrow> choice" where
  "serving_turn 0 = Caller 0"
| "serving_turn (Suc i) = Worker i"

lemma serving_turns: "a \<in> insert (Caller 0) (range Worker) \<Longrightarrow> \<exists>n. a = serving_turn n"
  using serving_turn.simps by (metis imageE insertE)

lemma serving_fair:
  "fair_run (insert (Caller 0) (range Worker)) (sched E) (recurring serving_turn pre)
     (states_of (sched E) (recurring serving_turn pre) p)"
  by (rule fair_run_exists) (rule serving_turns)

lemma states_of_schedule:
  assumes "run_schedule E chs p = Some p'"
  shows "states_of (sched E) (recurring f (chs @ rest)) p (length chs) = p'"
  using assms
proof (induction chs arbitrary: p' rest rule: rev_induct)
  case (snoc ch chs)
  then obtain q where q: "run_schedule E chs p = Some q" "sched E ch q = Some p'"
    by (auto simp: run_schedule_append split: option.splits)
  from snoc.IH [OF q(1), of "ch # rest"] q(2) show ?case
    by (simp add: recurring_def nth_append del: sched.simps)
qed simp

theorem fair_calls_return_witness:
  "\<exists>act p j r. fair_run (insert (Caller 0) (range Worker)) (sched demo_env) act p \<and>
     p 0 = launch 1 (demo_service ''jwt'') \<and> pr_callers (p 1) = [S24] \<and>
     pr_callers (p j) = [Ready (Some (Start, r))]"
proof -
  let ?act = "recurring serving_turn [CallStart 0]"
  let ?p = "states_of (sched demo_env) ?act (launch 1 (demo_service ''jwt''))"
  have fair: "fair_run (insert (Caller 0) (range Worker)) (sched demo_env) ?act ?p"
    by (rule serving_fair)
  have first: "pr_callers (?p 1) = [S24]" by (simp add: launch_def recurring_def)
  have p0: "?p 0 = launch 1 (demo_service ''jwt'')" by simp
  have "call_of (pr_callers (?p 1) ! 0) = Some Start" by (simp only: first nth_Cons_0 call_of.simps)
  from fair_calls_return [OF demo_contract demo_store demo_fresh fair p0 this] fair p0 first
  show ?thesis by blast
qed

end
