(* ===== verification/Link_Supervision.thy ===== *)
theory Link_Supervision
  imports Service_Threads Someip_Client
begin

text \<open>
  How the service supervises its connection (\<open>src/ConnectivityService/connectivity_service.cpp\<close>, lines 100
  to 111). The worker asks \<open>isConnected\<close>, which for both clients is a flag that only \<open>connect\<close>,
  \<open>disconnect\<close> and \<open>reconnect\<close> set; a failing \<open>publish\<close> leaves it alone. So the branch that reconnects
  is reached only if somebody else disconnects the client.
\<close>

fun reconnecting :: "loop_pc \<Rightarrow> bool" where
  "reconnecting L101 = True" | "reconnecting L102 = True" | "reconnecting L103 = True"
| "reconnecting L104 = True" | "reconnecting L105 = True" | "reconnecting L107 = True"
| "reconnecting L108 = True" | "reconnecting pc = False"

text \<open>No worker is in the branch, a worker that has not disconnected the client finds it up, and the
  state has never been set to \<open>Reconnecting\<close>.\<close>

definition linked_pc :: "('c, 'w) env \<Rightarrow> ('c, 'w) service \<Rightarrow> loop_pc \<Rightarrow> bool" where
  "linked_pc E s pc \<longleftrightarrow> \<not> reconnecting pc \<and> (pc \<notin> {L123, LDone} \<longrightarrow> svc_online E s)"

definition linked :: "('c, 'w) env \<Rightarrow> ('c, 'w) process \<Rightarrow> bool" where
  "linked E p \<longleftrightarrow> (\<forall>i < length (pr_threads p). linked_pc E (pr_svc p) (fst (pr_threads p ! i))) \<and>
     svc_state (pr_svc p) \<noteq> Reconnecting"

lemma linked_pc_simps [simp]: "linked_pc E s LDone" "linked_pc E s L123" "linked_pc E s L85 = svc_online E s"
  by (simp_all add: linked_pc_def)

lemma linked_pc_cong: "svc_online E s' = svc_online E s \<Longrightarrow> linked_pc E s' pc = linked_pc E s pc"
  by (simp add: linked_pc_def)

lemma linked_done:
  "(\<And>i. i < length (pr_threads p) \<Longrightarrow> finished i p) \<Longrightarrow> svc_state (pr_svc p) \<noteq> Reconnecting \<Longrightarrow> linked E p"
  by (simp add: linked_def finished_def)

lemma linked_svc:
  "linked E p \<Longrightarrow> svc_online E s = svc_online E (pr_svc p) \<Longrightarrow> svc_state s \<noteq> Reconnecting \<Longrightarrow>
     linked E (p\<lparr>pr_svc := s\<rparr>)"
  using linked_pc_cong [of E s "pr_svc p"] by (simp add: linked_def)

lemma linked_frame [simp]:
  "linked E (p\<lparr>pr_callers := cs\<rparr>) = linked E p" "linked E (p\<lparr>pr_worker := w\<rparr>) = linked E p"
  by (simp_all add: linked_def)

lemma linked_stop [simp]: "linked E (request_stop t p) = linked E p"
  by (simp add: linked_def)

lemma linked_spawn:
  "linked E p \<Longrightarrow> svc_online E (pr_svc p) \<Longrightarrow> linked E (p\<lparr>pr_threads := pr_threads p @ [(L85, b)]\<rparr>)"
  by (auto simp: linked_def nth_append)

context mqtt_client
begin

lemma loop_step_linked:
  assumes "store_inv inv s" and "env_ops E = M" and "loop_step E b pc s = (pc', s')"
    and "linked_pc E s pc" and "pc \<noteq> LDone" and "svc_state s \<noteq> Reconnecting"
  shows "linked_pc E s' pc' \<and> svc_state s' \<noteq> Reconnecting"
proof (cases pc)
  case L86
  obtain n s1 where n: "svc_needs_token E s = (n, s1)" by fastforce
  have "svc_online E s1 = svc_online E s" "svc_state s1 = svc_state s"
    using svc_needs_token_frame [OF n] store_online_cong [of s1 s E inv] by (auto simp: same_control_def)
  with L86 n assms show ?thesis by (auto simp: linked_pc_def split: if_splits)
next
  case L89
  obtain n s1 where n: "svc_refresh E s = (n, s1)" by fastforce
  have "svc_online E s1 = svc_online E s" "svc_state s1 = svc_state s"
    using svc_refresh_frame [OF n] store_online_cong [of s1 s E inv] by (auto simp: same_control_def)
  with L89 n assms show ?thesis by (auto simp: linked_pc_def split: if_splits)
next
  case L113
  obtain n s1 where n: "publishTelemetry E s = (n, s1)" by fastforce
  have "svc_state s1 = svc_state s" using publishTelemetry_frame [OF n] by (simp add: same_control_def)
  with publishTelemetry_online [OF assms(1,2) n] L113 n assms show ?thesis
    by (auto simp: linked_pc_def split: if_splits)
next
  case L120
  obtain r s1 where "svc_on_client (m_disconnect (env_ops E)) s = (r, s1)" by fastforce
  with svc_on_client_frame [OF this] L120 assms show ?thesis
    by (auto simp: linked_pc_def svc_disconnect_def same_control_def)
qed (use assms in \<open>auto simp: linked_pc_def split: if_splits\<close>)

lemma linked_worker:
  assumes "linked E p" and "caller_inv E pc p" and "store_inv inv (pr_svc p)" and "env_ops E = M"
    and "sched E (Worker i) p = Some p'"
  shows "linked E p'"
proof -
  from assms(5) have i: "i < length (pr_threads p)" "\<not> finished i p" by (auto split: if_splits)
  obtain l b where l: "pr_threads p ! i = (l, b)" by fastforce
  obtain l' s' where st: "loop_step E b l (pr_svc p) = (l', s')" by fastforce
  have p': "p' = p\<lparr>pr_svc := s', pr_threads := (pr_threads p)[i := (l', b)]\<rparr>"
    using assms(5) i l st by simp
  have "linked_pc E (pr_svc p) l" "l \<noteq> LDone" "svc_state (pr_svc p) \<noteq> Reconnecting"
    using assms(1) i l by (auto simp: linked_def finished_def)
  from loop_step_linked [OF assms(3,4) st this] have st': "linked_pc E s' l'" "svc_state s' \<noteq> Reconnecting"
    by simp_all
  have "linked_pc E s' (fst (pr_threads p' ! j))" if "j < length (pr_threads p')" for j
  proof (cases "j = i")
    case True
    with st' p' i show ?thesis by simp
  next
    case False
    with that p' i caller_inv_threads [OF assms(2)] have "finished j p" by (metis length_list_update
        process.select_convs(3) process.update_convs(1) process.surjective process.update_convs(3))
    with False p' show ?thesis by (simp add: finished_def)
  qed
  with st' p' show ?thesis by (simp add: linked_def)
qed

text \<open>While the caller changes the connection, no worker is left to notice.\<close>

lemma linked_caller:
  assumes "linked E p" and "caller_inv E pc p" and "store_inv inv (pr_svc p)" and "env_ops E = M"
    and "caller_step E pc p = Some (pc', p')"
  shows "linked E p'"
proof (cases pc)
  case S31
  obtain ok s where a: "svc_authenticate E (pr_svc p) = (ok, s)" by fastforce
  have "svc_state s = svc_state (pr_svc p)" using svc_authenticate_frame [OF a] by (simp add: same_control_def)
  moreover have "svc_state (pr_svc p) \<noteq> Reconnecting" using assms(1) by (simp add: linked_def)
  moreover have "p' = p\<lparr>pr_svc := s\<rparr>" using a S31 assms(5) by simp
  ultimately show ?thesis using linked_svc [OF assms(1)] svc_authenticate_online [OF a, of inv] by simp
next
  case S41
  obtain ok s where a: "svc_connect E (pr_svc p) = (ok, s)" by fastforce
  have "svc_state s = svc_state (pr_svc p)" using svc_connect_frame [OF a] by (simp add: same_control_def)
  moreover have "idle p" using S41 assms(2) by simp
  ultimately show ?thesis using a S41 assms(1,5) by (auto simp: idle_def linked_def finished_def)
next
  case S51
  with assms(1,2,5) linked_spawn show ?thesis by auto
qed (use assms(1,2,5) in \<open>auto simp: on_svc_def intro!: linked_svc split: if_splits option.splits\<close>,
     auto simp: linked_def)

lemma linked_step:
  assumes "linked E p" and "pr_callers p = [pc]" and "caller_inv E pc p" and "store_inv inv (pr_svc p)"
    and "env_ops E = M" and "sched E ch p = Some p'"
  shows "linked E p'"
proof (cases ch)
  case (Worker i)
  with linked_worker [OF assms(1,3,4,5)] assms(6) show ?thesis by simp
next
  case (Caller j)
  with assms(2,6) obtain pc' p1 where "caller_step E pc p = Some (pc', p1)" "p' = p1\<lparr>pr_callers := [pc']\<rparr>"
    by (auto split: if_splits option.splits)
  with linked_caller [OF assms(1,3,4,5)] show ?thesis by simp
next
  case (CallPublish j)
  obtain ok s where p: "publishTelemetry E (pr_svc p) = (ok, s)" by fastforce
  have "svc_state s = svc_state (pr_svc p)" using publishTelemetry_frame [OF p] by (simp add: same_control_def)
  moreover have "svc_state (pr_svc p) \<noteq> Reconnecting" using assms(1) by (simp add: linked_def)
  moreover have "p' = p\<lparr>pr_svc := s\<rparr>" using CallPublish p assms(6) by (auto simp: on_svc_def split: if_splits)
  ultimately show ?thesis using linked_svc [OF assms(1)] publishTelemetry_online [OF assms(4,5) p] by simp
qed (use assms(1,6) in \<open>auto split: if_splits\<close>)

lemma linked_reach:
  assumes "proc_reach E (launch 1 s) p" and "env_ops E = M" and "store_inv inv s"
    and "\<not> svc_running s" and "svc_state s = Stopped" and "\<not> svc_online E s"
  shows "linked E p"
  using assms(1)
proof (induction rule: proc_reach.induct)
  case reach_start
  show ?case using assms(5) by (simp add: launch_def linked_def)
next
  case (reach_step p p')
  from reach_step.hyps(2) obtain ch where ch: "sched E ch p = Some p'" by (rule proc_stepE)
  obtain pc where "pr_callers p = [pc]" "caller_inv E pc p" "store_inv inv (pr_svc p)"
    using single_caller_reach [OF reach_step.hyps(1) assms(2-6)] by blast
  from linked_step [OF reach_step.IH this assms(2) ch] show ?case .
qed

end

text \<open>C29: A lost connection is never noticed. The service asks the client whether it is connected, but
  both clients only report the outcome of their last \<open>connect\<close> or \<open>disconnect\<close>; so as long as nobody
  else uses the client, no worker ever enters the branch that reconnects, and the state never becomes
  \<open>Reconnecting\<close>, whatever the network does and however often \<open>publish\<close> fails.\<close>

theorem worker_never_reconnects:
  assumes "mqtt_client (env_ops E) I" and "store_inv I s" and "\<not> svc_running s"
    and "svc_state s = Stopped" and "\<not> svc_online E s" and "proc_reach E (launch 1 s) p"
  shows "svc_state (pr_svc p) \<noteq> Reconnecting \<and>
    (\<forall>i < length (pr_threads p). \<not> reconnecting (fst (pr_threads p ! i)))"
  using mqtt_client.linked_reach [OF assms(1) assms(6) refl assms(2-5)]
  by (simp add: linked_def linked_pc_def)

text \<open>A network on which every \<open>send\<close> fails after the connection has been made.\<close>

definition lost_sockets :: "byte list list socket_ops" where
  "lost_sockets = demo_sockets\<lparr>sk_send := (\<lambda>fd bs flags w. (-1, w))\<rparr>"

definition lost_env :: "(SomeipClient, byte list list) env" where
  "lost_env = demo_env\<lparr>env_ops := someip_client_ops lost_sockets\<rparr>"

lemma lost_say [simp]: "svc_world (svc_say lost_env lv m l s) = svc_world s"
  by (simp add: svc_say_def lost_env_def demo_env_def demo_wall_def)

lemma lost_authenticate:
  "svc_auth s = Some (demo_auth ''jwt'') \<Longrightarrow> svc_authenticate lost_env s = (True, demo_login s)"
  by (simp add: svc_authenticate_def AuthClient_authenticate_def demo_auth_def const_backend_def
      lost_env_def demo_env_def demo_login_def nanos_def)

lemma lost_connect:
  "svc_mqtt s = Some 0 \<Longrightarrow> svc_heap s 0 = SomeipClient_new SomeipConfig_default \<Longrightarrow>
     svc_connect lost_env s = (True, demo_link s)"
  by (simp add: svc_connect_def svc_on_client_def lost_env_def SomeipClient_connect_def lost_sockets_def
      demo_sockets_def SomeipClient_new_def demo_link_def Let_def)

lemma lost_token_kept: "svc_auth s = svc_auth (demo_login t) \<Longrightarrow> svc_needs_token lost_env s = (False, s)"
  by (simp add: svc_needs_token_def demo_login_def AuthClient_isTokenValid_def lost_env_def demo_env_def)

lemma lost_online:
  "svc_mqtt s = Some 0 \<Longrightarrow> svc_heap s 0 = (SomeipClient_new SomeipConfig_default)\<lparr>sc_socket_fd := 3, sc_connected := True\<rparr> \<Longrightarrow>
     svc_online lost_env s"
  by (simp add: svc_online_def lost_env_def SomeipClient_isConnected_def)

lemma lost_publish:
  assumes "svc_telemetry s = Some (TelemetryManager_new ''V'' (Some 0))"
    and "svc_heap s 0 = (SomeipClient_new SomeipConfig_default)\<lparr>sc_socket_fd := 3, sc_connected := True\<rparr>"
  shows "\<exists>s' t. publishTelemetry lost_env s = (True, s') \<and> svc_telemetry s' = Some t \<and> length (tl_pending t) = 1 \<and>
    svc_mqtt s' = svc_mqtt s \<and> svc_heap s' 0 = svc_heap s 0"
proof -
  let ?t = "TelemetryManager_new ''V'' (Some 0)"
  obtain sample where g: "generateSample (env_local_time lost_env) ?t (svc_world s) = (sample, svc_world s)"
    by (simp add: generateSample_def currentTimestamp_def lost_env_def demo_env_def demo_wall_def)
  have "SomeipClient_isConnected (svc_heap s 0)" using assms(2) by (simp add: SomeipClient_isConnected_def)
  moreover have "SomeipClient_publish lost_sockets topic payload 1 (svc_heap s 0) w = (False, svc_heap s 0, w)"
    for topic payload w
    using assms(2) by (simp add: SomeipClient_publish_def lost_sockets_def Let_def)
  moreover have "env_ops lost_env = someip_client_ops lost_sockets" by (simp add: lost_env_def)
  ultimately show ?thesis
    using g assms(1)
    by (simp add: publishTelemetry_def publishSample_def TelemetryManager_new_def queueMessage_def Let_def)
qed

lemma lost_started:
  "\<exists>s. run_schedule lost_env started_schedule (launch 1 (demo_service ''jwt'')) =
     Some \<lparr>pr_svc = s, pr_worker = Some 0, pr_threads = [(L85, False)],
       pr_callers = [Ready (Some (Start, True))]\<rparr> \<and>
     svc_auth s = svc_auth (demo_login s) \<and> svc_mqtt s = Some 0 \<and>
     svc_telemetry s = Some (TelemetryManager_new ''V'' (Some 0)) \<and>
     svc_heap s 0 = (SomeipClient_new SomeipConfig_default)\<lparr>sc_socket_fd := 3, sc_connected := True\<rparr>"
proof -
  have "svc_telemetry (demo_service ''jwt'') = Some (TelemetryManager_new ''V'' (Some 0))"
    by (simp add: demo_service_def ConnectivityService_new_def)
  then show ?thesis
    by (simp add: started_schedule_def launch_def on_svc_def lost_authenticate lost_connect)
      (simp add: demo_link_def demo_login_def)
qed

lemma lost_pass:
  assumes "svc_auth s = svc_auth (demo_login s)" and "svc_mqtt s = Some 0"
    and "svc_telemetry s = Some (TelemetryManager_new ''V'' (Some 0))"
    and "svc_heap s 0 = (SomeipClient_new SomeipConfig_default)\<lparr>sc_socket_fd := 3, sc_connected := True\<rparr>"
  shows "\<exists>p t. run_schedule lost_env [Worker 0, Worker 0, Worker 0, Worker 0]
      \<lparr>pr_svc = s, pr_worker = Some 0, pr_threads = [(L85, False)], pr_callers = cs\<rparr> = Some p \<and>
    pr_threads p = [(L117, False)] \<and> svc_telemetry (pr_svc p) = Some t \<and> length (tl_pending t) = 1"
proof -
  obtain s' t where "publishTelemetry lost_env s = (True, s')" "svc_telemetry s' = Some t" "length (tl_pending t) = 1"
    using lost_publish [OF assms(3,4)] by blast
  with lost_token_kept [OF assms(1)] lost_online [OF assms(2,4)] show ?thesis
    by (simp add: finished_def del: svc_online_simps)
qed

theorem worker_never_reconnects_witness:
  "\<exists>p t. run_schedule lost_env (started_schedule @ [Worker 0, Worker 0, Worker 0, Worker 0])
      (launch 1 (demo_service ''jwt'')) = Some p \<and> pr_threads p = [(L117, False)] \<and>
    svc_telemetry (pr_svc p) = Some t \<and> length (tl_pending t) = 1 \<and> svc_state (pr_svc p) \<noteq> Reconnecting"
proof -
  have contract: "mqtt_client (env_ops lost_env) someip_inv" by (simp add: lost_env_def someip.mqtt_client_axioms)
  have off: "\<not> svc_online lost_env (demo_service ''jwt'')"
    by (simp add: svc_online_def lost_env_def SomeipClient_new_def SomeipClient_isConnected_def)
  have "\<exists>p t. run_schedule lost_env (started_schedule @ [Worker 0, Worker 0, Worker 0, Worker 0])
      (launch 1 (demo_service ''jwt'')) = Some p \<and> pr_threads p = [(L117, False)] \<and>
    svc_telemetry (pr_svc p) = Some t \<and> length (tl_pending t) = 1"
    using lost_started lost_pass by (auto simp: run_schedule_append simp del: run_schedule.simps)
  then obtain p t where p: "run_schedule lost_env (started_schedule @ [Worker 0, Worker 0, Worker 0, Worker 0])
      (launch 1 (demo_service ''jwt'')) = Some p" "pr_threads p = [(L117, False)]"
    "svc_telemetry (pr_svc p) = Some t" "length (tl_pending t) = 1" by blast
  from worker_never_reconnects [OF contract demo_store demo_fresh(1,2) off demo_reach [OF p(1)]] p
  show ?thesis by blast
qed

end
