(* ===== verification/Cloud_Demo.thy ===== *)
theory Cloud_Demo
  imports Service_Threads
begin

text \<open>
  The sample program \<open>src/main.cpp\<close>: \<open>DemoAuthBackend\<close>, the listener thread \<open>runCloudListener\<close>
  that plays the cloud, and \<open>main\<close>, which wires the classes together over \<open>SomeipClient\<close>. The
  server side of the socket interface is a parameter, as the client side is in \<open>Someip_Client\<close>.
\<close>

section \<open>Constants and the backend\<close>

definition kDemoLogPath :: string where
  "kDemoLogPath = ''logs/connected_vehicle.log''"

definition kDemoVehicleSecret :: string where
  "kDemoVehicleSecret = ''secret123''"

definition kDemoSomeipPort :: u16 where
  "kDemoSomeipPort = 41002"

definition kDemoTokenTtlSec :: int where
  "kDemoTokenTtlSec = 3600"

definition kDemoRunDurationSec :: int where
  "kDemoRunDurationSec = 6"

definition kCloudListenerBufSize :: nat where
  "kCloudListenerBufSize = 2048"

definition kSomeipHeaderSize :: int where
  "kSomeipHeaderSize = 8"

definition DemoAuthBackend :: "'w auth_backend" where
  "DemoAuthBackend request w =
     (if vehicle_id request = [] \<or> vehicle_secret request = [] then (empty_response, w)
      else (\<lparr>access_token = ''jwt-demo-token'', expires_in = kDemoTokenTtlSec\<rparr>, w))"

section \<open>The listener\<close>

text \<open>\<open>sv_recv fd n w\<close> is the result of \<open>recv\<close> with the bytes it wrote to the buffer.\<close>

record 'w server_ops =
  sv_socket :: "'w \<Rightarrow> int \<times> 'w"
  sv_bind :: "int \<Rightarrow> sockaddr_in \<Rightarrow> 'w \<Rightarrow> int \<times> 'w"
  sv_listen :: "int \<Rightarrow> int \<Rightarrow> 'w \<Rightarrow> int \<times> 'w"
  sv_accept :: "int \<Rightarrow> 'w \<Rightarrow> int \<times> 'w"
  sv_recv :: "int \<Rightarrow> nat \<Rightarrow> 'w \<Rightarrow> (int \<times> byte list) \<times> 'w"
  sv_close :: "int \<Rightarrow> 'w \<Rightarrow> 'w"
  sv_big_endian :: bool

text \<open>\<open>htonl\<close>, as \<open>htons\<close>, and the loopback address in host order.\<close>

definition htonl :: "bool \<Rightarrow> u32 \<Rightarrow> u32" where
  "htonl big a = word_of_nat (host_value big (rev (le_bytes 4 (unat a))))"

definition INADDR_LOOPBACK :: u32 where
  "INADDR_LOOPBACK = 0x7F000001"

text \<open>What the listener prints for a result of \<open>recv\<close>: the buffer is zero-filled, \<open>recv\<close> overwrote
  its first bytes.\<close>

definition listener_payload :: "int \<Rightarrow> byte list \<Rightarrow> string" where
  "listener_payload received bs =
     (let buffer = take kCloudListenerBufSize (bs @ replicate kCloudListenerBufSize 0);
          payload_size = max 0 (received - kSomeipHeaderSize);
          payload_offset = min kSomeipHeaderSize received
      in if 0 < payload_size
         then string_of_bytes (take (nat payload_size) (drop (nat payload_offset) buffer))
         else [])"

definition runCloudListener :: "('w, 'z) server_ops_scheme \<Rightarrow> u16 \<Rightarrow> 'w \<Rightarrow> string \<times> 'w" where
  "runCloudListener V port w =
     (case sv_socket V w of (server_fd, w1) \<Rightarrow>
      if server_fd < 0 then ([], w1)
      else
        let address = \<lparr>sin_port = htons (sv_big_endian V) port,
              sin_addr = htonl (sv_big_endian V) INADDR_LOOPBACK\<rparr> in
        case sv_bind V server_fd address w1 of (rb, w2) \<Rightarrow>
        case (if rb \<noteq> 0 then (True, w2)
              else case sv_listen V server_fd 1 w2 of (rl, w3) \<Rightarrow> (rl \<noteq> 0, w3)) of (failed, w3) \<Rightarrow>
        if failed then ([], sv_close V server_fd w3)
        else
          let banner = ''[Cloud] listening for SOME/IP traffic on localhost:'' @ show_nat (unat port)
                @ [CHR 0x0A] in
          case sv_accept V server_fd w3 of (client_fd, w4) \<Rightarrow>
          if client_fd < 0 then (banner, sv_close V server_fd w4)
          else
            case sv_recv V client_fd kCloudListenerBufSize w4 of ((received, bs), w5) \<Rightarrow>
            let report = (if 0 < received
                  then ''[Cloud] received SOME/IP payload: '' @ listener_payload received bs @ [CHR 0x0A]
                  else []) in
            (banner @ report, sv_close V server_fd (sv_close V client_fd w5)))"

section \<open>The objects of the program\<close>

definition demo_someip_config :: SomeipConfig where
  "demo_someip_config =
     \<lparr>sc_host = kDefaultSomeipHost, sc_port = kDemoSomeipPort, sc_service_id = kDefaultServiceId,
      sc_method_id = kDefaultMethodId, sc_client_id = kDefaultEcuClientId\<rparr>"

text \<open>The objects \<open>main\<close> creates; \<open>None\<close> is the exception of the logger's constructor. Both the
  service and the telemetry manager hold the address 0 of the one client.\<close>

definition main_init ::
  "'w clock \<Rightarrow> log_io \<Rightarrow> 'w \<Rightarrow> (SomeipClient, 'w) service option" where
  "main_init now io w =
     (case Logger_new kDemoLogPath io of
        None \<Rightarrow> None
      | Some (lg, io1) \<Rightarrow>
          (case AuthClient_new now (Some DemoAuthBackend) (sc_client_id demo_someip_config)
             kDemoVehicleSecret w of (ac, w1) \<Rightarrow>
           Some (ConnectivityService_new (Some ac) (Some 0)
             (Some (TelemetryManager_new (sc_client_id demo_someip_config) (Some 0))) lg
             (\<lambda>_. SomeipClient_new demo_someip_config) io1 w1)))"

text \<open>How the process ends: a status, or \<open>std::terminate\<close>. A \<open>std::thread\<close> that is still joinable
  when its scope is left terminates the program, whatever status was being returned.\<close>

datatype exit_status = Exit int | Terminate

section \<open>The listener: properties\<close>

lemma buffer_window:
  assumes "length h = 8" and "8 < r" and "r \<le> 8 + length p" and "r \<le> n"
  shows "take (r - 8) (drop 8 (take n (take r (h @ p) @ replicate n z))) = take (r - 8) p"
proof -
  have t: "take r (h @ p) = h @ take (r - 8) p" using assms(1,2) by simp
  have pad: "take n (xs @ replicate n z) = xs @ replicate (n - length xs) z" if "length xs \<le> n" for xs
    using that by (simp add: min_def)
  have "length (h @ take (r - 8) p) = r" using assms(1-3) by simp
  with assms(4) show ?thesis unfolding t using assms(1-3) by (subst pad) simp_all
qed

lemma listener_frame_prefix:
  assumes "r \<le> 8 + length payload" and "r \<le> kCloudListenerBufSize"
  shows "listener_payload (int r) (take r (someip_frame big cfg payload)) = take (r - 8) payload"
proof (cases "8 < r")
  case True
  then have n: "nat (max 0 (int r - kSomeipHeaderSize)) = r - 8" "0 < max 0 (int r - kSomeipHeaderSize)"
    "nat (min kSomeipHeaderSize (int r)) = 8"
    by (simp_all add: kSomeipHeaderSize_def nat_diff_distrib)
  have "take (r - 8) (drop 8 (take kCloudListenerBufSize (take r (someip_frame big cfg payload)
      @ replicate kCloudListenerBufSize 0))) = take (r - 8) (bytes_of_string payload)"
    unfolding someip_frame_def using assms True by (intro buffer_window) simp_all
  moreover have "string_of_bytes (take (r - 8) (bytes_of_string payload)) = take (r - 8) payload"
    by (simp add: string_of_bytes_take)
  ultimately show ?thesis by (simp only: listener_payload_def Let_def n if_True)
next
  case False
  then show ?thesis by (simp add: listener_payload_def kSomeipHeaderSize_def)
qed

text \<open>What the listener prints for a frame of \<open>SomeipClient::publish\<close>: if \<open>recv\<close> delivered the
  first \<open>r\<close> bytes of the frame, at most the size of its buffer, it prints the first \<open>r - 8\<close>
  characters of the payload. A payload of up to 2040 characters that arrives in one piece is printed
  unchanged; a short read or a longer payload is cut without notice, since the length field of the
  header is not read.\<close>

theorem listener_prints_payload:
  assumes "r \<le> 8 + length payload" and "r \<le> kCloudListenerBufSize"
  shows "listener_payload (int r) (take r (someip_frame big cfg payload)) = take (r - 8) payload"
  by (rule listener_frame_prefix [OF assms])

theorem listener_prints_payload_witness:
  "listener_payload 12 (take 12 (someip_frame False demo_someip_config ''ping'')) = ''ping''"
  using listener_prints_payload [of 12 "''ping''" False demo_someip_config]
  by (simp add: kCloudListenerBufSize_def)

text \<open>The server side instrumented with the list of open descriptors.\<close>

definition tracked_server :: "'w server_ops \<Rightarrow> ('w \<times> int list) server_ops" where
  "tracked_server V =
     \<lparr>sv_socket = (\<lambda>(w, fds). case sv_socket V w of (fd, w') \<Rightarrow>
        (fd, w', if fd < 0 then fds else fd # fds)),
      sv_bind = (\<lambda>fd a (w, fds). case sv_bind V fd a w of (rc, w') \<Rightarrow> (rc, w', fds)),
      sv_listen = (\<lambda>fd n (w, fds). case sv_listen V fd n w of (rc, w') \<Rightarrow> (rc, w', fds)),
      sv_accept = (\<lambda>fd (w, fds). case sv_accept V fd w of (cfd, w') \<Rightarrow>
        (cfd, w', if cfd < 0 then fds else cfd # fds)),
      sv_recv = (\<lambda>fd n (w, fds). case sv_recv V fd n w of (r, w') \<Rightarrow> (r, w', fds)),
      sv_close = (\<lambda>fd (w, fds). (sv_close V fd w, remove1 fd fds)),
      sv_big_endian = sv_big_endian V\<rparr>"

text \<open>On every path, errors included, the listener has closed every descriptor it obtained when
  it returns.\<close>

theorem listener_closes_descriptors:
  "snd (snd (runCloudListener (tracked_server V) port (w, []))) = []"
  by (auto simp: runCloudListener_def tracked_server_def Let_def split: prod.split if_split)

section \<open>The program: properties\<close>

lemma demo_backend_login:
  assumes "svc_auth s = Some ac" and "ac_backend ac = Some DemoAuthBackend"
    and "ac_vehicle_id ac \<noteq> []" and "ac_vehicle_secret ac \<noteq> []"
    and "svc_authenticate E s = (r, s')"
  shows "r"
  using assms
  by (auto simp: svc_authenticate_def AuthClient_authenticate_def DemoAuthBackend_def split: prod.splits)

lemma main_init_auth:
  assumes "main_init now io w = Some s"
  shows "\<exists>ac. svc_auth s = Some ac \<and> ac_backend ac = Some DemoAuthBackend \<and>
    ac_vehicle_id ac \<noteq> [] \<and> ac_vehicle_secret ac \<noteq> [] \<and> \<not> svc_running s \<and> svc_mqtt s = Some 0 \<and>
    svc_state s = Stopped"
  using assms
  by (auto simp: main_init_def AuthClient_new_def ConnectivityService_new_def demo_someip_config_def
      kDefaultEcuClientId_def kDemoVehicleSecret_def split: option.splits prod.splits)

text \<open>In the sample program \<open>start\<close> can fail only at the connection: the backend accepts the
  credentials \<open>main\<close> passes, so a failure means that the TCP client could not connect, which it
  cannot when the listener thread is not listening yet.\<close>

theorem main_start_fails_offline:
  assumes "main_init (env_now E) io w = Some s" and "service_start E s = ((False, spawned), s')"
  shows "\<exists>s3 s4. svc_connect E s3 = (False, s4) \<and>
    s' = (set_state Disconnected (svc_say E Error ''MQTT connection failed'' 42 s4))\<lparr>svc_running := False\<rparr>"
proof -
  from main_init_auth [OF assms(1)] obtain ac where ac: "svc_auth s = Some ac"
    "ac_backend ac = Some DemoAuthBackend" "ac_vehicle_id ac \<noteq> []" "ac_vehicle_secret ac \<noteq> []"
    and n: "\<not> svc_running s" by blast
  from n show ?thesis
  proof (cases rule: service_start_cases [where E = E])
    case (denied s2)
    have "svc_auth (svc_say E Info ''Starting connectivity service'' 29
         (set_state Starting (s\<lparr>svc_running := True\<rparr>))) = Some ac" using ac(1) by simp
    from demo_backend_login [OF this ac(2-4) denied(1)] show ?thesis by simp
  next
    case (offline s2 s4)
    with assms(2) show ?thesis
      by (intro exI [of _ "svc_say E Info ''Authentication succeeded'' 39 (set_state Authenticating s2)"]
          exI [of _ s4]) simp
  next
    case (launched s2 s4)
    with assms(2) show ?thesis by simp
  qed
qed

theorem main_start_fails_offline_witness:
  "\<exists>s s3 s4. main_init (env_now dead_env) demo_io [] = Some s \<and> svc_connect dead_env s3 = (False, s4)"
proof -
  obtain s where s: "main_init (env_now dead_env) demo_io [] = Some s"
    by (cases "main_init (env_now dead_env) demo_io []")
      (auto simp: main_init_def Logger_new_def create_directories_def demo_io_def Let_def
        split: if_splits prod.splits)
  obtain r spawned s' where st: "service_start dead_env s = ((r, spawned), s')"
    using prod.exhaust by metis
  have "\<not> r"
  proof
    assume r: "r"
    obtain n: "\<not> svc_running s" using main_init_auth [OF s] by blast
    have "\<not> ok" if "svc_connect dead_env t = (ok, t')" "svc_mqtt t = Some 0"
      "svc_heap t = (\<lambda>_. SomeipClient_new demo_someip_config)" for t ok t'
      using that by (auto simp: svc_connect_def svc_on_client_def dead_env_def SomeipClient_connect_def
          SomeipClient_new_def Let_def)
    note no = this
    have h: "svc_heap s = (\<lambda>_. SomeipClient_new demo_someip_config)" "svc_mqtt s = Some 0"
      using s by (auto simp: main_init_def ConnectivityService_new_def split: option.splits prod.splits)
    from n show False
    proof (cases rule: service_start_cases [where E = dead_env])
      case (launched s2 s4)
      have "svc_heap s2 = svc_heap s" "svc_mqtt s2 = svc_mqtt s"
        using svc_authenticate_frame [OF launched(1)] by (simp_all add: same_control_def)
      with no [OF launched(2)] h show False by simp
    qed (use st r in auto)
  qed
  with st have "service_start dead_env s = ((False, spawned), s')" by simp
  from main_start_fails_offline [OF s this] s show ?thesis by blast
qed

end
