(* ===== verification/Cloud_Threads.thy ===== *)
theory Cloud_Threads
  imports Cloud_Demo
begin

text \<open>
  The sample program with all its threads (\<open>src/main.cpp\<close>): \<open>main\<close>, the listener thread it creates,
  and the worker of the service, interleaved. The service is the process of \<open>Service_Threads\<close> with
  \<open>main\<close> as its single caller; the listener makes one call of the socket interface per step and waits
  in \<open>accept\<close> and \<open>recv\<close>; both sides of the connection meet in the world.
\<close>

section \<open>The listener thread\<close>

text \<open>What the system tells of the calls beside their results: when \<open>accept\<close> and \<open>recv\<close> would block, and
  whether a signal has ended the process. The program installs no handler, so a \<open>SIGPIPE\<close> that a \<open>send\<close>
  raises ends it.\<close>

record 'w blocking_server = "'w server_ops" +
  sv_accept_waits :: "int \<Rightarrow> 'w \<Rightarrow> bool"
  sv_recv_waits :: "int \<Rightarrow> 'w \<Rightarrow> bool"
  sv_killed :: "'w \<Rightarrow> bool"

text \<open>Counters are named after source lines and carry the variables that are live there.\<close>

datatype listener_pc =
    N46 | N56 int | N57 int | N58 int | N62 int | N63 int | N66 int int
  | N74 int int int "byte list" | N76 int int | N78 int | NDone

definition listener_address :: "('w, 'z) server_ops_scheme \<Rightarrow> u16 \<Rightarrow> sockaddr_in" where
  "listener_address V port = \<lparr>sin_port = htons (sv_big_endian V) port,
     sin_addr = htonl (sv_big_endian V) INADDR_LOOPBACK\<rparr>"

definition listener_banner :: "u16 \<Rightarrow> string" where
  "listener_banner port = ''[Cloud] listening for SOME/IP traffic on localhost:'' @ show_nat (unat port)
     @ [CHR 0x0A]"

definition listener_report :: "int \<Rightarrow> byte list \<Rightarrow> string" where
  "listener_report received bs =
     ''[Cloud] received SOME/IP payload: '' @ listener_payload received bs @ [CHR 0x0A]"

text \<open>One step, with what it prints; \<open>None\<close> while the thread waits, and when it has ended.\<close>

fun listener_step ::
  "('w, 'z) blocking_server_scheme \<Rightarrow> u16 \<Rightarrow> listener_pc \<Rightarrow> 'w \<Rightarrow> (listener_pc \<times> string \<times> 'w) option" where
  "listener_step V port N46 w =
     (case sv_socket V w of (fd, w') \<Rightarrow> Some (if fd < 0 then NDone else N56 fd, [], w'))"
| "listener_step V port (N56 fd) w =
     (case sv_bind V fd (listener_address V port) w of (rc, w') \<Rightarrow>
      Some (if rc \<noteq> 0 then N58 fd else N57 fd, [], w'))"
| "listener_step V port (N57 fd) w =
     (case sv_listen V fd 1 w of (rc, w') \<Rightarrow> Some (if rc \<noteq> 0 then N58 fd else N62 fd, [], w'))"
| "listener_step V port (N58 fd) w = Some (NDone, [], sv_close V fd w)"
| "listener_step V port (N62 fd) w = Some (N63 fd, listener_banner port, w)"
| "listener_step V port (N63 fd) w =
     (if sv_accept_waits V fd w then None
      else case sv_accept V fd w of (cfd, w') \<Rightarrow> Some (if cfd < 0 then N78 fd else N66 fd cfd, [], w'))"
| "listener_step V port (N66 fd cfd) w =
     (if sv_recv_waits V cfd w then None
      else case sv_recv V cfd kCloudListenerBufSize w of ((received, bs), w') \<Rightarrow>
        Some (if 0 < received then N74 fd cfd received bs else N76 fd cfd, [], w'))"
| "listener_step V port (N74 fd cfd received bs) w = Some (N76 fd cfd, listener_report received bs, w)"
| "listener_step V port (N76 fd cfd) w = Some (N78 fd, [], sv_close V cfd w)"
| "listener_step V port (N78 fd) w = Some (NDone, [], sv_close V fd w)"
| "listener_step V port NDone w = None"

text \<open>The listener on its own, with fuel.\<close>

fun listener_run ::
  "('w, 'z) blocking_server_scheme \<Rightarrow> u16 \<Rightarrow> nat \<Rightarrow> listener_pc \<Rightarrow> 'w \<Rightarrow> listener_pc \<times> string \<times> 'w" where
  "listener_run V port 0 pc w = (pc, [], w)"
| "listener_run V port (Suc fuel) pc w =
     (case listener_step V port pc w of
        None \<Rightarrow> (pc, [], w)
      | Some (pc', out, w') \<Rightarrow>
          (case listener_run V port fuel pc' w' of (pc2, out2, w2) \<Rightarrow> (pc2, out @ out2, w2)))"

lemma listener_run_done [simp]: "listener_run V port fuel NDone w = (NDone, [], w)"
  by (cases fuel) simp_all

fun listener_rank :: "listener_pc \<Rightarrow> nat" where
  "listener_rank NDone = 0" | "listener_rank (N78 _) = 1" | "listener_rank (N76 _ _) = 2"
| "listener_rank (N74 _ _ _ _) = 3" | "listener_rank (N66 _ _) = 4" | "listener_rank (N63 _) = 5"
| "listener_rank (N62 _) = 6" | "listener_rank (N58 _) = 1" | "listener_rank (N57 _) = 7"
| "listener_rank (N56 _) = 8" | "listener_rank N46 = 9"

lemma listener_step_rank:
  "listener_step V port pc w = Some (pc', out, w') \<Longrightarrow> listener_rank pc' < listener_rank pc"
  by (cases pc) (auto split: if_splits prod.splits)

text \<open>Where the thread waits.\<close>

fun listener_waits :: "('w, 'z) blocking_server_scheme \<Rightarrow> listener_pc \<Rightarrow> 'w \<Rightarrow> bool" where
  "listener_waits V (N63 fd) w = sv_accept_waits V fd w"
| "listener_waits V (N66 fd cfd) w = sv_recv_waits V cfd w"
| "listener_waits V pc w = False"

lemma listener_step_None:
  "listener_step V port pc w = None \<longleftrightarrow> pc = NDone \<or> listener_waits V pc w"
  by (cases pc) (auto split: prod.split)

text \<open>The sequential rest of the listener from each of its points.\<close>

function listener_rest :: "('w, 'z) blocking_server_scheme \<Rightarrow> u16 \<Rightarrow> listener_pc \<Rightarrow> 'w \<Rightarrow> string \<times> 'w" where
  "listener_rest V port N46 w = runCloudListener V port w"
| "listener_rest V port (N56 fd) w =
     (case sv_bind V fd (listener_address V port) w of (rc, w') \<Rightarrow>
      if rc \<noteq> 0 then ([], sv_close V fd w') else listener_rest V port (N57 fd) w')"
| "listener_rest V port (N57 fd) w =
     (case sv_listen V fd 1 w of (rc, w') \<Rightarrow>
      if rc \<noteq> 0 then ([], sv_close V fd w')
      else (case listener_rest V port (N63 fd) w' of (out, w2) \<Rightarrow> (listener_banner port @ out, w2)))"
| "listener_rest V port (N58 fd) w = ([], sv_close V fd w)"
| "listener_rest V port (N62 fd) w =
     (case listener_rest V port (N63 fd) w of (out, w2) \<Rightarrow> (listener_banner port @ out, w2))"
| "listener_rest V port (N63 fd) w =
     (case sv_accept V fd w of (cfd, w') \<Rightarrow>
      if cfd < 0 then ([], sv_close V fd w') else listener_rest V port (N66 fd cfd) w')"
| "listener_rest V port (N66 fd cfd) w =
     (case sv_recv V cfd kCloudListenerBufSize w of ((received, bs), w') \<Rightarrow>
      (if 0 < received then listener_report received bs else [], sv_close V fd (sv_close V cfd w')))"
| "listener_rest V port (N74 fd cfd received bs) w =
     (listener_report received bs, sv_close V fd (sv_close V cfd w))"
| "listener_rest V port (N76 fd cfd) w = ([], sv_close V fd (sv_close V cfd w))"
| "listener_rest V port (N78 fd) w = ([], sv_close V fd w)"
| "listener_rest V port NDone w = ([], w)"
  by pat_completeness auto
termination by (relation "measure (\<lambda>(V, port, pc, w). listener_rank pc)") simp_all

lemma listener_rest_start:
  "runCloudListener V port w = (case sv_socket V w of (fd, w') \<Rightarrow>
     if fd < 0 then ([], w') else listener_rest V port (N56 fd) w')"
  by (simp add: runCloudListener_def listener_address_def [symmetric] listener_banner_def
      listener_report_def Let_def split: prod.split)

lemma listener_step_rest:
  assumes "listener_step V port pc w = Some (pc', out, w')"
  shows "listener_rest V port pc w = (case listener_rest V port pc' w' of (out2, w2) \<Rightarrow> (out @ out2, w2))"
  using assms
  by (cases pc) (auto simp: listener_rest_start split: if_splits prod.splits)

text \<open>C23: The steps of the listener thread implement \<open>runCloudListener\<close>: whatever the socket calls
  do, if the thread run on its own has ended, it has printed and done to the world exactly what the
  function does; and it ends within nine steps unless it waits in \<open>accept\<close> or \<open>recv\<close>.\<close>

theorem listener_thread_refines:
  "case listener_run V port 9 N46 w of (pc, out, w') \<Rightarrow>
     (if pc = NDone then runCloudListener V port w = (out, w') else listener_waits V pc w')"
proof -
  have "case listener_run V port fuel pc w of (pc', out, w') \<Rightarrow>
      (if pc' = NDone then listener_rest V port pc w = (out, w') else listener_waits V pc' w')"
    if "listener_rank pc \<le> fuel" for fuel pc
    using that
  proof (induction fuel arbitrary: pc w)
    case 0
    then show ?case by (cases pc) simp_all
  next
    case (Suc fuel)
    show ?case
    proof (cases "listener_step V port pc w")
      case None
      then have "pc = NDone \<or> (pc \<noteq> NDone \<and> listener_waits V pc w)" by (auto simp: listener_step_None)
      with None show ?thesis by auto
    next
      case (Some r)
      obtain pc1 out1 w1 where r: "r = (pc1, out1, w1)" by (cases r)
      with Some have st: "listener_step V port pc w = Some (pc1, out1, w1)" by simp
      from listener_step_rank [OF st] Suc.prems have "listener_rank pc1 \<le> fuel" by simp
      from Suc.IH [OF this, of w1] listener_step_rest [OF st] st show ?thesis
        by (auto split: prod.splits if_splits)
    qed
  qed
  from this [of N46 9] show ?thesis by (auto split: prod.splits if_splits)
qed

section \<open>The program\<close>

text \<open>\<open>main\<close>: before line 96, before the call of line 98 and inside it, and so on; \<open>Leave n\<close> is
  about to leave its scope with the status \<open>n\<close> to return, \<open>Destroying n\<close> destroys the service,
  \<open>MEnd\<close> is the end of the process.\<close>

datatype main_pc =
    M96 | M98 | M98_call | M99 | M103 | M104 | M104_call | M105
  | Leave int | Destroying int | MEnd exit_status

text \<open>The logger writes to \<open>std::cout\<close> through the log of the service, the listener thread by itself:
  \<open>pg_cloud\<close> is what the listener has inserted.\<close>

record ('c, 'w) program =
  pg_process :: "('c, 'w) process"
  pg_main :: main_pc
  pg_listener :: "listener_pc option"
  pg_joinable :: bool
  pg_cloud :: string
  pg_stderr :: string

abbreviation pg_svc :: "('c, 'w) program \<Rightarrow> ('c, 'w) service" where
  "pg_svc g \<equiv> pr_svc (pg_process g)"

abbreviation pg_caller :: "('c, 'w) program \<Rightarrow> caller_pc" where
  "pg_caller g \<equiv> pr_callers (pg_process g) ! 0"

abbreviation pg_world :: "('c, 'w) program \<Rightarrow> 'w" where
  "pg_world g \<equiv> svc_world (pg_svc g)"

text \<open>The console, as far as it is determined: \<open>std::cout\<close> takes the characters of the logger and of the
  listener each in their order, and may interleave those of different threads.\<close>

definition program_console :: "('c, 'w) program \<Rightarrow> string set" where
  "program_console g = shuffles (stdout_text (svc_log (pg_svc g))) (pg_cloud g)"

definition program_start :: "('c, 'w) service \<Rightarrow> ('c, 'w) program" where
  "program_start s =
     \<lparr>pg_process = launch 1 s, pg_main = M96, pg_listener = None, pg_joinable = False,
      pg_cloud = [], pg_stderr = []\<rparr>"

text \<open>A step of the service's process, after which \<open>main\<close> is at \<open>pc\<close>.\<close>

definition in_process ::
  "('c, 'w) env \<Rightarrow> choice \<Rightarrow> main_pc \<Rightarrow> ('c, 'w) program \<Rightarrow> ('c, 'w) program option" where
  "in_process E ch pc g = map_option (\<lambda>p. g\<lparr>pg_process := p, pg_main := pc\<rparr>) (sched E ch (pg_process g))"

text \<open>\<open>main\<close> leaves its scope: first the thread object is destroyed, which terminates the program if
  it is joinable, then the service.\<close>

fun main_step :: "('c, 'w) env \<Rightarrow> main_pc \<Rightarrow> ('c, 'w) program \<Rightarrow> ('c, 'w) program option" where
  "main_step E M96 g = Some (g\<lparr>pg_listener := Some N46, pg_joinable := True, pg_main := M98\<rparr>)"
| "main_step E M98 g = in_process E (CallStart 0) M98_call g"
| "main_step E M98_call g =
     (case pg_caller g of
        Ready (Some (Start, started)) \<Rightarrow> Some (g\<lparr>pg_main := (if started then M103 else M99)\<rparr>)
      | _ \<Rightarrow> in_process E (Caller 0) M98_call g)"
| "main_step E M99 g = Some (g\<lparr>pg_stderr := pg_stderr g @
       ''Failed to initialize the connectivity service.'' @ [CHR 0x0A], pg_main := Leave 1\<rparr>)"
| "main_step E M103 g =
     Some (g\<lparr>pg_process := on_svc (svc_sleep E kDemoRunDurationSec) (pg_process g), pg_main := M104\<rparr>)"
| "main_step E M104 g = in_process E (CallStop 0) M104_call g"
| "main_step E M104_call g =
     (case pg_caller g of
        Ready (Some (Stop, stopped)) \<Rightarrow> Some (g\<lparr>pg_main := M105\<rparr>)
      | _ \<Rightarrow> in_process E (Caller 0) M104_call g)"
| "main_step E M105 g =
     (if pg_listener g = Some NDone then Some (g\<lparr>pg_joinable := False, pg_main := Leave 0\<rparr>) else None)"
| "main_step E (Leave n) g =
     (if pg_joinable g then Some (g\<lparr>pg_main := MEnd Terminate\<rparr>)
      else in_process E (CallDestroy 0) (Destroying n) g)"
| "main_step E (Destroying n) g =
     (if pg_caller g = Destroyed then Some (g\<lparr>pg_main := MEnd (Exit n)\<rparr>)
      else in_process E (Caller 0) (Destroying n) g)"
| "main_step E (MEnd st) g = None"

datatype actor = Main | Listener | Service nat

definition pg_ended :: "('c, 'w) program \<Rightarrow> bool" where
  "pg_ended g \<longleftrightarrow> (case pg_main g of MEnd st \<Rightarrow> True | _ \<Rightarrow> False)"

definition pg_killed :: "('w, 'z) blocking_server_scheme \<Rightarrow> ('c, 'w) program \<Rightarrow> bool" where
  "pg_killed V g \<longleftrightarrow> sv_killed V (pg_world g)"

text \<open>A step of the program: of \<open>main\<close>, of the listener, or of a worker; none after its end, and none after
  a signal has ended the process.\<close>

fun prog_sched ::
  "('c, 'w) env \<Rightarrow> ('w, 'z) blocking_server_scheme \<Rightarrow> u16 \<Rightarrow> actor \<Rightarrow> ('c, 'w) program
    \<Rightarrow> ('c, 'w) program option" where
  "prog_sched E V port Main g = (if pg_killed V g then None else main_step E (pg_main g) g)"
| "prog_sched E V port Listener g =
     (if pg_killed V g \<or> pg_ended g then None
      else case pg_listener g of
        None \<Rightarrow> None
      | Some pc \<Rightarrow>
          (case listener_step V port pc (pg_world g) of
             None \<Rightarrow> None
           | Some (pc', out, w) \<Rightarrow>
               Some (g\<lparr>pg_process := on_svc (\<lambda>s. s\<lparr>svc_world := w\<rparr>) (pg_process g),
                 pg_listener := Some pc', pg_cloud := pg_cloud g @ out\<rparr>)))"
| "prog_sched E V port (Service i) g =
     (if pg_killed V g \<or> pg_ended g then None else in_process E (Worker i) (pg_main g) g)"

lemma killed_stuck: "pg_killed V g \<Longrightarrow> prog_sched E V port a g = None"
  by (cases a) simp_all

lemma prog_sched_alive: "prog_sched E V port a g = Some g' \<Longrightarrow> \<not> pg_killed V g"
  using killed_stuck by fastforce

inductive prog_reach ::
  "('c, 'w) env \<Rightarrow> ('w, 'z) blocking_server_scheme \<Rightarrow> u16 \<Rightarrow> ('c, 'w) program \<Rightarrow> ('c, 'w) program \<Rightarrow> bool"
for E V port g0 where
  prog_refl: "prog_reach E V port g0 g0"
| prog_step: "prog_reach E V port g0 g \<Longrightarrow> prog_sched E V port a g = Some g' \<Longrightarrow> prog_reach E V port g0 g'"

fun run_actors ::
  "('c, 'w) env \<Rightarrow> ('w, 'z) blocking_server_scheme \<Rightarrow> u16 \<Rightarrow> actor list \<Rightarrow> ('c, 'w) program
    \<Rightarrow> ('c, 'w) program option" where
  "run_actors E V port [] g = Some g"
| "run_actors E V port (a # as) g =
     (case prog_sched E V port a g of None \<Rightarrow> None | Some g' \<Rightarrow> run_actors E V port as g')"

lemma run_actors_reach:
  "prog_reach E V port g0 g \<Longrightarrow> run_actors E V port as g = Some g' \<Longrightarrow> prog_reach E V port g0 g'"
  by (induction as arbitrary: g) (auto split: option.splits intro: prog_step)

section \<open>The invariant of the program\<close>

text \<open>The caller is inside \<open>start\<close> or has its result; the same for \<open>stop\<close>.\<close>

fun in_start :: "caller_pc \<Rightarrow> bool" where
  "in_start (Ready (Some (Start, r))) = True"
| "in_start (Ready r) = False"
| "in_start P57 = False" | "in_start P61 = False" | "in_start P62 = False" | "in_start P63 = False"
| "in_start P64 = False" | "in_start Thrown = False" | "in_start Destroy = False"
| "in_start (Destroy_join t) = False" | "in_start Destroyed = False"
| "in_start pc = True"

fun in_stop :: "caller_pc \<Rightarrow> bool" where
  "in_stop (Ready (Some (Stop, r))) = True"
| "in_stop P57 = True" | "in_stop P61 = True" | "in_stop P62 = True" | "in_stop P63 = True"
| "in_stop P64 = True"
| "in_stop pc = False"

lemma in_start_step: "in_start pc \<Longrightarrow> caller_step E pc p = Some (pc', p') \<Longrightarrow> in_start pc'"
  by (cases pc rule: in_start.cases) (auto split: if_splits option.splits prod.splits)

text \<open>What \<open>main\<close>'s point of execution says about the service's caller. A completed \<open>stop\<close> of a running
  service has stored \<open>Stopped\<close>.\<close>

fun stopping :: "caller_pc \<Rightarrow> ('c, 'w) service \<Rightarrow> bool" where
  "stopping P57 s \<longleftrightarrow> svc_running s"
| "stopping (Ready r) s \<longleftrightarrow> r = Some (Stop, True) \<and> svc_state s = Stopped"
| "stopping pc s \<longleftrightarrow> in_stop pc"

fun main_inv :: "main_pc \<Rightarrow> ('c, 'w) program \<Rightarrow> bool" where
  "main_inv M96 g \<longleftrightarrow> pg_caller g = Ready None \<and> pg_listener g = None \<and> pg_stderr g = []"
| "main_inv M98 g \<longleftrightarrow> pg_caller g = Ready None \<and> pg_joinable g \<and> pg_stderr g = []"
| "main_inv M98_call g \<longleftrightarrow> in_start (pg_caller g) \<and> pg_joinable g \<and> pg_stderr g = []"
| "main_inv M99 g \<longleftrightarrow> pg_caller g = Ready (Some (Start, False)) \<and> pg_joinable g \<and> pg_stderr g = []"
| "main_inv M103 g \<longleftrightarrow> pg_caller g = Ready (Some (Start, True)) \<and> pg_joinable g \<and> pg_stderr g = []"
| "main_inv M104 g \<longleftrightarrow> pg_caller g = Ready (Some (Start, True)) \<and> pg_joinable g \<and> pg_stderr g = []"
| "main_inv M104_call g \<longleftrightarrow> stopping (pg_caller g) (pg_svc g) \<and> pg_joinable g \<and> pg_stderr g = []"
| "main_inv M105 g \<longleftrightarrow> pg_caller g = Ready (Some (Stop, True)) \<and> svc_state (pg_svc g) = Stopped \<and>
     pg_joinable g \<and> pg_stderr g = []"
| "main_inv (Leave n) g \<longleftrightarrow>
     (if pg_joinable g
      then n = 1 \<and> pg_caller g = Ready (Some (Start, False)) \<and>
        pg_stderr g = ''Failed to initialize the connectivity service.'' @ [CHR 0x0A]
      else n = 0 \<and> pg_caller g = Ready (Some (Stop, True)) \<and> svc_state (pg_svc g) = Stopped \<and>
        pg_listener g = Some NDone \<and> pg_stderr g = [])"
| "main_inv (Destroying n) g \<longleftrightarrow> n = 0 \<and> pg_caller g \<in> {Destroy, Destroyed} \<and> \<not> svc_running (pg_svc g) \<and>
     svc_state (pg_svc g) = Stopped \<and> pg_listener g = Some NDone \<and> pg_stderr g = []"
| "main_inv (MEnd st) g \<longleftrightarrow>
     (case st of
        Exit n \<Rightarrow> n = 0 \<and> pg_caller g = Destroyed \<and> \<not> svc_running (pg_svc g) \<and>
          svc_state (pg_svc g) = Stopped \<and> pg_listener g = Some NDone \<and> pg_stderr g = []
      | Terminate \<Rightarrow> pg_joinable g \<and> pg_caller g = Ready (Some (Start, False)) \<and>
          pg_stderr g = ''Failed to initialize the connectivity service.'' @ [CHR 0x0A])"

definition prog_inv :: "('c, 'w) env \<Rightarrow> ('c \<Rightarrow> bool) \<Rightarrow> ('c, 'w) program \<Rightarrow> bool" where
  "prog_inv E I g \<longleftrightarrow> pr_callers (pg_process g) = [pg_caller g] \<and> caller_inv E (pg_caller g) (pg_process g) \<and>
     store_inv I (pg_svc g) \<and> main_inv (pg_main g) g \<and> (pg_listener g = None \<longleftrightarrow> pg_main g = M96)"


lemma worker_step_running:
  "sched E (Worker i) p = Some p' \<Longrightarrow> svc_running (pr_svc p') = svc_running (pr_svc p)"
  by (auto split: if_splits prod.splits dest: loop_step_running)

lemma stopped_idle:
  "caller_inv E (Ready (Some (Stop, r))) p \<Longrightarrow> idle p"
  "caller_inv E (Ready (Some (Start, False))) p \<Longrightarrow> idle p"
  by (auto split: if_splits)

lemma launch_callers [simp]: "pr_callers (launch (Suc 0) s) = [Ready None]"
  by (simp add: launch_def)

context mqtt_client
begin

lemma prog_inv_worker:
  assumes "prog_inv E inv g" and "env_ops E = M" and "sched E (Worker i) (pg_process g) = Some p"
    and "\<not> pg_ended g"
  shows "prog_inv E inv (g\<lparr>pg_process := p\<rparr>)"
proof -
  have inv: "caller_inv E (pg_caller g) (pg_process g)" "store_inv inv (pg_svc g)" "main_inv (pg_main g) g"
    using assms(1) by (simp_all add: prog_inv_def)
  from caller_inv_worker [OF inv(1,2) assms(2,3)]
  have w: "caller_inv E (pg_caller g) p" "store_inv inv (pr_svc p)" "pr_callers p = pr_callers (pg_process g)"
    by simp_all
  have ni: "\<not> idle (pg_process g)" using assms(3) by (metis idle_worker option.distinct(1))
  have "main_inv (pg_main g) (g\<lparr>pg_process := p\<rparr>)"
  proof (cases "pg_main g")
    case M104_call
    with inv w(3) ni worker_step_running [OF assms(3)] show ?thesis
      by (cases "pg_caller g") (auto split: if_splits)
  next
    case (MEnd st)
    with assms(4) show ?thesis by (simp add: pg_ended_def)
  qed (use inv w(3) ni in \<open>auto split: if_splits\<close>)
  with assms(1) w show ?thesis by (simp add: prog_inv_def)
qed

end

lemma svc_online_world [simp]: "svc_online E (s\<lparr>svc_world := w\<rparr>) = svc_online E s"
  by (simp add: svc_online_def split: option.split)

lemma caller_inv_world [simp]:
  "caller_inv E pc (on_svc (\<lambda>s. s\<lparr>svc_world := w\<rparr>) p) = caller_inv E pc p"
  by (cases pc) (simp_all add: live_svc)

lemma svc_sleep_world:
  "on_svc (svc_sleep E n) p = on_svc (\<lambda>s. s\<lparr>svc_world := svc_world (svc_sleep E n (pr_svc p))\<rparr>) p"
  by (simp add: on_svc_def svc_sleep_def)

lemma prog_inv_world:
  assumes "prog_inv E I g" and "pg_main g \<noteq> M96"
    and "\<And>st. pg_main g \<noteq> MEnd st" and "pg_listener g = Some pc" and "pc \<noteq> NDone"
  shows "prog_inv E I (g\<lparr>pg_process := on_svc (\<lambda>s. s\<lparr>svc_world := w\<rparr>) (pg_process g),
    pg_listener := Some pc', pg_cloud := out\<rparr>)"
proof -
  let ?g = "g\<lparr>pg_process := on_svc (\<lambda>s. s\<lparr>svc_world := w\<rparr>) (pg_process g),
    pg_listener := Some pc', pg_cloud := out\<rparr>"
  have "main_inv (pg_main g) ?g"
  proof (cases "pg_main g")
    case M104_call
    with assms show ?thesis by (cases "pg_caller g") (auto simp: prog_inv_def)
  qed (use assms in \<open>auto simp: prog_inv_def split: if_splits\<close>)
  with assms show ?thesis by (simp add: prog_inv_def store_inv_def)
qed

lemma in_process_Some:
  "in_process E ch pc g = Some g' \<longleftrightarrow>
     (\<exists>p. sched E ch (pg_process g) = Some p \<and> g' = g\<lparr>pg_process := p, pg_main := pc\<rparr>)"
  by (auto simp: in_process_def)

text \<open>What a step of \<open>main\<close> does: create the listener, a statement of its own, sleep, or a step of a call.\<close>

lemma main_step_cases:
  assumes "main_step E pc g = Some g'"
  obtains (create) "pc = M96" "pg_process g' = pg_process g" "pg_listener g' = Some N46"
      "pg_cloud g' = pg_cloud g" "pg_main g' \<noteq> M96"
  | (local) "pg_process g' = pg_process g" "pg_listener g' = pg_listener g"
      "pg_cloud g' = pg_cloud g" "pg_main g' \<noteq> M96"
  | (sleep) n where "pg_process g' = on_svc (svc_sleep E n) (pg_process g)" "pg_listener g' = pg_listener g"
      "pg_cloud g' = pg_cloud g" "pg_main g' \<noteq> M96"
  | (call) ch m where "in_process E ch m g = Some g'" "m \<noteq> M96"
      "ch \<in> {CallStart 0, CallStop 0, CallDestroy 0, Caller 0}"
proof (cases pc)
  case M96
  with assms create show ?thesis by auto
next
  case M98
  with assms call show ?thesis by auto
next
  case M98_call
  show ?thesis
  proof (cases "\<exists>r. pg_caller g = Ready (Some (Start, r))")
    case True
    with assms M98_call local show ?thesis by (auto split: if_splits)
  next
    case False
    then have "main_step E M98_call g = in_process E (Caller 0) M98_call g"
      by (cases "pg_caller g" rule: in_start.cases) simp_all
    with assms M98_call call show ?thesis by auto
  qed
next
  case M99
  with assms local show ?thesis by auto
next
  case M103
  with assms sleep show ?thesis by auto
next
  case M104
  with assms call show ?thesis by auto
next
  case M104_call
  show ?thesis
  proof (cases "\<exists>r. pg_caller g = Ready (Some (Stop, r))")
    case True
    with assms M104_call local show ?thesis by auto
  next
    case False
    then have "main_step E M104_call g = in_process E (Caller 0) M104_call g"
      by (cases "pg_caller g" rule: in_stop.cases) simp_all
    with assms M104_call call show ?thesis by auto
  qed
next
  case M105
  with assms local show ?thesis by (auto split: if_splits)
next
  case (Leave n)
  with assms local call show ?thesis by (auto split: if_splits)
next
  case (Destroying n)
  with assms local call show ?thesis by (auto split: if_splits)
next
  case (MEnd st)
  with assms show ?thesis by simp
qed

context mqtt_client
begin

text \<open>A step of the service by its caller keeps the first three parts of the invariant.\<close>

lemma prog_inv_caller:
  assumes "prog_inv E inv g" and "env_ops E = M" and "sched E ch (pg_process g) = Some p"
  shows "pr_callers p = [pr_callers p ! 0] \<and> caller_inv E (pr_callers p ! 0) p \<and> store_inv inv (pr_svc p)"
proof -
  from single_caller_step [OF _ _ _ assms(2,3), of "pg_caller g"] assms(1)
  obtain pc' where "pr_callers p = [pc']" "caller_inv E pc' p" "store_inv inv (pr_svc p)"
    by (auto simp: prog_inv_def)
  then show ?thesis by simp
qed

lemma caller_sched:
  assumes "prog_inv E inv g" and "sched E (Caller 0) (pg_process g) = Some p"
  obtains p1 where "caller_step E (pg_caller g) (pg_process g) = Some (pr_callers p ! 0, p1)"
    and "pr_svc p = pr_svc p1"
proof -
  have one: "length (pr_callers (pg_process g)) = 1"
    using assms(1) by (metis prog_inv_def length_Cons list.size(3) One_nat_def)
  with assms(2) obtain pc p1 where "caller_step E (pg_caller g) (pg_process g) = Some (pc, p1)"
    and "p = p1\<lparr>pr_callers := (pr_callers (pg_process g))[0 := pc]\<rparr>"
    by (auto split: option.splits if_splits)
  with one that show ?thesis by simp
qed

lemma prog_inv_start_call:
  assumes "prog_inv E inv g" and "env_ops E = M" and "pg_main g = M98_call"
    and "sched E (Caller 0) (pg_process g) = Some p"
  shows "prog_inv E inv (g\<lparr>pg_process := p, pg_main := M98_call\<rparr>)"
proof -
  from caller_sched [OF assms(1,4)] obtain p1 where
    "caller_step E (pg_caller g) (pg_process g) = Some (pr_callers p ! 0, p1)" by blast
  with assms(1,3) have "in_start (pr_callers p ! 0)"
    by (auto simp: prog_inv_def intro: in_start_step)
  with prog_inv_caller [OF assms(1,2,4)] assms(1,3) show ?thesis
    by (simp add: prog_inv_def)
qed

lemma stopping_step:
  assumes "stopping pc (pr_svc p)" and "caller_step E pc p = Some (pc', p')" and "caller_inv E pc p"
  shows "stopping pc' (pr_svc p')"
  using assms by (cases pc) (auto split: if_splits option.splits)

lemma prog_inv_stop_call:
  assumes "prog_inv E inv g" and "env_ops E = M" and "pg_main g = M104_call"
    and "sched E (Caller 0) (pg_process g) = Some p"
  shows "prog_inv E inv (g\<lparr>pg_process := p, pg_main := M104_call\<rparr>)"
proof -
  from caller_sched [OF assms(1,4)] obtain p1 where
    "caller_step E (pg_caller g) (pg_process g) = Some (pr_callers p ! 0, p1)" "pr_svc p = pr_svc p1"
    by blast
  with assms(1,3) stopping_step [of "pg_caller g" "pg_process g"] have "stopping (pr_callers p ! 0) (pr_svc p)"
    by (auto simp: prog_inv_def)
  with prog_inv_caller [OF assms(1,2,4)] assms(1,3) show ?thesis
    by (simp add: prog_inv_def)
qed

lemma prog_inv_destroy_call:
  assumes "prog_inv E inv g" and "env_ops E = M" and "pg_main g = Destroying n"
    and "sched E (Caller 0) (pg_process g) = Some p" and "pg_caller g \<noteq> Destroyed"
  shows "prog_inv E inv (g\<lparr>pg_process := p, pg_main := Destroying n\<rparr>)"
proof -
  from assms(1,3,5) have d: "pg_caller g = Destroy" and i: "idle (pg_process g)"
    by (auto simp: prog_inv_def)
  from caller_sched [OF assms(1,4)] obtain p1 where
    "caller_step E (pg_caller g) (pg_process g) = Some (pr_callers p ! 0, p1)" "pr_svc p = pr_svc p1"
    by blast
  with d i have "pr_callers p ! 0 = Destroyed" "pr_svc p = pg_svc g" by (auto simp: idle_def)
  with prog_inv_caller [OF assms(1,2,4)] assms(1,3) show ?thesis
    by (simp add: prog_inv_def)
qed

end

context mqtt_client
begin

lemma prog_inv_call:
  assumes "prog_inv E inv g" and "env_ops E = M" and "sched E ch (pg_process g) = Some p"
    and "main_inv m (g\<lparr>pg_process := p, pg_main := m\<rparr>)"
    and "pg_listener g \<noteq> None" and "m \<noteq> M96"
  shows "prog_inv E inv (g\<lparr>pg_process := p, pg_main := m\<rparr>)"
  using prog_inv_caller [OF assms(1-3)] assms by (simp add: prog_inv_def)

lemma main_start_inv:
  assumes "prog_inv E inv g" and "env_ops E = M" and "main_step E (pg_main g) g = Some g'"
    and "pg_main g = M98 \<or> pg_main g = M98_call"
  shows "prog_inv E inv g'"
proof -
  have one: "pr_callers (pg_process g) = [pg_caller g]" and main: "main_inv (pg_main g) g"
    using assms(1) by (simp_all add: prog_inv_def)
  from assms(4) show ?thesis
  proof (elim disjE)
    assume M98: "pg_main g = M98"
    with assms(3) main one obtain p where p: "sched E (CallStart 0) (pg_process g) = Some p"
      "g' = g\<lparr>pg_process := p, pg_main := M98_call\<rparr>" "pr_callers p ! 0 = S24"
      by (auto simp: in_process_Some)
    from p(3) main M98 have "main_inv M98_call (g\<lparr>pg_process := p, pg_main := M98_call\<rparr>)" by simp
    from prog_inv_call [OF assms(1,2) p(1) this] p(2) assms(1) M98 show ?thesis
      by (simp add: prog_inv_def)
  next
    assume M98_call: "pg_main g = M98_call"
    show ?thesis
    proof (cases "\<exists>r. pg_caller g = Ready (Some (Start, r))")
      case True
      then obtain r where "pg_caller g = Ready (Some (Start, r))" by blast
      with assms(1,3) M98_call show ?thesis by (cases r) (auto simp: prog_inv_def)
    next
      case False
      with assms(3) M98_call main obtain p where "sched E (Caller 0) (pg_process g) = Some p"
        "g' = g\<lparr>pg_process := p, pg_main := M98_call\<rparr>"
        by (cases "pg_caller g" rule: in_start.cases) (auto simp: in_process_Some)
      with prog_inv_start_call [OF assms(1,2) M98_call] show ?thesis by simp
    qed
  qed
qed

lemma main_stop_inv:
  assumes "prog_inv E inv g" and "env_ops E = M" and "main_step E (pg_main g) g = Some g'"
    and "pg_main g = M104 \<or> pg_main g = M104_call"
  shows "prog_inv E inv g'"
proof -
  have one: "pr_callers (pg_process g) = [pg_caller g]" and main: "main_inv (pg_main g) g"
    using assms(1) by (simp_all add: prog_inv_def)
  from assms(4) show ?thesis
  proof (elim disjE)
    assume M104: "pg_main g = M104"
    with assms(3) main one obtain p where p: "sched E (CallStop 0) (pg_process g) = Some p"
      "g' = g\<lparr>pg_process := p, pg_main := M104_call\<rparr>" "pr_callers p ! 0 = P57"
      by (auto simp: in_process_Some)
    have "svc_running (pg_svc g)" using assms(1) M104 by (auto simp: prog_inv_def split: if_splits)
    moreover have "pr_svc p = pg_svc g" using p(1) by (auto split: if_splits)
    ultimately have "main_inv M104_call (g\<lparr>pg_process := p, pg_main := M104_call\<rparr>)"
      using p(3) main M104 by simp
    from prog_inv_call [OF assms(1,2) p(1) this] p(2) assms(1) M104 show ?thesis
      by (simp add: prog_inv_def)
  next
    assume M104_call: "pg_main g = M104_call"
    show ?thesis
    proof (cases "\<exists>r. pg_caller g = Ready (Some (Stop, r))")
      case True
      with assms(1,3) M104_call show ?thesis by (auto simp: prog_inv_def)
    next
      case False
      with assms(3) M104_call main obtain p where "sched E (Caller 0) (pg_process g) = Some p"
        "g' = g\<lparr>pg_process := p, pg_main := M104_call\<rparr>"
        by (cases "pg_caller g" rule: in_stop.cases) (auto simp: in_process_Some)
      with prog_inv_stop_call [OF assms(1,2) M104_call] show ?thesis by simp
    qed
  qed
qed

lemma main_leave_inv:
  assumes "prog_inv E inv g" and "env_ops E = M" and "main_step E (pg_main g) g = Some g'"
    and "pg_main g = Leave n \<or> pg_main g = Destroying n"
  shows "prog_inv E inv g'"
proof -
  have one: "pr_callers (pg_process g) = [pg_caller g]" and main: "main_inv (pg_main g) g"
    using assms(1) by (simp_all add: prog_inv_def)
  from assms(4) show ?thesis
  proof (elim disjE)
    assume Leave: "pg_main g = Leave n"
    show ?thesis
    proof (cases "pg_joinable g")
      case True
      with Leave assms(1,3) show ?thesis by (auto simp: prog_inv_def)
    next
      case False
      with Leave assms(3) main one obtain p where p: "sched E (CallDestroy 0) (pg_process g) = Some p"
        "g' = g\<lparr>pg_process := p, pg_main := Destroying n\<rparr>" "pr_callers p ! 0 = Destroy"
        by (auto simp: in_process_Some)
      have "pr_svc p = pg_svc g" using p(1) by (auto split: if_splits)
      moreover have "\<not> svc_running (pg_svc g)"
        using False Leave main assms(1) by (auto simp: prog_inv_def split: if_splits)
      ultimately have "main_inv (Destroying n) (g\<lparr>pg_process := p, pg_main := Destroying n\<rparr>)"
        using p(3) main False Leave by simp
      from prog_inv_call [OF assms(1,2) p(1) this] p(2) assms(1) Leave show ?thesis
        by (simp add: prog_inv_def)
    qed
  next
    assume Destroying: "pg_main g = Destroying n"
    show ?thesis
    proof (cases "pg_caller g = Destroyed")
      case True
      with Destroying assms(1,3) show ?thesis by (auto simp: prog_inv_def)
    next
      case False
      with Destroying assms(3) obtain p where "sched E (Caller 0) (pg_process g) = Some p"
        "g' = g\<lparr>pg_process := p, pg_main := Destroying n\<rparr>"
        by (auto simp: in_process_Some)
      with prog_inv_destroy_call [OF assms(1,2) Destroying _ False] show ?thesis by simp
    qed
  qed
qed

lemma main_step_inv:
  assumes "prog_inv E inv g" and "env_ops E = M" and "main_step E (pg_main g) g = Some g'"
  shows "prog_inv E inv g'"
proof (cases "pg_main g")
  case M98
  with main_start_inv [OF assms] show ?thesis by simp
next
  case M98_call
  with main_start_inv [OF assms] show ?thesis by simp
next
  case M103
  have "caller_inv E pc (on_svc (svc_sleep E n) p) = caller_inv E pc p" for pc n p
    by (simp add: svc_sleep_world)
  with M103 assms(1,3) show ?thesis
    by (auto simp: prog_inv_def svc_sleep_def store_inv_def simp del: caller_inv.simps)
next
  case M104
  with main_stop_inv [OF assms] show ?thesis by simp
next
  case M104_call
  with main_stop_inv [OF assms] show ?thesis by simp
next
  case (Leave n)
  with main_leave_inv [OF assms] show ?thesis by simp
next
  case (Destroying n)
  with main_leave_inv [OF assms] show ?thesis by simp
next
  case (MEnd st)
  with assms(3) show ?thesis by simp
qed (use assms(1,3) in \<open>auto simp: prog_inv_def split: if_splits\<close>)

lemma prog_sched_inv:
  assumes "prog_inv E inv g" and "env_ops E = M" and "prog_sched E V port a g = Some g'"
  shows "prog_inv E inv g'"
proof (cases a)
  case Main
  with main_step_inv [OF assms(1,2)] assms(3) show ?thesis by simp
next
  case Listener
  with assms(3) obtain pc pc' out w where l: "pg_listener g = Some pc" "\<not> pg_ended g"
    "listener_step V port pc (svc_world (pg_svc g)) = Some (pc', out, w)"
    "g' = g\<lparr>pg_process := on_svc (\<lambda>s. s\<lparr>svc_world := w\<rparr>) (pg_process g),
        pg_listener := Some pc', pg_cloud := pg_cloud g @ out\<rparr>"
    by (auto split: option.splits if_splits)
  have "pc \<noteq> NDone" using l(3) by auto
  moreover have "pg_main g \<noteq> M96" using assms(1) l(1) by (simp add: prog_inv_def)
  moreover have "pg_main g \<noteq> MEnd st" for st using l(2) by (auto simp: pg_ended_def)
  ultimately show ?thesis using prog_inv_world [OF assms(1) _ _ l(1)] l(4) by blast
next
  case (Service i)
  with assms(3) obtain p where "sched E (Worker i) (pg_process g) = Some p" "\<not> pg_ended g"
    "g' = g\<lparr>pg_process := p\<rparr>"
    by (auto simp: in_process_Some split: if_splits)
  with prog_inv_worker [OF assms(1,2)] show ?thesis by simp
qed

lemma prog_reach_inv:
  assumes "prog_reach E V port g0 g" and "env_ops E = M" and "prog_inv E inv g0"
  shows "prog_inv E inv g"
  using assms(1) by (induction rule: prog_reach.induct) (use assms(2,3) in \<open>auto intro: prog_sched_inv\<close>)

end

section \<open>Properties of the program\<close>

lemma program_start_inv:
  assumes "main_init now io w = Some s" and "env_ops E = someip_client_ops S"
  shows "prog_inv E someip_inv (program_start s)"
proof -
  have "svc_heap s = (\<lambda>_. SomeipClient_new demo_someip_config)" "\<not> svc_running s"
    "svc_state s = Stopped"
    using assms(1) by (auto simp: main_init_def ConnectivityService_new_def split: option.splits prod.splits)
  with assms(2) show ?thesis
    by (simp add: prog_inv_def program_start_def launch_def idle_def svc_online_def store_inv_def
        SomeipClient_new_def SomeipClient_isConnected_def someip_inv_def kInvalidSocketFd_def
        split: option.split)
qed

lemma program_reach_inv:
  assumes "main_init (env_now E) io w = Some s" and "env_ops E = someip_client_ops S"
    and "prog_reach E V port (program_start s) g"
  shows "prog_inv E someip_inv g"
  by (rule mqtt_client.prog_reach_inv
      [OF someip.mqtt_client_axioms assms(3,2) program_start_inv [OF assms(1,2)]])

text \<open>Why \<open>start\<close> fails: never because of the login, since the demo backend accepts the credentials that
  \<open>main\<close> passes, so because of a connection that was refused in line 41.\<close>

definition accepted_login :: "('c, 'w) service \<Rightarrow> bool" where
  "accepted_login s \<longleftrightarrow>
     (\<exists>vid secret. svc_login s = Some (Some DemoAuthBackend, vid, secret) \<and> vid \<noteq> [] \<and> secret \<noteq> [])"

definition connection_failed ::
  "('c, 'w) env \<Rightarrow> ('w, 'z) blocking_server_scheme \<Rightarrow> u16 \<Rightarrow> ('c, 'w) program \<Rightarrow> ('c, 'w) program \<Rightarrow> bool" where
  "connection_failed E V port g0 g \<longleftrightarrow>
     (\<exists>g1. prog_reach E V port g0 g1 \<and> pg_caller g1 = S41 \<and> \<not> fst (svc_connect E (pg_svc g1)) \<and>
        prog_reach E V port g1 g)"

fun why_failed :: "bool \<Rightarrow> caller_pc \<Rightarrow> bool" where
  "why_failed b S32 \<longleftrightarrow> False" | "why_failed b S33 \<longleftrightarrow> False" | "why_failed b S34 \<longleftrightarrow> False"
| "why_failed b S42 \<longleftrightarrow> b" | "why_failed b S43 \<longleftrightarrow> b" | "why_failed b S44 \<longleftrightarrow> b"
| "why_failed b (Ready (Some (Start, False))) \<longleftrightarrow> b"
| "why_failed b pc \<longleftrightarrow> True"

lemma why_failed_mono: "why_failed b pc \<Longrightarrow> (b \<Longrightarrow> b') \<Longrightarrow> why_failed b' pc"
  by (cases "(b, pc)" rule: why_failed.cases) auto

lemma accepted_authenticate:
  assumes "accepted_login s" and "svc_authenticate E s = (r, s')"
  shows "r"
proof -
  from assms(1) obtain ac where "svc_auth s = Some ac" "ac_backend ac = Some DemoAuthBackend"
    "ac_vehicle_id ac \<noteq> []" "ac_vehicle_secret ac \<noteq> []"
    by (auto simp: accepted_login_def svc_login_def)
  then show ?thesis by (rule demo_backend_login [OF _ _ _ _ assms(2)])
qed

lemma caller_step_why:
  assumes "caller_step E pc p = Some (pc', p')" and "why_failed b pc" and "accepted_login (pr_svc p)"
    and "pc = S41 \<Longrightarrow> \<not> fst (svc_connect E (pr_svc p)) \<Longrightarrow> b"
  shows "why_failed b pc'"
  using assms accepted_authenticate [OF assms(3), of E]
  by (cases pc) (auto split: prod.splits if_splits option.splits)

lemma connection_failed_step:
  "connection_failed E V port g0 g \<Longrightarrow> prog_sched E V port a g = Some g' \<Longrightarrow> connection_failed E V port g0 g'"
  unfolding connection_failed_def by (blast intro: prog_step)

definition start_history ::
  "('c, 'w) env \<Rightarrow> ('w, 'z) blocking_server_scheme \<Rightarrow> u16 \<Rightarrow> ('c, 'w) program \<Rightarrow> ('c, 'w) program \<Rightarrow> bool" where
  "start_history E V port g0 g \<longleftrightarrow>
     accepted_login (pg_svc g) \<and> why_failed (connection_failed E V port g0 g) (pg_caller g)"

lemma call_why:
  assumes "sched E ch p = Some p'" and "pr_callers p = [pc]" and "ch \<in> {CallStart 0, CallStop 0, CallDestroy 0, Caller 0}"
    and "why_failed b pc" and "accepted_login (pr_svc p)"
    and "pc = S41 \<Longrightarrow> \<not> fst (svc_connect E (pr_svc p)) \<Longrightarrow> b"
  shows "why_failed b (pr_callers p' ! 0)"
  using assms(3)
proof (elim insertE emptyE)
  assume "ch = Caller 0"
  with assms(1,2) obtain pc' q where "caller_step E pc p = Some (pc', q)" "pr_callers p' ! 0 = pc'"
    by (auto split: option.splits)
  with caller_step_why [OF _ assms(4,5,6)] show ?thesis by simp
qed (use assms(1,2) in \<open>auto split: if_splits\<close>)

lemma start_history_step:
  assumes "start_history E V port g0 g" and "pr_callers (pg_process g) = [pg_caller g]"
    and "prog_reach E V port g0 g" and "prog_sched E V port a g = Some g'"
  shows "start_history E V port g0 g'"
proof -
  let ?b = "connection_failed E V port g0 g'"
  have old: "accepted_login (pg_svc g)" "why_failed ?b (pg_caller g)"
    using assms(1) connection_failed_step [OF _ assms(4)] why_failed_mono by (auto simp: start_history_def)
  have fails: ?b if "pg_caller g = S41" "\<not> fst (svc_connect E (pg_svc g))"
    using that assms(3) prog_step [OF prog_refl assms(4)] by (auto simp: connection_failed_def)
  show ?thesis
  proof (cases a)
    case Main
    with assms(4) have "main_step E (pg_main g) g = Some g'" by simp
    then show ?thesis
    proof (cases rule: main_step_cases)
      case (sleep n)
      with old show ?thesis by (simp add: start_history_def accepted_login_def)
    next
      case (call ch m)
      then obtain p where p: "sched E ch (pg_process g) = Some p" "pg_process g' = p" by (auto simp: in_process_Some)
      from call_why [OF p(1) assms(2) call(3) old(2,1)] fails p(2) sched_login [OF p(1)] old(1)
      show ?thesis by (simp add: start_history_def accepted_login_def)
    qed (use old in \<open>simp_all add: start_history_def\<close>)
  next
    case Listener
    with assms(4) old show ?thesis
      by (auto simp: start_history_def accepted_login_def on_svc_def split: if_splits option.splits)
  next
    case (Service i)
    with assms(4) obtain p where p: "sched E (Worker i) (pg_process g) = Some p" "pg_process g' = p"
      by (auto simp: in_process_Some simp del: sched.simps)
    have "pr_callers p = pr_callers (pg_process g)" using p(1) by (auto split: if_splits prod.splits)
    with p sched_login [OF p(1)] old show ?thesis by (simp add: start_history_def accepted_login_def)
  qed
qed

lemma program_start_history:
  assumes "main_init (env_now E) io w = Some s" and "env_ops E = someip_client_ops S"
    and "prog_reach E V port (program_start s) g"
  shows "start_history E V port (program_start s) g"
  using assms(3)
proof (induction rule: prog_reach.induct)
  case prog_refl
  from main_init_auth [OF assms(1)] show ?case
    by (auto simp: start_history_def accepted_login_def svc_login_def program_start_def launch_def)
next
  case (prog_step g a g')
  have "pr_callers (pg_process g) = [pg_caller g]"
    using program_reach_inv [OF assms(1,2) prog_step.hyps(1)] by (simp add: prog_inv_def)
  from start_history_step [OF prog_step.IH this prog_step.hyps] show ?case .
qed

text \<open>C20: How \<open>main\<close> ends the sample program, for any sockets, clocks and interleaving of \<open>main\<close>, the
  listener and the worker, when no signal ends it before: either with status 0, and then the listener
  has returned before, the service is stopped and offline and nothing was printed to \<open>stderr\<close>; or by
  \<open>std::terminate\<close>, and then a connection attempt of \<open>start\<close> in line 41 had failed before, \<open>start\<close> had
  returned false, the message was printed and the listener thread was still joinable. It never ends
  with status 1. In both cases no worker is left and the client is closed.\<close>

theorem program_outcome:
  assumes "main_init (env_now E) io w = Some s" and "env_ops E = someip_client_ops S"
    and "prog_reach E V port (program_start s) g" and "pg_main g = MEnd st"
  shows "(\<forall>i < length (pr_threads (pg_process g)). finished i (pg_process g)) \<and>
    \<not> svc_online E (pg_svc g) \<and>
    (case st of
       Exit n \<Rightarrow> n = 0 \<and> pg_listener g = Some NDone \<and> \<not> svc_running (pg_svc g) \<and>
         svc_state (pg_svc g) = Stopped \<and> pg_stderr g = []
     | Terminate \<Rightarrow> pg_joinable g \<and> pg_caller g = Ready (Some (Start, False)) \<and> svc_state (pg_svc g) = Disconnected \<and>
         pg_stderr g = ''Failed to initialize the connectivity service.'' @ [CHR 0x0A] \<and>
         (\<exists>g1. prog_reach E V port (program_start s) g1 \<and> pg_caller g1 = S41 \<and>
            \<not> fst (svc_connect E (pg_svc g1)) \<and> prog_reach E V port g1 g))"
proof -
  have inv: "caller_inv E (pg_caller g) (pg_process g)" "main_inv (MEnd st) g"
    using program_reach_inv [OF assms(1-3)] assms(4) by (simp_all add: prog_inv_def)
  show ?thesis
  proof (cases st)
    case (Exit n)
    with inv show ?thesis by (auto simp: idle_def)
  next
    case Terminate
    with inv(2) have c: "pg_caller g = Ready (Some (Start, False))" by simp
    then have "connection_failed E V port (program_start s) g"
      using program_start_history [OF assms(1-3)] by (simp add: start_history_def)
    with Terminate inv c show ?thesis by (auto simp: idle_def connection_failed_def split: if_splits)
  qed
qed

lemma main_can_step:
  "\<not> pg_killed V g \<Longrightarrow> main_step E (pg_main g) g \<noteq> None \<Longrightarrow> \<exists>a. prog_sched E V port a g \<noteq> None"
  by (metis prog_sched.simps(1))

text \<open>A call of the service in progress can go on, or the worker it waits for can.\<close>

lemma call_can_step:
  assumes "caller_inv E (pg_caller g) (pg_process g)" and "pr_callers (pg_process g) = [pg_caller g]"
    and "\<not> is_ready (pg_caller g)" and "pg_caller g \<noteq> Destroyed" and "\<not> pg_ended g" and "\<not> pg_killed V g"
    and "main_step E (pg_main g) g = in_process E (Caller 0) (pg_main g) g"
  shows "\<exists>a. prog_sched E V port a g \<noteq> None"
proof -
  from caller_inv_progress [OF assms(1-4)]
  consider p where "sched E (Caller 0) (pg_process g) = Some p"
    | t p where "sched E (Worker t) (pg_process g) = Some p"
    by blast
  then show ?thesis
  proof cases
    case 1
    with assms(6,7) show ?thesis by (intro main_can_step) (simp_all add: in_process_def)
  next
    case 2
    with assms(5,6) have "prog_sched E V port (Service t) g \<noteq> None" by (simp add: in_process_def)
    then show ?thesis by blast
  qed
qed

text \<open>While \<open>main\<close> is in \<open>start\<close> or \<open>stop\<close> it can go on, or the call can.\<close>

lemma call_main_can_step:
  assumes "caller_inv E (pg_caller g) (pg_process g)" and "pr_callers (pg_process g) = [pg_caller g]"
    and "main_inv (pg_main g) g" and "pg_main g \<in> {M98_call, M104_call}" and "\<not> pg_killed V g"
  shows "\<exists>a. prog_sched E V port a g \<noteq> None"
proof (cases "is_ready (pg_caller g)")
  case True
  with assms(3,4) have "main_step E (pg_main g) g \<noteq> None"
    by (cases "pg_caller g" rule: in_start.cases) auto
  with assms(5) show ?thesis by (rule main_can_step)
next
  case False
  moreover have "pg_caller g \<noteq> Destroyed" "\<not> pg_ended g" using assms(3,4) by (auto simp: pg_ended_def)
  moreover have "main_step E (pg_main g) g = in_process E (Caller 0) (pg_main g) g"
    using False assms(4) by (cases "pg_caller g") auto
  ultimately show ?thesis using call_can_step [OF assms(1,2)] assms(5) by blast
qed

text \<open>In line 105 the listener can go on or waits.\<close>

lemma join_can_step:
  assumes "pg_main g = M105" and "pg_listener g = Some pc" and "\<not> pg_killed V g"
  shows "(\<exists>a. prog_sched E V port a g \<noteq> None) \<or> listener_waits V pc (svc_world (pg_svc g))"
proof (cases "listener_step V port pc (svc_world (pg_svc g))")
  case None
  with assms main_can_step [of V g E port] show ?thesis by (auto simp: listener_step_None)
next
  case (Some r)
  with assms have "prog_sched E V port Listener g \<noteq> None" by (cases r) (simp add: pg_ended_def)
  then show ?thesis by blast
qed

text \<open>The sample program cannot hang but on its cloud: in every reachable state before its end by itself or
  by a signal,
  \<open>main\<close>, the listener or the worker can make a step, except that \<open>main\<close> may wait in line 105 for a
  listener that waits in \<open>accept\<close> or \<open>recv\<close>; by then the service is stopped and its connection is
  closed.\<close>

theorem program_progress:
  assumes "main_init (env_now E) io w = Some s" and "env_ops E = someip_client_ops S"
    and "prog_reach E V port (program_start s) g" and "\<not> pg_ended g" and "\<not> pg_killed V g"
  shows "(\<exists>a. prog_sched E V port a g \<noteq> None) \<or>
    (pg_main g = M105 \<and> (\<exists>pc. pg_listener g = Some pc \<and> listener_waits V pc (svc_world (pg_svc g))) \<and>
     svc_state (pg_svc g) = Stopped \<and> \<not> svc_online E (pg_svc g))"
proof -
  have inv: "pr_callers (pg_process g) = [pg_caller g]" "caller_inv E (pg_caller g) (pg_process g)"
    "main_inv (pg_main g) g" "pg_listener g = None \<longleftrightarrow> pg_main g = M96"
    using program_reach_inv [OF assms(1-3)] by (simp_all add: prog_inv_def)
  note main = main_can_step [OF assms(5), of E port]
  show ?thesis
  proof (cases "pg_main g")
    case M98_call
    with call_main_can_step [OF inv(2,1,3)] assms(5) show ?thesis by simp
  next
    case M104_call
    with call_main_can_step [OF inv(2,1,3)] assms(5) show ?thesis by simp
  next
    case M105
    with inv(4) obtain pc where "pg_listener g = Some pc" by auto
    with join_can_step [OF M105 this assms(5), of E port] inv(2,3) M105 show ?thesis by (auto split: if_splits)
  next
    case (Leave n)
    with inv(1,3) main show ?thesis by (auto simp: in_process_def split: if_splits)
  next
    case (Destroying n)
    with inv(3) main call_can_step [OF inv(2,1) _ _ assms(4,5)] show ?thesis by auto
  next
    case (MEnd st)
    with assms(4) show ?thesis by (simp add: pg_ended_def)
  qed (use inv(1,3) main in \<open>auto simp: in_process_def\<close>)
qed

section \<open>The race between the listener and \<open>start\<close>\<close>

text \<open>A loopback network with one port: \<open>connect\<close> is refused until the server socket listens, a
  connection is pending until it is accepted, what is sent is a stream of bytes, and \<open>recv\<close> waits for
  more of it or for its end. Once the server has closed its side of the connection, the next \<open>send\<close>
  provokes a reset, and one after that fails and raises the signal unless its flags forbid it.\<close>

datatype peer = Present | Gone | Reset | Signalled

record loopback =
  lb_listening :: bool
  lb_pending :: bool
  lb_stream :: "byte list"
  lb_taken :: nat
  lb_closed :: bool
  lb_peer :: peer

definition quiet_net :: loopback where
  "quiet_net = \<lparr>lb_listening = False, lb_pending = False, lb_stream = [], lb_taken = 0, lb_closed = False,
     lb_peer = Present\<rparr>"

definition loop_sockets :: "loopback socket_ops" where
  "loop_sockets =
     \<lparr>sk_socket = (\<lambda>w. (3, w)), sk_inet_pton = (\<lambda>h. (1, 0x0100007F)),
      sk_connect = (\<lambda>fd a w. if lb_listening w then (0, w\<lparr>lb_pending := True, lb_peer := Present\<rparr>) else (-1, w)),
      sk_send = (\<lambda>fd bs flags w. case lb_peer w of
          Present \<Rightarrow> (int (length bs), w\<lparr>lb_stream := lb_stream w @ bs\<rparr>)
        | Gone \<Rightarrow> (int (length bs), w\<lparr>lb_stream := lb_stream w @ bs, lb_peer := Reset\<rparr>)
        | _ \<Rightarrow> (-1, if no_signal flags then w else w\<lparr>lb_peer := Signalled\<rparr>)),
      sk_close = (\<lambda>fd w. w\<lparr>lb_closed := True\<rparr>), sk_big_endian = False\<rparr>"

definition loop_server :: "loopback blocking_server" where
  "loop_server =
     \<lparr>sv_socket = (\<lambda>w. (4, w)), sv_bind = (\<lambda>fd a w. (0, w)),
      sv_listen = (\<lambda>fd n w. (0, w\<lparr>lb_listening := True\<rparr>)),
      sv_accept = (\<lambda>fd w. (5, w\<lparr>lb_pending := False\<rparr>)),
      sv_recv = (\<lambda>fd n w. let bs = take n (drop (lb_taken w) (lb_stream w)) in
        ((int (length bs), bs), w\<lparr>lb_taken := lb_taken w + length bs\<rparr>)),
      sv_close = (\<lambda>fd w. if fd = 5 \<and> lb_peer w = Present then w\<lparr>lb_peer := Gone\<rparr> else w),
      sv_big_endian = False,
      sv_accept_waits = (\<lambda>fd w. \<not> lb_pending w),
      sv_recv_waits = (\<lambda>fd w. length (lb_stream w) \<le> lb_taken w \<and> \<not> lb_closed w),
      sv_killed = (\<lambda>w. lb_peer w = Signalled)\<rparr>"

definition loop_env :: "(SomeipClient, loopback) env" where
  "loop_env =
     \<lparr>env_ops = someip_client_ops loop_sockets, env_now = (\<lambda>w. (0, w)),
      env_local_time = demo_wall, env_sleep = (\<lambda>secs w. w), env_file = ''s.cpp''\<rparr>"

definition loop_auth :: "'w AuthClient" where
  "loop_auth = \<lparr>ac_backend = Some DemoAuthBackend, ac_vehicle_id = kDefaultEcuClientId,
     ac_vehicle_secret = kDemoVehicleSecret, ac_token = [], ac_expires_at = 0\<rparr>"

definition loop_login :: "(SomeipClient, 'w) service \<Rightarrow> (SomeipClient, 'w) service" where
  "loop_login s = s\<lparr>svc_auth :=
     Some (loop_auth\<lparr>ac_token := ''jwt-demo-token'', ac_expires_at := 3600000000000\<rparr>)\<rparr>"

definition loop_link :: "(SomeipClient, loopback) service \<Rightarrow> (SomeipClient, loopback) service" where
  "loop_link s = s\<lparr>svc_heap := (svc_heap s)(0 := (svc_heap s 0)\<lparr>sc_socket_fd := 3, sc_connected := True\<rparr>),
     svc_world := (svc_world s)\<lparr>lb_pending := True, lb_peer := Present\<rparr>\<rparr>"

definition loop_hangup :: "(SomeipClient, loopback) service \<Rightarrow> (SomeipClient, loopback) service" where
  "loop_hangup s = s\<lparr>svc_heap := (svc_heap s)(0 := (svc_heap s 0)\<lparr>sc_socket_fd := kInvalidSocketFd,
       sc_connected := False\<rparr>), svc_world := (svc_world s)\<lparr>lb_closed := True\<rparr>\<rparr>"

lemma loop_ops [simp]: "env_ops loop_env = someip_client_ops loop_sockets"
  by (simp add: loop_env_def)

lemma loop_authenticate:
  "svc_auth s = Some loop_auth \<Longrightarrow> svc_authenticate loop_env s = (True, loop_login s)"
  by (simp add: svc_authenticate_def AuthClient_authenticate_def loop_auth_def DemoAuthBackend_def
      loop_env_def loop_login_def nanos_def kDemoTokenTtlSec_def kDefaultEcuClientId_def
      kDemoVehicleSecret_def)

lemma loop_connect:
  "svc_mqtt s = Some 0 \<Longrightarrow> svc_heap s 0 = SomeipClient_new demo_someip_config \<Longrightarrow>
     lb_listening (svc_world s) \<Longrightarrow> svc_connect loop_env s = (True, loop_link s)"
  by (simp add: svc_connect_def svc_on_client_def SomeipClient_connect_def loop_sockets_def
      SomeipClient_new_def loop_link_def Let_def)

lemma loop_connect_refused:
  "svc_mqtt s = Some 0 \<Longrightarrow> svc_heap s 0 = SomeipClient_new demo_someip_config \<Longrightarrow>
     \<not> lb_listening (svc_world s) \<Longrightarrow> fst (svc_connect loop_env s) = False"
  by (simp add: svc_connect_def svc_on_client_def SomeipClient_connect_def loop_sockets_def
      SomeipClient_new_def Let_def)

lemma loop_disconnect:
  "svc_mqtt s = Some 0 \<Longrightarrow> sc_socket_fd (svc_heap s 0) = 3 \<Longrightarrow> svc_disconnect loop_env s = loop_hangup s"
  by (simp add: svc_disconnect_def svc_on_client_def SomeipClient_disconnect_def loop_sockets_def
      loop_hangup_def Let_def)

lemma loop_say_world [simp]: "svc_world (svc_say loop_env lv m l s) = svc_world s"
  by (simp add: svc_say_def loop_env_def demo_wall_def)

lemma loop_sleep [simp]: "svc_sleep loop_env n s = s"
  by (simp add: svc_sleep_def loop_env_def)

lemma loop_sel [simp]:
  "svc_mqtt (loop_login s) = svc_mqtt s" "svc_heap (loop_login s) = svc_heap s"
  "svc_running (loop_login s) = svc_running s" "svc_world (loop_login s) = svc_world s"
  "svc_mqtt (loop_link s) = svc_mqtt s" "svc_running (loop_link s) = svc_running s"
  "svc_world (loop_link s) = (svc_world s)\<lparr>lb_pending := True, lb_peer := Present\<rparr>"
  "sc_socket_fd (svc_heap (loop_link s) 0) = 3"
  "svc_mqtt (loop_hangup s) = svc_mqtt s" "svc_running (loop_hangup s) = svc_running s"
  "svc_world (loop_hangup s) = (svc_world s)\<lparr>lb_closed := True\<rparr>"
  by (simp_all add: loop_login_def loop_link_def loop_hangup_def)

lemma loop_init:
  assumes "Logger_new kDemoLogPath io = Some (lg, io1)"
  obtains s where "main_init (env_now loop_env) io quiet_net = Some s" "svc_auth s = Some loop_auth"
    "svc_mqtt s = Some 0" "svc_heap s 0 = SomeipClient_new demo_someip_config" "\<not> svc_running s"
    "svc_world s = quiet_net"
proof -
  have "\<exists>s. main_init (env_now loop_env) io quiet_net = Some s \<and> svc_auth s = Some loop_auth \<and>
    svc_mqtt s = Some 0 \<and> svc_heap s 0 = SomeipClient_new demo_someip_config \<and> \<not> svc_running s \<and>
    svc_world s = quiet_net"
    using assms by (simp add: main_init_def AuthClient_new_def ConnectivityService_new_def loop_env_def
        loop_auth_def demo_someip_config_def)
  with that show thesis by blast
qed

text \<open>\<open>main\<close> runs on before the new thread has begun to listen.\<close>

definition refused_actors :: "actor list" where
  "refused_actors = [Main, Main, Main, Main, Main, Main, Main, Main, Main, Main, Main, Main, Main, Main, Main]"

text \<open>The listener is ahead; the service is stopped before its worker has published.\<close>

definition served_actors :: "actor list" where
  "served_actors =
     [Main, Listener, Listener, Listener, Listener,
      Main, Main, Main, Main, Main, Main, Main, Main, Main, Main, Main, Main, Main, Main, Main,
      Main, Main, Main, Main, Service 0, Service 0, Service 0, Main, Main, Main,
      Listener, Listener, Listener, Listener, Main, Main, Main, Main]"

lemma refused_run:
  assumes "svc_auth s = Some loop_auth" "svc_mqtt s = Some 0"
    "svc_heap s 0 = SomeipClient_new demo_someip_config" "\<not> svc_running s" "svc_world s = quiet_net"
  shows "\<exists>g. run_actors loop_env loop_server port refused_actors (program_start s) = Some g \<and>
    pg_main g = MEnd Terminate"
proof -
  have c: "\<exists>t'. svc_connect loop_env t = (False, t')"
    if "svc_mqtt t = Some 0" "svc_heap t 0 = SomeipClient_new demo_someip_config"
      "\<not> lb_listening (svc_world t)" for t
    using loop_connect_refused [OF that] by (metis prod.collapse)
  let ?t = "svc_say loop_env Info ''Authentication succeeded'' 39 (set_state Authenticating
    (loop_login (svc_say loop_env Info ''Starting connectivity service'' 29
      (set_state Starting (s\<lparr>svc_running := True\<rparr>)))))"
  obtain t' where t': "svc_connect loop_env ?t = (False, t')"
    using c [of ?t] assms by (auto simp: quiet_net_def)
  have w: "lb_peer (svc_world t') = Present"
    using t' assms by (auto simp: svc_connect_def svc_on_client_def SomeipClient_connect_def loop_sockets_def
        SomeipClient_new_def quiet_net_def Let_def)
  show ?thesis
    using assms t' w
    by (simp add: refused_actors_def program_start_def launch_def in_process_def on_svc_def
        loop_authenticate pg_killed_def loop_server_def quiet_net_def)
qed

lemma served_run:
  assumes "svc_auth s = Some loop_auth" "svc_mqtt s = Some 0"
    "svc_heap s 0 = SomeipClient_new demo_someip_config" "\<not> svc_running s" "svc_world s = quiet_net"
  shows "\<exists>g. run_actors loop_env loop_server port served_actors (program_start s) = Some g \<and>
    pg_main g = MEnd (Exit 0) \<and> pg_cloud g = listener_banner port"
  using assms
  by (simp add: served_actors_def program_start_def launch_def in_process_def on_svc_def
      loop_authenticate loop_connect loop_disconnect quiet_net_def loop_server_def pg_killed_def
      pg_ended_def finished_def request_stop_def)

lemma demo_log_path: "\<exists>lg io1. Logger_new kDemoLogPath demo_io = Some (lg, io1)"
  by (cases "Logger_new kDemoLogPath demo_io")
    (auto simp: Logger_new_def create_directories_def demo_io_def Let_def split: if_splits)

lemma loop_run:
  obtains s g g' where "main_init (env_now loop_env) demo_io quiet_net = Some s"
    and "prog_reach loop_env loop_server kDemoSomeipPort (program_start s) g" "pg_main g = MEnd Terminate"
    and "prog_reach loop_env loop_server kDemoSomeipPort (program_start s) g'" "pg_main g' = MEnd (Exit 0)"
proof -
  obtain lg io1 where "Logger_new kDemoLogPath demo_io = Some (lg, io1)" using demo_log_path by blast
  from loop_init [OF this] obtain s where s: "main_init (env_now loop_env) demo_io quiet_net = Some s"
    "svc_auth s = Some loop_auth" "svc_mqtt s = Some 0"
    "svc_heap s 0 = SomeipClient_new demo_someip_config" "\<not> svc_running s" "svc_world s = quiet_net" .
  from refused_run [OF s(2-6)] served_run [OF s(2-6)] s(1) that run_actors_reach [OF prog_refl]
  show thesis by blast
qed

text \<open>C28: The sample program races with its own cloud: nothing orders the listener thread's \<open>listen\<close>
  before the \<open>connect\<close> of \<open>start\<close>. With the same network and the same backend, one interleaving ends
  with status 0 and another, in which \<open>main\<close> is faster, is refused the connection and terminates.\<close>

theorem startup_race:
  "\<exists>s g g'. main_init (env_now loop_env) demo_io quiet_net = Some s \<and>
     prog_reach loop_env loop_server kDemoSomeipPort (program_start s) g \<and> pg_main g = MEnd Terminate \<and>
     prog_reach loop_env loop_server kDemoSomeipPort (program_start s) g' \<and> pg_main g' = MEnd (Exit 0)"
  using loop_run by metis

theorem program_outcome_witness:
  "\<exists>s g. main_init (env_now loop_env) demo_io quiet_net = Some s \<and>
     prog_reach loop_env loop_server kDemoSomeipPort (program_start s) g \<and>
     svc_state (pg_svc g) = Stopped \<and> pg_listener g = Some NDone \<and> \<not> svc_online loop_env (pg_svc g)"
proof -
  obtain s g where g: "main_init (env_now loop_env) demo_io quiet_net = Some s"
    "prog_reach loop_env loop_server kDemoSomeipPort (program_start s) g" "pg_main g = MEnd (Exit 0)"
    by (rule loop_run)
  from program_outcome [OF g(1) loop_ops g(2,3)] g show ?thesis by auto
qed

theorem program_progress_witness:
  "\<exists>s a. main_init (env_now loop_env) demo_io quiet_net = Some s \<and>
     prog_sched loop_env loop_server kDemoSomeipPort a (program_start s) \<noteq> None"
proof -
  obtain lg io1 where "Logger_new kDemoLogPath demo_io = Some (lg, io1)" using demo_log_path by blast
  from loop_init [OF this] obtain s where s: "main_init (env_now loop_env) demo_io quiet_net = Some s"
    and w: "svc_world s = quiet_net" .
  have "\<not> pg_ended (program_start s)" "pg_main (program_start s) \<noteq> M105" "\<not> pg_killed loop_server (program_start s)"
    using w by (simp_all add: program_start_def pg_ended_def pg_killed_def launch_def loop_server_def quiet_net_def)
  with program_progress [OF s loop_ops prog_refl, of loop_server kDemoSomeipPort] s show ?thesis by blast
qed

end
