(* ===== verification/Cloud_Liveness.thy ===== *)
theory Cloud_Liveness
  imports Cloud_Threads Service_Liveness
begin

text \<open>
  The sample program comes to an end (\<open>src/main.cpp\<close>): under a fair scheduler every run of \<open>main\<close>, the
  listener and the worker ends, or stops for good with the listener waiting in \<open>accept\<close> or \<open>recv\<close> for a
  peer that no longer exists.
\<close>

section \<open>How far the program is from its end\<close>

fun main_rank :: "main_pc \<Rightarrow> nat" where
  "main_rank M96 = 9" | "main_rank M98 = 8" | "main_rank M98_call = 7" | "main_rank M99 = 6"
| "main_rank M103 = 6" | "main_rank M104 = 5" | "main_rank M104_call = 4" | "main_rank M105 = 3"
| "main_rank (Leave n) = 2" | "main_rank (Destroying n) = 1" | "main_rank (MEnd st) = 0"

text \<open>A call takes at most 16 steps.\<close>

definition main_left :: "('c, 'w) program \<Rightarrow> nat" where
  "main_left g = 17 * main_rank (pg_main g) + caller_rank (pg_caller g)"

definition single :: "('c, 'w) program \<Rightarrow> bool" where
  "single g \<longleftrightarrow> pr_callers (pg_process g) = [pg_caller g]"

lemma prog_inv_single: "prog_inv E I g \<Longrightarrow> single g"
  by (simp add: prog_inv_def single_def)

lemma in_process_next:
  assumes "in_process E ch m g = Some g'" and "main_rank m < main_rank (pg_main g)"
  shows "main_left g' < main_left g"
proof -
  obtain p where "g' = g\<lparr>pg_process := p, pg_main := m\<rparr>" using assms(1) by (auto simp: in_process_Some)
  with assms(2) caller_rank_bound [of "pr_callers p ! 0"] show ?thesis by (simp add: main_left_def)
qed

lemma in_process_call:
  assumes "in_process E (Caller 0) (pg_main g) g = Some g'" and "single g"
  shows "main_left g' < main_left g"
proof -
  obtain p where p: "sched E (Caller 0) (pg_process g) = Some p" "g' = g\<lparr>pg_process := p, pg_main := pg_main g\<rparr>"
    using assms(1) by (auto simp: in_process_Some)
  moreover have "caller_rank (pr_callers p ! 0) < caller_rank (pg_caller g)"
    using p(1) assms(2) caller_step_rank by (auto simp: single_def split: option.splits if_splits)
  ultimately show ?thesis by (simp add: main_left_def)
qed

lemma main_step_left:
  assumes "main_step E (pg_main g) g = Some g'" and "single g"
  shows "main_left g' < main_left g"
proof (cases "in_process E (Caller 0) (pg_main g) g = Some g'")
  case True
  then show ?thesis using assms(2) by (rule in_process_call)
next
  case False
  with assms(1) consider ch m where "in_process E ch m g = Some g'" "main_rank m < main_rank (pg_main g)"
    | "main_rank (pg_main g') < main_rank (pg_main g)" "pr_callers (pg_process g') = pr_callers (pg_process g)"
    by (cases "pg_main g")
      (fastforce split: if_splits caller_pc.splits option.splits prod.splits call_kind.splits)+
  then show ?thesis
  proof cases
    case 1
    then show ?thesis by (rule in_process_next)
  next
    case 2
    then show ?thesis by (simp add: main_left_def)
  qed
qed

text \<open>What a step means for the process of the service, and what the steps of others leave alone.\<close>

lemma prog_sched_process:
  assumes "prog_sched E V port a g = Some g'"
  obtains (svc) ch where "sched E ch (pg_process g) = Some (pg_process g')"
  | (world) f where "pg_process g' = on_svc f (pg_process g)"
proof (cases a)
  case Main
  have same: "pg_process g = on_svc (\<lambda>s. s) (pg_process g)" by (simp add: on_svc_def)
  from Main assms have "main_step E (pg_main g) g = Some g'" by simp
  then show ?thesis
  proof (cases rule: main_step_cases)
    case (call ch m)
    from call(1) svc show ?thesis by (auto simp: in_process_Some simp del: sched.simps)
  qed (use world same in \<open>metis+\<close>)
next
  case Listener
  with assms world show ?thesis by (auto split: if_splits option.splits)
next
  case (Service i)
  with assms have "in_process E (Worker i) (pg_main g) g = Some g'" by (simp split: if_splits)
  with svc show ?thesis by (auto simp: in_process_Some simp del: sched.simps)
qed

lemma other_step:
  assumes "prog_sched E V port a g = Some g'" and "a \<noteq> Main"
  shows "pg_main g' = pg_main g \<and> pr_callers (pg_process g') = pr_callers (pg_process g) \<and>
    pr_worker (pg_process g') = pr_worker (pg_process g)"
  using assms by (cases a) (auto simp: in_process_Some split: if_splits option.splits prod.splits)

lemma prog_sched_thread:
  assumes "prog_sched E V port a g = Some g'" and "t < length (pr_threads (pg_process g))"
  shows "t < length (pr_threads (pg_process g')) \<and>
    (snd (pr_threads (pg_process g) ! t) \<longrightarrow> snd (pr_threads (pg_process g') ! t)) \<and>
    (finished t (pg_process g) \<longrightarrow> finished t (pg_process g'))"
  using assms(1)
proof (cases rule: prog_sched_process)
  case (svc ch)
  with sched_thread [OF svc assms(2)] finished_keeps [OF _ assms(2) svc] show ?thesis by blast
next
  case (world f)
  with assms(2) show ?thesis by simp
qed

interpretation main: ranked "prog_sched E V port" single Main main_left for E V port
proof (unfold_locales, goal_cases)
  case (1 g g')
  then show ?case by (auto intro: main_step_left)
next
  case (2 g g' a)
  from other_step [OF 2(4,3)] show ?case by (simp add: main_left_def)
qed

section \<open>The two joins\<close>

text \<open>\<open>main\<close> in line 104 waits for the worker.\<close>

definition joins_worker :: "('w, 'z) blocking_server_scheme \<Rightarrow> nat \<Rightarrow> ('c, 'w) program \<Rightarrow> bool" where
  "joins_worker V t g \<longleftrightarrow> \<not> pg_killed V g \<and> pg_main g = M104_call \<and> in_join t (pg_process g)"

lemma joins_worker_steps:
  assumes "joins_worker V t g"
  shows "prog_sched E V port Main g = None \<longleftrightarrow> \<not> finished t (pg_process g)"
    and "prog_sched E V port (Service t) g = None \<longleftrightarrow> finished t (pg_process g)"
proof -
  have "main_step E (pg_main g) g = in_process E (Caller 0) M104_call g"
    using assms by (auto simp: joins_worker_def in_join_def)
  with in_join_blocked [of t "pg_process g" E] assms
  show "prog_sched E V port Main g = None \<longleftrightarrow> \<not> finished t (pg_process g)"
    "prog_sched E V port (Service t) g = None \<longleftrightarrow> finished t (pg_process g)"
    by (simp_all add: joins_worker_def in_process_def pg_ended_def del: sched.simps)
qed

lemma joins_worker_single: "joins_worker V t g \<Longrightarrow> single g"
  by (auto simp: joins_worker_def in_join_def single_def)

interpretation worker_join: joining "prog_sched E V port" "joins_worker V t" Main main_left "Service t"
  "\<lambda>g. loop_rank (fst (pr_threads (pg_process g) ! t))" for E V port t
proof (unfold_locales, goal_cases)
  case (1 g g')
  then show ?case using main.mine_falls joins_worker_single by metis
next
  case (2 g g' a)
  then show ?case using main.others_keep joins_worker_single by metis
next
  case (3 g g')
  then have "sched E (Worker t) (pg_process g) = Some (pg_process g')"
    by (auto simp: in_process_Some split: if_splits)
  from worker.mine_falls [OF _ _ this] 3(1,2) show ?case by (simp add: joins_worker_def in_join_def)
next
  case (4 g g' a)
  from 4(4) show ?case
  proof (cases rule: prog_sched_process)
    case (svc ch)
    show ?thesis
    proof (cases "ch = Worker t")
      case True
      from worker.mine_falls [OF _ _ svc [unfolded True]] 4(1,2) show ?thesis
        by (simp add: joins_worker_def in_join_def less_imp_le)
    next
      case False
      from worker.others_keep [OF _ _ False svc] 4(1,2) show ?thesis
        by (simp add: joins_worker_def in_join_def)
    qed
  next
    case (world f)
    then show ?thesis by simp
  qed
next
  case (5 g)
  then show ?case by (simp add: joins_worker_steps del: prog_sched.simps)
next
  case (6 g g' a)
  then have "finished t (pg_process g)" "t < length (pr_threads (pg_process g))"
    by (simp_all add: joins_worker_steps joins_worker_def in_join_def stopping_worker_def del: prog_sched.simps)
  with prog_sched_thread [OF 6(4)] 6(2) show ?case by (simp add: joins_worker_steps del: prog_sched.simps)
qed

text \<open>\<open>main\<close> in line 105 waits for a listener that does not wait for its cloud.\<close>

definition joins_listener :: "('w, 'z) blocking_server_scheme \<Rightarrow> ('c, 'w) program \<Rightarrow> bool" where
  "joins_listener V g \<longleftrightarrow> \<not> pg_killed V g \<and> single g \<and> pg_main g = M105 \<and>
     (\<exists>pc. pg_listener g = Some pc \<and> \<not> listener_waits V pc (svc_world (pg_svc g)))"

fun listener_left :: "listener_pc option \<Rightarrow> nat" where
  "listener_left None = 10"
| "listener_left (Some pc) = listener_rank pc"

lemma listener_sched:
  "prog_sched E V port Listener g = None \<longleftrightarrow> pg_killed V g \<or> pg_ended g \<or> pg_listener g = None \<or>
     (\<exists>pc. pg_listener g = Some pc \<and> (pc = NDone \<or> listener_waits V pc (svc_world (pg_svc g))))"
proof (cases "pg_listener g")
  case (Some pc)
  then show ?thesis using listener_step_None [of V port pc "svc_world (pg_svc g)"]
    by (auto split: option.split)
qed simp

lemma other_listener:
  assumes "prog_sched E V port a g = Some g'" and "a \<noteq> Listener" and "pg_main g \<noteq> M96"
  shows "pg_listener g' = pg_listener g"
proof (cases a)
  case Main
  with assms(1) have "main_step E (pg_main g) g = Some g'" by simp
  then show ?thesis
    using assms(3) by (cases rule: main_step_cases) (auto simp: in_process_Some)
qed (use assms in \<open>auto simp: in_process_Some split: if_splits\<close>)

interpretation listener_join: joining "prog_sched E V port" "joins_listener V" Main main_left Listener
  "\<lambda>g. listener_left (pg_listener g)" for E V port
proof (unfold_locales, goal_cases)
  case (1 g g')
  then show ?case using main.mine_falls [OF _ _ 1(3)] by (simp add: joins_listener_def del: prog_sched.simps)
next
  case (2 g g' a)
  then show ?case using main.others_keep [OF _ _ 2(3,4)] by (simp add: joins_listener_def del: prog_sched.simps)
next
  case (3 g g')
  then show ?case using listener_step_rank by (auto split: if_splits option.splits)
next
  case (4 g g' a)
  then show ?case using other_listener [OF 4(4,3)] by (simp add: joins_listener_def)
next
  case (5 g)
  then have "pg_listener g \<noteq> Some NDone" by (auto simp: joins_listener_def split: if_splits)
  with 5(1) show ?case by (auto simp: listener_sched joins_listener_def pg_ended_def simp del: prog_sched.simps)
next
  case (6 g g' a)
  then have l: "pg_listener g = Some NDone" "pg_main g \<noteq> M96"
    by (auto simp: listener_sched joins_listener_def pg_ended_def simp del: prog_sched.simps)
  with 6(4) have "a \<noteq> Listener" by (auto split: if_splits)
  with other_listener [OF 6(4)] l show ?case by (simp add: listener_sched del: prog_sched.simps)
qed

section \<open>The program ends\<close>

text \<open>Where \<open>main\<close> can be blocked.\<close>

lemma main_blocked:
  assumes "prog_inv E I g" and "\<not> pg_ended g" and "\<not> pg_killed V g" and "main_step E (pg_main g) g = None"
  obtains (worker) t where "joins_worker V t g"
  | (listener) pc where "pg_main g = M105" "pg_listener g = Some pc" "pc \<noteq> NDone"
proof -
  have inv: "pr_callers (pg_process g) = [pg_caller g]" "caller_inv E (pg_caller g) (pg_process g)"
    "main_inv (pg_main g) g" "pg_listener g = None \<longleftrightarrow> pg_main g = M96"
    using assms(1) by (simp_all add: prog_inv_def)
  have call: "\<exists>t. in_join t (pg_process g)"
    if "main_step E (pg_main g) g = in_process E (Caller 0) (pg_main g) g" "\<not> is_ready (pg_caller g)"
      "pg_caller g \<noteq> Destroyed"
    using blocked_in_join [OF inv(2,1) that(2,3)] that(1) assms(4) by (simp add: in_process_def del: sched.simps)
  show thesis
  proof (cases "pg_main g")
    case M98_call
    with assms(4) inv(3) have "\<not> is_ready (pg_caller g)" by (cases "pg_caller g" rule: in_start.cases) auto
    moreover from this M98_call have "main_step E (pg_main g) g = in_process E (Caller 0) (pg_main g) g"
      by (cases "pg_caller g") auto
    moreover have "pg_caller g \<noteq> Destroyed" using M98_call inv(3) by auto
    ultimately obtain t where "in_join t (pg_process g)" using call by blast
    with M98_call inv(3) show ?thesis by (auto simp: in_join_def)
  next
    case M104_call
    with assms(4) inv(3) have "\<not> is_ready (pg_caller g)" by (cases "pg_caller g") auto
    moreover from this M104_call have "main_step E (pg_main g) g = in_process E (Caller 0) (pg_main g) g"
      by (cases "pg_caller g") auto
    moreover have "pg_caller g \<noteq> Destroyed" using M104_call inv(3) by auto
    ultimately obtain t where "in_join t (pg_process g)" using call by blast
    with M104_call assms(3) show ?thesis by (intro worker) (simp add: joins_worker_def)
  next
    case M105
    with assms(4) inv(4) listener show ?thesis by (auto split: if_splits)
  next
    case (Leave n)
    with inv(1,3) assms(4) show ?thesis by (auto simp: in_process_def split: if_splits)
  next
    case (Destroying n)
    with inv(1,3) assms(4) show ?thesis
      by (auto simp: in_process_def case_prod_unfold split: if_splits)
  next
    case (MEnd st)
    with assms(2) show ?thesis by (simp add: pg_ended_def)
  qed (use inv(1,3) assms(4) in \<open>auto simp: in_process_def\<close>)
qed

lemma ended_stuck: "pg_ended g \<Longrightarrow> prog_sched E V port a g = None"
  by (cases a; cases "pg_main g") (simp_all add: pg_ended_def)

lemma waiting_stuck:
  assumes "prog_inv E I g" and "pg_main g = M105" and "pg_listener g = Some pc"
    and "listener_waits V pc (svc_world (pg_svc g))"
  shows "prog_sched E V port a g = None"
proof (cases a)
  case Main
  with assms(2-4) show ?thesis by auto
next
  case Listener
  with assms(3,4) show ?thesis by (simp add: listener_sched del: prog_sched.simps)
next
  case (Service i)
  have "idle (pg_process g)" using assms(1,2) by (auto simp: prog_inv_def split: if_splits)
  with Service show ?thesis by (simp add: in_process_def idle_worker del: sched.simps)
qed

text \<open>Once \<open>main\<close> makes no step any more, it stays where it is, and so does what only its calls change.\<close>

lemma main_stays:
  assumes "run_of (prog_sched E V port) act g"
    and "\<And>j. k \<le> j \<Longrightarrow> act j = Main \<Longrightarrow> g (Suc j) = g j" and "k \<le> i" and "i \<le> j"
    and "\<And>j. \<not> pg_killed V (g j)"
  shows "pg_main (g j) = pg_main (g i) \<and> (joins_worker V t (g i) \<longrightarrow> joins_worker V t (g j))"
  using assms(4)
proof (induction j rule: dec_induct)
  case (step m)
  then have "k \<le> m" using assms(3) by simp
  from assms(1) show ?case
  proof (cases rule: run_of_cases [where i = m])
    case stay
    with step.IH show ?thesis by simp
  next
    case st: step
    show ?thesis
    proof (cases "act m = Main")
      case True
      with assms(2) [OF \<open>k \<le> m\<close>] step.IH show ?thesis by simp
    next
      case False
      with step.IH other_step [OF st] prog_sched_thread [OF st] assms(5) show ?thesis
        by (simp add: joins_worker_def in_join_def stopping_worker_def)
    qed
  qed
qed simp

text \<open>If it never ends, it comes to rest in line 105.\<close>

lemma comes_to_rest:
  assumes fair: "fair_run UNIV (prog_sched E V port) act g"
    and inv: "\<And>i. prog_inv E I (g i)" and on: "\<And>i. \<not> pg_ended (g i)"
    and alive: "\<And>i. \<not> pg_killed V (g i)"
  shows "\<exists>n pc. pg_main (g n) = M105 \<and> pg_listener (g n) = Some pc \<and>
    listener_waits V pc (svc_world (pg_svc (g n)))"
proof -
  have run: "run_of (prog_sched E V port) act g" using fair by (simp add: fair_run_def)
  have single: "single (g i)" for i using prog_inv_single [OF inv] .
  obtain k where k: "\<And>j. k \<le> j \<Longrightarrow> act j = Main \<Longrightarrow> g (Suc j) = g j"
    using main.settles [OF run single, of 0] by blast
  obtain m where m: "k \<le> m" "prog_sched E V port Main (g m) = None"
    using main.blocks [OF fair UNIV_I single, of k] by blast
  have stays: "pg_main (g j) = pg_main (g m) \<and> (joins_worker V t (g m) \<longrightarrow> joins_worker V t (g j))"
    if "m \<le> j" for j t
    using main_stays [OF run _ m(1) that alive] k by blast
  from m(2) alive [of m] have "main_step E (pg_main (g m)) (g m) = None" by simp
  from inv on alive this show ?thesis
  proof (cases rule: main_blocked)
    case (worker t)
    with stays have "joins_worker V t (g j)" if "m \<le> j" for j using that by blast
    with worker_join.leaves [OF fair UNIV_I UNIV_I, of m t] show ?thesis by blast
  next
    case (listener pc)
    obtain j where j: "m \<le> j" "\<not> joins_listener V (g j)"
      using listener_join.leaves [OF fair UNIV_I UNIV_I, of m] by blast
    have at: "pg_main (g j) = M105" using stays [OF j(1)] listener(1) by simp
    moreover have "pg_listener (g j) \<noteq> None" using inv [of j] at by (simp add: prog_inv_def)
    ultimately show ?thesis using j(2) single [of j] alive by (auto simp: joins_listener_def)
  qed
qed

text \<open>C21: The sample program comes to rest under every fair scheduler: for any sockets, clocks and backend,
  an infinite run in which none of \<open>main\<close>, the listener and the worker is passed over for ever comes to a
  state that does not change any more, and there the program has ended, or a signal has ended the
  process, or \<open>main\<close> waits in line 105 for a listener that waits in \<open>accept\<close> or \<open>recv\<close>. So neither the
  loop of the worker nor the joins of \<open>stop\<close> and of the destructor can keep the program alive; only its
  cloud can.\<close>

theorem fair_program_ends:
  assumes "main_init (env_now E) io w = Some s" and "env_ops E = someip_client_ops S"
    and "fair_run UNIV (prog_sched E V port) act g" and "g 0 = program_start s"
  shows "\<exists>n. (\<forall>m\<ge>n. g m = g n) \<and>
    (pg_ended (g n) \<or> sv_killed V (pg_world (g n)) \<or>
     (pg_main (g n) = M105 \<and>
      (\<exists>pc. pg_listener (g n) = Some pc \<and> listener_waits V pc (svc_world (pg_svc (g n))))))"
proof -
  have run: "run_of (prog_sched E V port) act g" using assms(3) by (simp add: fair_run_def)
  have "prog_reach E V port (program_start s) (g i)" for i
  proof (rule run_keeps [OF run _ le0])
    show "prog_reach E V port (program_start s) (g 0)" using assms(4) by (simp add: prog_refl)
  qed (rule prog_step)
  from program_reach_inv [OF assms(1,2) this] have inv: "prog_inv E someip_inv (g i)" for i .
  consider n where "pg_ended (g n)" | n where "pg_killed V (g n)"
    | "\<And>n. \<not> pg_ended (g n)" "\<And>n. \<not> pg_killed V (g n)" by blast
  then show ?thesis
  proof cases
    case (1 n)
    have "g m = g n" if "n \<le> m" for m by (rule run_stuck [OF run ended_stuck [OF 1] that])
    with 1 show ?thesis by blast
  next
    case (2 n)
    have "g m = g n" if "n \<le> m" for m by (rule run_stuck [OF run killed_stuck [OF 2] that])
    with 2 show ?thesis unfolding pg_killed_def by blast
  next
    case 3
    then obtain n pc where n: "pg_main (g n) = M105" "pg_listener (g n) = Some pc"
      "listener_waits V pc (svc_world (pg_svc (g n)))"
      using comes_to_rest [OF assms(3) inv] by blast
    have "g m = g n" if "n \<le> m" for m by (rule run_stuck [OF run waiting_stuck [OF inv n] that])
    with n show ?thesis by blast
  qed
qed

text \<open>A schedule in which every actor has its turn again and again.\<close>

fun turn :: "nat \<Rightarrow> actor" where
  "turn 0 = Main"
| "turn (Suc 0) = Listener"
| "turn (Suc (Suc i)) = Service i"

lemma turn_all: "\<exists>n. a = turn n"
proof (cases a)
  case Main
  then show ?thesis by (metis turn.simps(1))
next
  case Listener
  then show ?thesis by (metis turn.simps(2))
next
  case (Service i)
  then show ?thesis by (metis turn.simps(3))
qed

theorem fair_program_ends_witness:
  "\<exists>s act g n. main_init (env_now loop_env) demo_io quiet_net = Some s \<and> g 0 = program_start s \<and>
     fair_run UNIV (prog_sched loop_env loop_server kDemoSomeipPort) act g \<and> (\<forall>m\<ge>n. g m = g n)"
proof -
  obtain lg io1 where "Logger_new kDemoLogPath demo_io = Some (lg, io1)" using demo_log_path by blast
  from loop_init [OF this] obtain s where s: "main_init (env_now loop_env) demo_io quiet_net = Some s"
    by blast
  let ?act = "recurring turn []"
  let ?g = "states_of (prog_sched loop_env loop_server kDemoSomeipPort) ?act (program_start s)"
  have fair: "fair_run UNIV (prog_sched loop_env loop_server kDemoSomeipPort) ?act ?g"
    by (rule fair_run_exists) (rule turn_all)
  have "?g 0 = program_start s" by simp
  from fair_program_ends [OF s loop_ops fair this] s fair this show ?thesis by blast
qed

end
