(* ===== verification/Wire.thy ===== *)
theory Wire
  imports Cloud_Threads Json_Text
begin

text \<open>
  What the sample program puts on the wire and what arrives. The locale \<open>guarded_world\<close> is the contract
  between the program and its surroundings: a property of the world that sockets, clocks and sleep
  keep, where \<open>send\<close> need keep it only for frames of JSON samples. The program then keeps it in every
  interleaving of \<open>main\<close>, the listener and the worker. Two instances: the world instrumented with the
  list of everything handed to \<open>send\<close>, and a network that carries a stream of bytes to the listener.
\<close>

section \<open>The contract\<close>

text \<open>A frame of the sample program whose payload reads as a sample taken at a local time.\<close>

definition json_frame :: "bool \<Rightarrow> byte list \<Rightarrow> bool" where
  "json_frame big f \<longleftrightarrow>
     (\<exists>payload now. f = someip_frame big demo_someip_config payload \<and>
        read_object payload = Some [(''vehicle_id'', JStr kDefaultEcuClientId),
          (''timestamp'', JStr (put_time (CHR ''T'') now)), (''speed'', JNum ''80''),
          (''rpm'', JNum ''2500''), (''battery'', JNum ''12.6''), (''fuel'', JNum ''70'')])"

lemma vehicle_plain: "list_all plain_char kDefaultEcuClientId"
  by (simp add: kDefaultEcuClientId_def plain_char_def)

lemma generated_frame:
  assumes "tl_vehicle_id t = kDefaultEcuClientId"
  shows "json_frame big (someip_frame big demo_someip_config
    (TelemetryManager_serialize t (fst (generateSample local_time t w))))"
  unfolding json_frame_def
  using generated_payload_reads [of t local_time w] assms vehicle_plain by auto

text \<open>The program over a socket interface, with clocks and sleep.\<close>

definition program_env ::
  "'w socket_ops \<Rightarrow> 'w clock \<Rightarrow> 'w wall_clock \<Rightarrow> (int \<Rightarrow> 'w \<Rightarrow> 'w) \<Rightarrow> string \<Rightarrow> (SomeipClient, 'w) env" where
  "program_env S now lt sl src =
     \<lparr>env_ops = someip_client_ops S, env_now = now, env_local_time = lt, env_sleep = sl, env_file = src\<rparr>"

lemma program_env_sel [simp]:
  "env_ops (program_env S now lt sl src) = someip_client_ops S" "env_now (program_env S now lt sl src) = now"
  "env_local_time (program_env S now lt sl src) = lt" "env_sleep (program_env S now lt sl src) = sl"
  by (simp_all add: program_env_def)

text \<open>What the program keeps itself: the demo backend, the vehicle's identifier and the configuration.\<close>

definition wire_inv :: "('w \<Rightarrow> bool) \<Rightarrow> (SomeipClient, 'w) service \<Rightarrow> bool" where
  "wire_inv Q s \<longleftrightarrow>
     (\<forall>ac. svc_auth s = Some ac \<longrightarrow> ac_backend ac = Some DemoAuthBackend) \<and>
     (\<forall>t. svc_telemetry s = Some t \<longrightarrow> tl_vehicle_id t = kDefaultEcuClientId) \<and>
     (\<forall>a. sc_config (svc_heap s a) = demo_someip_config) \<and> Q (svc_world s)"

lemma wire_inv_frame [simp]:
  "wire_inv Q (set_state st s) = wire_inv Q s" "wire_inv Q (s\<lparr>svc_running := b\<rparr>) = wire_inv Q s"
  by (simp_all add: wire_inv_def)

lemma wire_inv_world: "wire_inv Q s \<Longrightarrow> Q w \<Longrightarrow> wire_inv Q (s\<lparr>svc_world := w\<rparr>)"
  by (simp add: wire_inv_def)

locale guarded_world =
  fixes S :: "'w socket_ops" and V :: "'w blocking_server"
    and now :: "'w clock" and lt :: "'w wall_clock" and sl :: "int \<Rightarrow> 'w \<Rightarrow> 'w"
    and Q :: "bool \<Rightarrow> 'w \<Rightarrow> bool" and good :: "int \<Rightarrow> byte list \<Rightarrow> bool"
  assumes now_keeps: "Q late w \<Longrightarrow> now w = (t, w') \<Longrightarrow> Q late w'"
    and time_keeps: "Q late w \<Longrightarrow> lt w = (tm, w') \<Longrightarrow> Q late w'"
    and sleep_keeps: "Q late w \<Longrightarrow> Q late (sl secs w)"
    and socket_keeps: "Q late w \<Longrightarrow> sk_socket S w = (fd, w') \<Longrightarrow> Q late w'"
    and connect_keeps: "Q late w \<Longrightarrow> sk_connect S fd a w = (rc, w') \<Longrightarrow> Q late w'"
    and close_keeps: "Q late w \<Longrightarrow> Q late (sk_close S fd w)"
    and send_keeps: "Q late w \<Longrightarrow> json_frame (sk_big_endian S) f \<Longrightarrow> sk_send S fd f flags w = (n, w') \<Longrightarrow> Q late w'"
    and server_socket_keeps: "Q late w \<Longrightarrow> sv_socket V w = (fd, w') \<Longrightarrow> Q late w'"
    and bind_keeps: "Q late w \<Longrightarrow> sv_bind V fd a w = (rc, w') \<Longrightarrow> Q late w'"
    and listen_keeps: "Q late w \<Longrightarrow> sv_listen V fd n w = (rc, w') \<Longrightarrow> Q late w'"
    and accept_keeps: "Q late w \<Longrightarrow> sv_accept V fd w = (cfd, w') \<Longrightarrow> Q late w'"
    and recv_keeps: "Q False w \<Longrightarrow> sv_recv V fd kCloudListenerBufSize w = ((r, bs), w') \<Longrightarrow>
      Q True w' \<and> (0 < r \<longrightarrow> good r bs)"
    and server_close_keeps: "Q late w \<Longrightarrow> Q late (sv_close V fd w)"
    and grows_late: "Q False w \<Longrightarrow> Q True w"
begin

abbreviation env :: "string \<Rightarrow> (SomeipClient, 'w) env" where
  "env src \<equiv> program_env S now lt sl src"

text \<open>The client.\<close>

lemma connect_client:
  assumes "SomeipClient_connect S c w = (r, c', w')" and "Q late w"
  shows "sc_config c' = sc_config c \<and> Q late w'"
proof (cases "sc_connected c")
  case True
  with assms show ?thesis by (simp add: SomeipClient_connect_def)
next
  case False
  obtain fd w1 where s: "sk_socket S w = (fd, w1)" by (cases "sk_socket S w")
  obtain ok addr where p: "sk_inet_pton S (c_str (sc_host (sc_config c))) = (ok, addr)"
    by (cases "sk_inet_pton S (c_str (sc_host (sc_config c)))")
  obtain rc w2 where c: "sk_connect S fd \<lparr>sin_port = htons (sk_big_endian S) (sc_port (sc_config c)),
      sin_addr = addr\<rparr> w1 = (rc, w2)"
    by (cases "sk_connect S fd \<lparr>sin_port = htons (sk_big_endian S) (sc_port (sc_config c)), sin_addr = addr\<rparr> w1")
  have Q1: "Q late w1" using socket_keeps [OF assms(2) s] .
  have Q2: "Q late w2" using connect_keeps [OF Q1 c] .
  from assms(1) False s p c close_keeps [OF Q1] close_keeps [OF Q2] Q1 Q2 show ?thesis
    by (auto simp: SomeipClient_connect_def Let_def split: if_splits)
qed

lemma disconnect_client:
  assumes "SomeipClient_disconnect S c w = (r, c', w')" and "Q late w"
  shows "sc_config c' = sc_config c \<and> Q late w'"
  using assms close_keeps by (auto simp: SomeipClient_disconnect_def Let_def)

lemma reconnect_client:
  assumes "SomeipClient_reconnect S c w = (r, c', w')" and "Q late w"
  shows "sc_config c' = sc_config c \<and> Q late w'"
proof -
  obtain r1 c1 w1 where d: "SomeipClient_disconnect S c w = (r1, c1, w1)"
    by (cases "SomeipClient_disconnect S c w") auto
  from assms(1) d have "SomeipClient_connect S c1 w1 = (r, c', w')"
    by (simp add: SomeipClient_reconnect_def)
  with connect_client disconnect_client [OF d assms(2)] show ?thesis by metis
qed

lemma publish_client:
  assumes "SomeipClient_publish S topic payload q c w = (r, c', w')" and "Q late w"
    and "json_frame (sk_big_endian S) (someip_frame (sk_big_endian S) (sc_config c) payload)"
  shows "c' = c \<and> Q late w'"
  using assms send_keeps [OF assms(2,3)]
  by (auto simp: SomeipClient_publish_def Let_def split: if_splits prod.splits)

lemma publish_sample:
  assumes "publishSample (someip_client_ops S) lt (t, h) w = (r, (t', h'), w')" and "Q late w"
    and "tl_vehicle_id t = kDefaultEcuClientId" and "\<forall>a. sc_config (h a) = demo_someip_config"
  shows "tl_vehicle_id t' = kDefaultEcuClientId \<and> (\<forall>a. sc_config (h' a) = demo_someip_config) \<and> Q late w'"
proof -
  obtain sample w1 where g: "generateSample lt t w = (sample, w1)" by (cases "generateSample lt t w")
  have w1: "Q late w1"
    using g assms(2) by (auto simp: generateSample_def currentTimestamp_def split: prod.splits intro: time_keeps)
  let ?p = "TelemetryManager_serialize t sample"
  have frame: "json_frame (sk_big_endian S) (someip_frame (sk_big_endian S) demo_someip_config ?p)"
    using generated_frame [OF assms(3), of "sk_big_endian S" lt w] g by simp
  show ?thesis
  proof (cases "tl_client t")
    case None
    with assms g w1 show ?thesis by (auto simp: publishSample_def queueMessage_def Let_def)
  next
    case (Some a)
    obtain ok c w2 where p: "SomeipClient_publish S
        (telemetry_topic (sc_mqtt_config (h a))) ?p 1 (h a) w1 = (ok, c, w2)"
      using prod_cases3 by blast
    have c: "c = h a \<and> Q late w2" using publish_client [OF p w1] frame assms(4) by simp
    show ?thesis
    proof (cases "SomeipClient_isConnected (h a)")
      case True
      with assms Some g p have "w' = w2" "h' = h(a := c)" "tl_vehicle_id t' = tl_vehicle_id t"
        by (auto simp: publishSample_def queueMessage_def Let_def split: if_splits)
      with c assms(3,4) show ?thesis by auto
    next
      case False
      with assms Some g w1 show ?thesis by (auto simp: publishSample_def queueMessage_def Let_def)
    qed
  qed
qed

text \<open>The service.\<close>

lemma wire_say: "wire_inv (Q late) s \<Longrightarrow> wire_inv (Q late) (svc_say (env src) lv m l s)"
  by (auto simp: svc_say_def wire_inv_def split: prod.split intro: time_keeps)

lemma wire_sleep: "wire_inv (Q late) s \<Longrightarrow> wire_inv (Q late) (svc_sleep (env src) n s)"
  by (simp add: svc_sleep_def wire_inv_def sleep_keeps)

lemma demo_login:
  "ac_backend ac = Some DemoAuthBackend \<Longrightarrow> Q late w \<Longrightarrow> AuthClient_authenticate now ac w = (r, ac', w') \<Longrightarrow>
     ac_backend ac' = Some DemoAuthBackend \<and> Q late w'"
  by (auto simp: AuthClient_authenticate_def DemoAuthBackend_def split: if_splits prod.splits
      intro: now_keeps)

lemma wire_login:
  assumes "wire_inv (Q late) s" and "svc_auth s = Some ac"
    and "AuthClient_authenticate now ac (svc_world s) = (r, ac', w)"
  shows "wire_inv (Q late) (s\<lparr>svc_auth := Some ac', svc_world := w\<rparr>)"
proof -
  have "ac_backend ac = Some DemoAuthBackend" "Q late (svc_world s)" using assms(1,2) by (simp_all add: wire_inv_def)
  from demo_login [OF this assms(3)] assms(1) show ?thesis by (simp add: wire_inv_def)
qed

lemma wire_authenticate: "wire_inv (Q late) s \<Longrightarrow> wire_inv (Q late) (snd (svc_authenticate (env src) s))"
  by (simp add: svc_authenticate_def wire_login split: option.split prod.split)

lemma wire_refresh: "wire_inv (Q late) s \<Longrightarrow> wire_inv (Q late) (snd (svc_refresh (env src) s))"
  by (simp add: svc_refresh_def AuthClient_refreshToken_def wire_login split: option.split prod.split)

lemma token_valid_keeps: "Q late w \<Longrightarrow> AuthClient_isTokenValid now ac w = (b, w') \<Longrightarrow> Q late w'"
  by (auto simp: AuthClient_isTokenValid_def split: if_splits prod.splits intro: now_keeps)

lemma wire_needs_token: "wire_inv (Q late) s \<Longrightarrow> wire_inv (Q late) (snd (svc_needs_token (env src) s))"
  by (auto simp: svc_needs_token_def wire_inv_def split: option.split prod.split intro: token_valid_keeps)

lemma wire_on_client:
  assumes "wire_inv (Q late) s"
    and "\<And>c w r c' w'. f c w = (r, c', w') \<Longrightarrow> Q late w \<Longrightarrow> sc_config c' = sc_config c \<and> Q late w'"
  shows "wire_inv (Q late) (snd (svc_on_client f s))"
proof (cases "svc_mqtt s")
  case None
  with assms(1) show ?thesis by (simp add: svc_on_client_def)
next
  case (Some a)
  obtain r c w where f: "f (svc_heap s a) (svc_world s) = (r, c, w)" using prod_cases3 by blast
  with Some assms(1) assms(2) [OF f] show ?thesis by (simp add: svc_on_client_def wire_inv_def)
qed

lemma wire_connect: "wire_inv (Q late) s \<Longrightarrow> wire_inv (Q late) (snd (svc_connect (env src) s))"
  by (simp add: svc_connect_def wire_on_client connect_client)

lemma wire_reconnect: "wire_inv (Q late) s \<Longrightarrow> wire_inv (Q late) (snd (svc_reconnect (env src) s))"
  by (simp add: svc_reconnect_def wire_on_client reconnect_client)

lemma wire_disconnect: "wire_inv (Q late) s \<Longrightarrow> wire_inv (Q late) (svc_disconnect (env src) s)"
  by (simp add: svc_disconnect_def wire_on_client disconnect_client)

lemma wire_publish:
  assumes "wire_inv (Q late) s"
  shows "wire_inv (Q late) (snd (publishTelemetry (env src) s))"
proof (cases "svc_telemetry s")
  case None
  with assms show ?thesis by (simp add: publishTelemetry_def)
next
  case (Some t)
  obtain r t' h w where p: "publishSample (someip_client_ops S) lt (t, svc_heap s) (svc_world s) = (r, (t', h), w)"
    by (metis prod.exhaust)
  have "Q late (svc_world s)" "tl_vehicle_id t = kDefaultEcuClientId"
    "\<forall>a. sc_config (svc_heap s a) = demo_someip_config"
    using assms Some by (simp_all add: wire_inv_def)
  from publish_sample [OF p this] Some p assms show ?thesis by (simp add: publishTelemetry_def wire_inv_def)
qed

lemmas wire_ops = wire_say wire_sleep wire_authenticate wire_refresh wire_needs_token wire_connect
  wire_reconnect wire_disconnect wire_publish

text \<open>The steps of the worker, of \<open>main\<close> and of the listener.\<close>

lemma wire_loop_step: "wire_inv (Q late) s \<Longrightarrow> wire_inv (Q late) (snd (loop_step (env src) stop pc s))"
  by (cases pc) (simp_all add: case_prod_unfold wire_ops)

lemma wire_caller_step:
  assumes "wire_inv (Q late) (pr_svc p)" and "caller_step (env src) pc p = Some (pc', p')"
  shows "wire_inv (Q late) (pr_svc p')"
  using assms by (cases pc) (auto simp: case_prod_unfold wire_ops split: option.splits if_splits)

end

section \<open>The console\<close>

text \<open>What may stand on the console, by the point of the listener.\<close>

definition console_text :: "(int \<Rightarrow> byte list \<Rightarrow> bool) \<Rightarrow> u16 \<Rightarrow> string \<Rightarrow> bool" where
  "console_text good port out \<longleftrightarrow> out = [] \<or> out = listener_banner port \<or>
     (\<exists>r bs. good r bs \<and> out = listener_banner port @ listener_report r bs)"

fun console_inv :: "(int \<Rightarrow> byte list \<Rightarrow> bool) \<Rightarrow> u16 \<Rightarrow> listener_pc option \<Rightarrow> string \<Rightarrow> bool" where
  "console_inv good port (Some (N63 fd)) out \<longleftrightarrow> out = listener_banner port"
| "console_inv good port (Some (N66 fd cfd)) out \<longleftrightarrow> out = listener_banner port"
| "console_inv good port (Some (N74 fd cfd r bs)) out \<longleftrightarrow>
     out = listener_banner port \<and> good r bs"
| "console_inv good port (Some (N76 fd cfd)) out \<longleftrightarrow> console_text good port out"
| "console_inv good port (Some (N78 fd)) out \<longleftrightarrow> console_text good port out"
| "console_inv good port (Some NDone) out \<longleftrightarrow> console_text good port out"
| "console_inv good port pc out \<longleftrightarrow> out = []"

lemma console_inv_text: "console_inv good port pc out \<Longrightarrow> console_text good port out"
  by (cases "(good, port, pc, out)" rule: console_inv.cases) (simp_all add: console_text_def)

text \<open>Whether the listener is past its \<open>recv\<close>.\<close>

fun received :: "listener_pc option \<Rightarrow> bool" where
  "received (Some (N74 fd cfd r bs)) = True"
| "received (Some (N76 fd cfd)) = True"
| "received (Some (N78 fd)) = True"
| "received (Some NDone) = True"
| "received pc = False"

definition wire_prog_inv ::
  "(bool \<Rightarrow> 'w \<Rightarrow> bool) \<Rightarrow> (int \<Rightarrow> byte list \<Rightarrow> bool) \<Rightarrow> u16 \<Rightarrow> (SomeipClient, 'w) program \<Rightarrow> bool" where
  "wire_prog_inv Q good port g \<longleftrightarrow>
     wire_inv (Q (received (pg_listener g))) (pg_svc g) \<and> console_inv good port (pg_listener g) (pg_cloud g) \<and>
     (pg_main g = M96 \<longrightarrow> pg_listener g = None)"

context guarded_world
begin

lemma wire_sched:
  assumes "wire_inv (Q late) (pr_svc p)" and "sched (env src) ch p = Some p'"
  shows "wire_inv (Q late) (pr_svc p')"
proof (cases ch)
  case (Worker i)
  with assms(2) have "pr_svc p' = snd (loop_step (env src) (snd (pr_threads p ! i))
      (fst (pr_threads p ! i)) (pr_svc p))"
    by (auto simp: case_prod_unfold split: if_splits)
  with wire_loop_step [OF assms(1)] show ?thesis by simp
next
  case (Caller j)
  with assms show ?thesis by (auto split: if_splits option.splits intro: wire_caller_step)
next
  case (CallPublish j)
  with assms wire_publish [OF assms(1)] show ?thesis by (auto split: if_splits)
qed (use assms in \<open>auto split: if_splits\<close>)

lemma wire_in_process:
  assumes "wire_prog_inv Q good port g" and "in_process (env src) ch m g = Some g'"
    and "m = M96 \<Longrightarrow> pg_main g = M96"
  shows "wire_prog_inv Q good port g'"
  using assms by (auto simp: in_process_Some wire_prog_inv_def intro: wire_sched)

lemma late_keeps: "Q late w \<Longrightarrow> Q True w"
  using grows_late by (cases late) auto

lemma listener_step_keeps:
  assumes "listener_step V port pc w = Some (pc', out, w')" and "Q (received (Some pc)) w"
    and "console_inv good port (Some pc) text"
  shows "Q (received (Some pc')) w' \<and> console_inv good port (Some pc') (text @ out)"
proof (cases pc)
  case N46
  obtain fd w1 where "sv_socket V w = (fd, w1)" by (cases "sv_socket V w")
  with N46 assms server_socket_keeps [of False w fd w1] grows_late [of w1] show ?thesis
    by (auto simp: console_text_def)
next
  case (N56 fd)
  with assms show ?thesis by (auto split: prod.splits intro: bind_keeps)
next
  case (N57 fd)
  with assms show ?thesis by (auto split: prod.splits intro: listen_keeps)
next
  case (N58 fd)
  with assms show ?thesis by (auto simp: console_text_def intro: server_close_keeps grows_late)
next
  case (N62 fd)
  with assms show ?thesis by auto
next
  case (N63 fd)
  obtain cfd w1 where "sv_accept V fd w = (cfd, w1)" by (cases "sv_accept V fd w")
  with N63 assms accept_keeps [of False w fd cfd w1] grows_late [of w1] show ?thesis
    by (auto simp: console_text_def split: if_splits)
next
  case (N66 fd cfd)
  with assms(2) have "Q False w" by simp
  obtain r bs w1 where "sv_recv V cfd kCloudListenerBufSize w = ((r, bs), w1)"
    using prod.exhaust by metis
  with N66 assms recv_keeps [OF \<open>Q False w\<close> this] show ?thesis
    by (auto simp: console_text_def split: if_splits)
next
  case (N74 fd cfd r bs)
  with assms have "w' = w" "pc' = N76 fd cfd" "text @ out = listener_banner port @ listener_report r bs"
    "good r bs" "Q True w"
    by auto
  then show ?thesis by (auto simp: console_text_def simp del: append_same_eq same_append_eq)
next
  case (N76 fd cfd)
  with assms show ?thesis by (auto intro: server_close_keeps)
next
  case (N78 fd)
  with assms show ?thesis by (auto intro: server_close_keeps)
next
  case NDone
  with assms show ?thesis by simp
qed

lemma wire_prog_step:
  assumes "wire_prog_inv Q good port g" and "prog_sched (env src) V port a g = Some g'"
  shows "wire_prog_inv Q good port g'"
proof (cases a)
  case Main
  with assms(2) have "main_step (env src) (pg_main g) g = Some g'" by simp
  then show ?thesis
  proof (cases rule: main_step_cases)
    case create
    with assms(1) show ?thesis by (auto simp: wire_prog_inv_def)
  next
    case local
    with assms(1) show ?thesis by (simp add: wire_prog_inv_def)
  next
    case (sleep n)
    with assms(1) show ?thesis by (simp add: wire_prog_inv_def wire_sleep)
  next
    case (call ch m)
    with wire_in_process [OF assms(1) call(1)] show ?thesis by simp
  qed
next
  case Listener
  with assms(2) obtain pc pc' out w where l: "pg_listener g = Some pc"
    "listener_step V port pc (svc_world (pg_svc g)) = Some (pc', out, w)"
    "pg_svc g' = (pg_svc g)\<lparr>svc_world := w\<rparr>" "pg_listener g' = Some pc'" "pg_cloud g' = pg_cloud g @ out"
    "pg_main g' = pg_main g"
    by (auto split: option.splits if_splits)
  have "Q (received (Some pc)) (svc_world (pg_svc g))" "console_inv good port (Some pc) (pg_cloud g)"
    using assms(1) l(1) by (simp_all add: wire_prog_inv_def wire_inv_def)
  from listener_step_keeps [OF l(2) this] l assms(1) show ?thesis
    by (auto simp: wire_prog_inv_def wire_inv_def)
next
  case (Service i)
  with assms(2) have "in_process (env src) (Worker i) (pg_main g) g = Some g'"
    by (simp split: if_splits)
  from wire_in_process [OF assms(1) this] show ?thesis by simp
qed

lemma wire_start:
  assumes "main_init now io w = Some s" and "Q False w"
  shows "wire_prog_inv Q good port (program_start s)"
proof -
  obtain t w' where t: "now w = (t, w')" by (cases "now w")
  have "Q False w'" using now_keeps [OF assms(2) t] .
  with assms(1) t have "wire_inv (Q False) s"
    by (auto simp: main_init_def AuthClient_new_def ConnectivityService_new_def wire_inv_def
        TelemetryManager_new_def SomeipClient_new_def demo_someip_config_def split: option.splits)
  then show ?thesis by (simp add: wire_prog_inv_def program_start_def launch_def)
qed

theorem program_keeps:
  assumes "main_init now io w = Some s" and "Q False w"
    and "prog_reach (env src) V port (program_start s) g"
  shows "Q True (svc_world (pg_svc g)) \<and> console_text good port (pg_cloud g)"
proof -
  have "wire_prog_inv Q good port g"
    using assms(3)
  proof (induction rule: prog_reach.induct)
    case prog_refl
    show ?case by (rule wire_start [OF assms(1,2)])
  next
    case (prog_step g a g')
    then show ?case by (blast intro: wire_prog_step)
  qed
  then show ?thesis using console_inv_text late_keeps by (auto simp: wire_prog_inv_def wire_inv_def)
qed

end


section \<open>Everything handed to \<open>send\<close>\<close>

text \<open>Any environment, instrumented with the list of what is handed to \<open>send\<close>.\<close>

definition recording :: "'w socket_ops \<Rightarrow> ('w \<times> byte list list) socket_ops" where
  "recording S =
     \<lparr>sk_socket = (\<lambda>(w, l). case sk_socket S w of (fd, w') \<Rightarrow> (fd, w', l)),
      sk_inet_pton = sk_inet_pton S,
      sk_connect = (\<lambda>fd a (w, l). case sk_connect S fd a w of (rc, w') \<Rightarrow> (rc, w', l)),
      sk_send = (\<lambda>fd bs flags (w, l). case sk_send S fd bs flags w of (n, w') \<Rightarrow> (n, w', l @ [bs])),
      sk_close = (\<lambda>fd (w, l). (sk_close S fd w, l)),
      sk_big_endian = sk_big_endian S\<rparr>"

definition recording_server :: "'w blocking_server \<Rightarrow> ('w \<times> byte list list) blocking_server" where
  "recording_server V =
     \<lparr>sv_socket = (\<lambda>(w, l). case sv_socket V w of (fd, w') \<Rightarrow> (fd, w', l)),
      sv_bind = (\<lambda>fd a (w, l). case sv_bind V fd a w of (rc, w') \<Rightarrow> (rc, w', l)),
      sv_listen = (\<lambda>fd n (w, l). case sv_listen V fd n w of (rc, w') \<Rightarrow> (rc, w', l)),
      sv_accept = (\<lambda>fd (w, l). case sv_accept V fd w of (cfd, w') \<Rightarrow> (cfd, w', l)),
      sv_recv = (\<lambda>fd n (w, l). case sv_recv V fd n w of (r, w') \<Rightarrow> (r, w', l)),
      sv_close = (\<lambda>fd (w, l). (sv_close V fd w, l)),
      sv_big_endian = sv_big_endian V,
      sv_accept_waits = (\<lambda>fd (w, l). sv_accept_waits V fd w),
      sv_recv_waits = (\<lambda>fd (w, l). sv_recv_waits V fd w),
      sv_killed = (\<lambda>(w, l). sv_killed V w)\<rparr>"

definition beside :: "('w \<Rightarrow> 'a \<times> 'w) \<Rightarrow> 'w \<times> 'l \<Rightarrow> 'a \<times> 'w \<times> 'l" where
  "beside f v = (case v of (w, l) \<Rightarrow> case f w of (x, w') \<Rightarrow> (x, w', l))"

definition recording_env ::
  "'w socket_ops \<Rightarrow> 'w clock \<Rightarrow> 'w wall_clock \<Rightarrow> (int \<Rightarrow> 'w \<Rightarrow> 'w) \<Rightarrow> string
    \<Rightarrow> (SomeipClient, 'w \<times> byte list list) env" where
  "recording_env S now lt sl src =
     program_env (recording S) (beside now) (beside lt) (\<lambda>n (w, l). (sl n w, l)) src"

definition all_json :: "bool \<Rightarrow> 'w \<times> byte list list \<Rightarrow> bool" where
  "all_json big v \<longleftrightarrow> (\<forall>f \<in> set (snd v). json_frame big f)"

interpretation recorded: guarded_world "recording S" "recording_server V" "beside now" "beside lt"
  "\<lambda>n (w, l). (sl n w, l)" "\<lambda>late. all_json (sk_big_endian S)" "\<lambda>r bs. True"
  by unfold_locales
    (auto simp: all_json_def beside_def recording_def recording_server_def split: prod.splits)

text \<open>C11: The sample program sends nothing but telemetry: whatever sockets, clocks and scheduler do, every
  byte string it has handed to \<open>send\<close> in any reachable state is one complete SOME/IP frame, and its
  payload reads as a JSON object with the identifier of the vehicle, a local time and the four
  readings.\<close>

theorem program_sends_json_frames:
  assumes "main_init (env_now (recording_env S now lt sl src)) io (w, []) = Some s"
    and "prog_reach (recording_env S now lt sl src) (recording_server V) port (program_start s) g"
    and "f \<in> set (snd (svc_world (pg_svc g)))"
  shows "\<exists>payload t. f = someip_frame (sk_big_endian S) demo_someip_config payload \<and>
    read_object payload = Some [(''vehicle_id'', JStr kDefaultEcuClientId),
      (''timestamp'', JStr (put_time (CHR ''T'') t)), (''speed'', JNum ''80''), (''rpm'', JNum ''2500''),
      (''battery'', JNum ''12.6''), (''fuel'', JNum ''70'')]"
proof -
  have "all_json (sk_big_endian S) (w, [])" by (simp add: all_json_def)
  with recorded.program_keeps [of now io "(w, [])" s S lt sl src V port g] assms
  show ?thesis by (simp add: recording_env_def all_json_def json_frame_def)
qed

section \<open>A network that carries a stream\<close>

text \<open>The bytes accepted from the program so far are pieces of frames: \<open>send\<close> may accept only the first
  part of what it is given.\<close>

definition sample_stream :: "bool \<Rightarrow> byte list \<Rightarrow> bool" where
  "sample_stream big bs \<longleftrightarrow>
     (\<exists>pieces. bs = concat pieces \<and> (\<forall>p \<in> set pieces. \<exists>f k. json_frame big f \<and> p = take k f))"

lemma sample_stream_Nil [simp]: "sample_stream big []"
  unfolding sample_stream_def by (intro exI [of _ "[]"]) simp

lemma sample_stream_more:
  assumes "sample_stream big bs" and "json_frame big f"
  shows "sample_stream big (bs @ take k f)"
proof -
  obtain pieces where "bs = concat pieces" "\<forall>p \<in> set pieces. \<exists>f k. json_frame big f \<and> p = take k f"
    using assms(1) by (auto simp: sample_stream_def)
  with assms(2) show ?thesis
    unfolding sample_stream_def by (intro exI [of _ "pieces @ [take k f]"]) auto
qed

text \<open>What a TCP network promises: \<open>send\<close> appends what it accepts to the stream, \<open>recv\<close> takes the next
  bytes of the stream in order, at most as many as the buffer holds, and nothing else touches it.\<close>

definition untouched :: "('w \<Rightarrow> byte list) \<Rightarrow> ('w \<Rightarrow> nat) \<Rightarrow> 'w \<Rightarrow> 'w \<Rightarrow> bool" where
  "untouched stream taken w w' \<longleftrightarrow> stream w' = stream w \<and> taken w' = taken w"

locale byte_stream =
  fixes S :: "'w socket_ops" and V :: "'w blocking_server"
    and now :: "'w clock" and lt :: "'w wall_clock" and sl :: "int \<Rightarrow> 'w \<Rightarrow> 'w"
    and stream :: "'w \<Rightarrow> byte list" and taken :: "'w \<Rightarrow> nat"
  assumes send_appends: "sk_send S fd bs flags w = (n, w') \<Longrightarrow>
      \<exists>k \<le> length bs. stream w' = stream w @ take k bs \<and> taken w' = taken w \<and> (0 \<le> n \<longrightarrow> n = int k)"
    and recv_takes: "sv_recv V fd m w = ((r, bs), w') \<Longrightarrow> stream w' = stream w \<and>
      (0 < r \<longrightarrow> r = int (length bs) \<and> length bs \<le> m \<and> bs = take (length bs) (drop (taken w) (stream w)))"
    and clocks: "now w = (t, w') \<Longrightarrow> untouched stream taken w w'"
      "lt w = (tm, w') \<Longrightarrow> untouched stream taken w w'" "untouched stream taken w (sl secs w)"
    and sockets: "sk_socket S w = (fd, w') \<Longrightarrow> untouched stream taken w w'"
      "sk_connect S fd a w = (rc, w') \<Longrightarrow> untouched stream taken w w'"
      "untouched stream taken w (sk_close S fd w)"
    and server: "sv_socket V w = (fd, w') \<Longrightarrow> untouched stream taken w w'"
      "sv_bind V fd a w = (rc, w') \<Longrightarrow> untouched stream taken w w'"
      "sv_listen V fd n w = (rc, w') \<Longrightarrow> untouched stream taken w w'"
      "sv_accept V fd w = (rc, w') \<Longrightarrow> untouched stream taken w w'"
      "untouched stream taken w (sv_close V fd w)"

definition stream_ok ::
  "bool \<Rightarrow> ('w \<Rightarrow> byte list) \<Rightarrow> ('w \<Rightarrow> nat) \<Rightarrow> bool \<Rightarrow> 'w \<Rightarrow> bool" where
  "stream_ok big stream taken late w \<longleftrightarrow> sample_stream big (stream w) \<and> (late \<or> taken w = 0)"

lemma stream_ok_untouched:
  "untouched stream taken w w' \<Longrightarrow> stream_ok big stream taken late w \<Longrightarrow> stream_ok big stream taken late w'"
  by (simp add: untouched_def stream_ok_def)

text \<open>The first bytes of a stream of samples, as many as \<open>recv\<close> reports.\<close>

definition stream_start :: "bool \<Rightarrow> int \<Rightarrow> byte list \<Rightarrow> bool" where
  "stream_start big r bs \<longleftrightarrow> r = int (length bs) \<and> length bs \<le> kCloudListenerBufSize \<and>
     (\<exists>rest. sample_stream big (bs @ rest))"

sublocale byte_stream \<subseteq> guarded_world S V now lt sl "stream_ok (sk_big_endian S) stream taken"
  "stream_start (sk_big_endian S)"
proof (unfold_locales, goal_cases)
  case (7 late w f fd flags n w')
  obtain k where "stream w' = stream w @ take k f" "taken w' = taken w" using send_appends [OF 7(3)] by blast
  with 7(1) sample_stream_more [OF _ 7(2)] show ?case by (simp add: stream_ok_def)
next
  case (12 w fd r bs w')
  have "stream w = bs @ drop (length bs) (stream w)" if "0 < r"
    using recv_takes [OF 12(2)] 12(1) that by (metis stream_ok_def append_take_drop_id drop_0)
  moreover have ok: "sample_stream (sk_big_endian S) (stream w)" using 12(1) by (simp add: stream_ok_def)
  ultimately have "\<exists>rest. sample_stream (sk_big_endian S) (bs @ rest)" if "0 < r"
    using that by metis
  with ok recv_takes [OF 12(2)] show ?case by (auto simp: stream_ok_def stream_start_def)
next
  case (14 w)
  then show ?case by (simp add: stream_ok_def)
qed (blast intro: stream_ok_untouched clocks sockets server)+


context byte_stream
begin

lemmas stream_keeps = program_keeps

end

lemma listener_payload_whole:
  assumes "length bs \<le> kCloudListenerBufSize"
  shows "listener_payload (int (length bs)) bs = string_of_bytes (drop 8 bs)"
proof (cases "length bs \<le> 8")
  case True
  then show ?thesis by (simp add: listener_payload_def kSomeipHeaderSize_def string_of_bytes_def)
next
  case False
  then have n: "nat (max 0 (int (length bs) - kSomeipHeaderSize)) = length bs - 8"
    "0 < max 0 (int (length bs) - kSomeipHeaderSize)" "nat (min kSomeipHeaderSize (int (length bs))) = 8"
    by (simp_all add: kSomeipHeaderSize_def nat_diff_distrib)
  have "take kCloudListenerBufSize (bs @ replicate kCloudListenerBufSize 0) =
      bs @ replicate (kCloudListenerBufSize - length bs) 0"
    using assms by (simp add: min_def)
  with False have "take (length bs - 8) (drop 8 (take kCloudListenerBufSize
      (bs @ replicate kCloudListenerBufSize 0))) = drop 8 bs" by simp
  then show ?thesis by (simp only: listener_payload_def Let_def n if_True)
qed

section \<open>The log on the console\<close>

text \<open>The logger has added whole lines, each in the format of \<open>log\<close>.\<close>

definition log_line :: "string \<Rightarrow> bool" where
  "log_line l \<longleftrightarrow> (\<exists>t level message location. l = format_line t level message location)"

definition log_lines :: "string \<Rightarrow> (SomeipClient, 'w) service \<Rightarrow> bool" where
  "log_lines t0 s \<longleftrightarrow> (\<exists>ls. stdout_text (svc_log s) = t0 @ text_of_lines ls \<and> list_all log_line ls)"

lemma log_lines_cong: "svc_log s' = svc_log s \<Longrightarrow> log_lines t0 s' = log_lines t0 s"
  by (simp add: log_lines_def)

lemma log_lines_say: "log_lines t0 s \<Longrightarrow> log_lines t0 (svc_say E level message l s)"
proof -
  assume "log_lines t0 s"
  then obtain ls where ls: "stdout_text (svc_log s) = t0 @ text_of_lines ls" "list_all log_line ls"
    by (auto simp: log_lines_def)
  obtain t w where t: "env_local_time E (svc_world s) = (t, w)" by fastforce
  let ?l = "format_line t level message \<lparr>file_name = env_file E, line = l\<rparr>"
  have "stdout_text (svc_log (svc_say E level message l s)) = t0 @ text_of_lines (ls @ [?l])"
    using ls(1) t by (simp add: svc_say_def Logger_log_def)
  moreover have "list_all log_line (ls @ [?l])" using ls(2) by (auto simp: log_line_def)
  ultimately show ?thesis unfolding log_lines_def by blast
qed

lemma svc_log_ops [simp]:
  "svc_log (snd (svc_authenticate E s)) = svc_log s" "svc_log (snd (svc_refresh E s)) = svc_log s"
  "svc_log (snd (svc_needs_token E s)) = svc_log s" "svc_log (snd (svc_connect E s)) = svc_log s"
  "svc_log (snd (svc_reconnect E s)) = svc_log s" "svc_log (svc_disconnect E s) = svc_log s"
  "svc_log (snd (publishTelemetry E s)) = svc_log s"
  by (simp_all add: svc_authenticate_def svc_refresh_def svc_needs_token_def svc_connect_def svc_reconnect_def
      svc_disconnect_def svc_on_client_def publishTelemetry_def split: option.split prod.split)

lemma log_lines_ops [simp]:
  "log_lines t0 (snd (svc_authenticate E s)) = log_lines t0 s" "log_lines t0 (snd (svc_refresh E s)) = log_lines t0 s"
  "log_lines t0 (snd (svc_needs_token E s)) = log_lines t0 s" "log_lines t0 (snd (svc_connect E s)) = log_lines t0 s"
  "log_lines t0 (snd (svc_reconnect E s)) = log_lines t0 s" "log_lines t0 (svc_disconnect E s) = log_lines t0 s"
  "log_lines t0 (snd (publishTelemetry E s)) = log_lines t0 s" "log_lines t0 (set_state st s) = log_lines t0 s"
  "log_lines t0 (svc_sleep E n s) = log_lines t0 s" "log_lines t0 (s\<lparr>svc_running := b\<rparr>) = log_lines t0 s"
  "log_lines t0 (s\<lparr>svc_world := w\<rparr>) = log_lines t0 s"
  by (simp_all add: log_lines_def)

lemma log_lines_loop: "log_lines t0 s \<Longrightarrow> log_lines t0 (snd (loop_step E stop pc s))"
  by (cases pc) (simp_all add: case_prod_unfold log_lines_say)

lemma log_lines_caller:
  "caller_step E pc p = Some (pc', p') \<Longrightarrow> log_lines t0 (pr_svc p) \<Longrightarrow> log_lines t0 (pr_svc p')"
  by (cases pc) (auto simp: case_prod_unfold on_svc_def request_stop_def log_lines_say split: option.splits if_splits)

lemma log_lines_sched: "sched E ch p = Some p' \<Longrightarrow> log_lines t0 (pr_svc p) \<Longrightarrow> log_lines t0 (pr_svc p')"
  by (cases ch) (auto simp: case_prod_unfold log_lines_loop split: option.splits if_splits dest: log_lines_caller)

lemma log_lines_program:
  assumes "prog_reach E V port g0 g" and "log_lines t0 (pg_svc g0)"
  shows "log_lines t0 (pg_svc g)"
  using assms(1)
proof (induction rule: prog_reach.induct)
  case prog_refl
  show ?case by (rule assms(2))
next
  case (prog_step g a g')
  have keep: "log_lines t0 (pg_svc g')" if "in_process E ch m g = Some g'" for ch m
    using that log_lines_sched prog_step.IH by (auto simp: in_process_Some simp del: sched.simps)
  show ?case
  proof (cases a)
    case Main
    with prog_step.hyps(2) have "main_step E (pg_main g) g = Some g'" by simp
    then show ?thesis
    proof (cases rule: main_step_cases)
      case (sleep n)
      with prog_step.IH show ?thesis by simp
    next
      case (call ch m)
      then show ?thesis by (blast intro: keep)
    qed (use prog_step.IH in simp_all)
  next
    case Listener
    with prog_step show ?thesis by (auto simp: on_svc_def split: option.splits if_splits)
  next
    case (Service i)
    with prog_step.hyps(2) show ?thesis by (auto intro: keep)
  qed
qed

lemma append_in_shuffles: "xs @ ys \<in> shuffles xs ys"
  by (induction xs) (auto intro: Cons_in_shuffles_leftI)

text \<open>C13: What stands on the console of the sample program: over any network that carries bytes in order,
  and in every interleaving, it is made of the characters of the logger, which are whole log lines,
  and of those of the listener thread, each in their order; the two threads may have their characters
  interleaved, since only the logger's writes are under its mutex. What the listener has written is
  nothing, its banner, or the banner and one line with the first bytes of the stream of samples, at
  most 2048, the first eight left out. The stream consists of frames of samples, each possibly cut
  short by a \<open>send\<close> that did not accept all of it; the line may end within a frame or go on into the
  next one, since the listener reads once and does not look at the length field.\<close>

theorem console_shows_stream:
  assumes "byte_stream S V now lt sl stream taken" and "stream w = []" and "taken w = 0"
    and "main_init now io w = Some s" and "stdout_text io = []"
    and "prog_reach (program_env S now lt sl src) V port (program_start s) g" and "out \<in> program_console g"
  shows "\<exists>ls cloud. out \<in> shuffles (text_of_lines ls) cloud \<and> list_all log_line ls \<and>
    (cloud = [] \<or> cloud = listener_banner port \<or>
     (\<exists>bs rest. sample_stream (sk_big_endian S) (bs @ rest) \<and> length bs \<le> kCloudListenerBufSize \<and>
      cloud = listener_banner port @ ''[Cloud] received SOME/IP payload: '' @
        string_of_bytes (drop 8 bs) @ [CHR 0x0A]))"
proof -
  have "stream_ok (sk_big_endian S) stream taken False w"
    using assms(2,3) by (simp add: stream_ok_def)
  from byte_stream.stream_keeps [OF assms(1,4) this assms(6)]
  have "console_text (stream_start (sk_big_endian S)) port (pg_cloud g)" by simp
  then have cloud: "pg_cloud g = [] \<or> pg_cloud g = listener_banner port \<or>
     (\<exists>bs rest. sample_stream (sk_big_endian S) (bs @ rest) \<and> length bs \<le> kCloudListenerBufSize \<and>
      pg_cloud g = listener_banner port @ ''[Cloud] received SOME/IP payload: '' @
        string_of_bytes (drop 8 bs) @ [CHR 0x0A])"
    by (auto simp: console_text_def stream_start_def listener_report_def listener_payload_whole)
  have "stdout_text (svc_log s) = stdout_text io"
    using assms(4) by (auto simp: main_init_def Logger_new_def create_directories_def ConnectivityService_new_def Let_def
        split: option.splits prod.splits if_splits)
  then have "log_lines [] (pg_svc (program_start s))"
    using assms(5) unfolding log_lines_def program_start_def launch_def by (intro exI [of _ "[]"]) simp
  from log_lines_program [OF assms(6) this] obtain ls where
    "stdout_text (svc_log (pg_svc g)) = text_of_lines ls" "list_all log_line ls"
    by (auto simp: log_lines_def)
  with assms(7) cloud show ?thesis unfolding program_console_def by metis
qed

section \<open>A run that sends\<close>

definition rec_env :: "(SomeipClient, byte list list \<times> byte list list) env" where
  "rec_env = recording_env demo_sockets (\<lambda>w. (0, w)) demo_wall (\<lambda>n w. w) ''s.cpp''"

definition idle_server :: "byte list list blocking_server" where
  "idle_server =
     \<lparr>sv_socket = (\<lambda>w. (4, w)), sv_bind = (\<lambda>fd a w. (0, w)), sv_listen = (\<lambda>fd n w. (0, w)),
      sv_accept = (\<lambda>fd w. (5, w)), sv_recv = (\<lambda>fd n w. ((0, []), w)), sv_close = (\<lambda>fd w. w),
      sv_big_endian = False, sv_accept_waits = (\<lambda>fd w. True), sv_recv_waits = (\<lambda>fd w. True),
      sv_killed = (\<lambda>w. False)\<rparr>"

definition rec_link ::
  "(SomeipClient, byte list list \<times> byte list list) service
    \<Rightarrow> (SomeipClient, byte list list \<times> byte list list) service" where
  "rec_link s = s\<lparr>svc_heap := (svc_heap s)(0 := (svc_heap s 0)\<lparr>sc_socket_fd := 3, sc_connected := True\<rparr>)\<rparr>"

lemma rec_world [simp]:
  "svc_world (svc_say rec_env lv m l s) = svc_world s"
  by (simp add: svc_say_def rec_env_def recording_env_def program_env_def beside_def demo_wall_def split: prod.split)

lemma rec_ops [simp]: "env_ops rec_env = someip_client_ops (recording demo_sockets)"
  by (simp add: rec_env_def recording_env_def)

lemma rec_sel [simp]:
  "svc_mqtt (rec_link s) = svc_mqtt s" "svc_auth (rec_link s) = svc_auth s"
  "svc_telemetry (rec_link s) = svc_telemetry s" "svc_world (rec_link s) = svc_world s"
  "svc_telemetry (loop_login s) = svc_telemetry s"
  "svc_mqtt (loop_login s) = svc_mqtt s" "svc_heap (loop_login s) = svc_heap s"
  "svc_world (loop_login s) = svc_world s"
  by (simp_all add: rec_link_def loop_login_def)

lemma rec_authenticate:
  "svc_auth s = Some loop_auth \<Longrightarrow> svc_authenticate rec_env s = (True, loop_login s)"
  by (cases "svc_world s") (simp add: svc_authenticate_def AuthClient_authenticate_def loop_auth_def
      DemoAuthBackend_def rec_env_def recording_env_def program_env_def beside_def loop_login_def nanos_def kDemoTokenTtlSec_def
      kDefaultEcuClientId_def kDemoVehicleSecret_def)

lemma rec_connect:
  "svc_mqtt s = Some 0 \<Longrightarrow> svc_heap s 0 = SomeipClient_new demo_someip_config \<Longrightarrow>
     svc_connect rec_env s = (True, rec_link s)"
  by (cases "svc_world s") (simp add: svc_connect_def svc_on_client_def SomeipClient_connect_def
      recording_def demo_sockets_def SomeipClient_new_def rec_link_def Let_def)

text \<open>From a state with a valid token and a connected client, four steps of the worker send a frame.\<close>

lemma rec_token:
  assumes "svc_auth s = svc_auth (loop_login s')"
  shows "svc_needs_token rec_env s = (False, s)"
  using assms
  by (cases "svc_world s") (simp add: svc_needs_token_def AuthClient_isTokenValid_def loop_login_def
      loop_auth_def rec_env_def recording_env_def program_env_def beside_def)

lemma rec_publish:
  assumes "svc_telemetry s = Some (TelemetryManager_new kDefaultEcuClientId (Some 0))"
    and "svc_heap s 0 = (SomeipClient_new demo_someip_config)\<lparr>sc_socket_fd := 3, sc_connected := True\<rparr>"
    and "snd (svc_world s) = []"
  shows "\<exists>f s'. publishTelemetry rec_env s = (True, s') \<and> snd (svc_world s') = [f]"
proof -
  let ?t = "TelemetryManager_new kDefaultEcuClientId (Some 0)"
  obtain sample v where g: "generateSample (env_local_time rec_env) ?t (svc_world s) = (sample, v)"
    by (cases "generateSample (env_local_time rec_env) ?t (svc_world s)") auto
  have v: "snd v = []"
    using g assms(3) by (cases "svc_world s") (auto simp: generateSample_def currentTimestamp_def rec_env_def
        recording_env_def program_env_def beside_def split: prod.splits)
  have "SomeipClient_isConnected (svc_heap s 0)" using assms(2) by (simp add: SomeipClient_isConnected_def)
  with g v assms show ?thesis
    by (cases v) (simp add: publishTelemetry_def publishSample_def TelemetryManager_new_def Let_def
        SomeipClient_publish_def recording_def demo_sockets_def)
qed

definition sending :: "actor list" where
  "sending = [Main, Main, Main, Main, Main, Main, Main, Main, Main, Main, Main, Main,
     Service 0, Service 0, Service 0, Service 0]"

lemma sending_run:
  assumes "svc_auth s = Some loop_auth" "svc_mqtt s = Some 0" "\<not> svc_running s" "snd (svc_world s) = []"
    "svc_heap s = (\<lambda>_. SomeipClient_new demo_someip_config)"
    "svc_telemetry s = Some (TelemetryManager_new kDefaultEcuClientId (Some 0))"
  shows "\<exists>g f. run_actors rec_env (recording_server idle_server) port sending (program_start s) = Some g \<and>
    snd (svc_world (pg_svc g)) = [f]"
proof -
  let ?login = "loop_login (svc_say rec_env Info ''Starting connectivity service'' 29
      (set_state Starting (s\<lparr>svc_running := True\<rparr>)))"
  let ?link = "rec_link (svc_say rec_env Info ''Authentication succeeded'' 39
      (set_state Authenticating ?login))"
  let ?s = "svc_say rec_env Info ''Cloud transport established'' 49 (set_state Connected ?link)"
  have auth: "svc_authenticate rec_env (svc_say rec_env Info ''Starting connectivity service'' 29
      (set_state Starting (s\<lparr>svc_running := True\<rparr>))) = (True, ?login)"
    using assms by (intro rec_authenticate) simp
  have con: "svc_connect rec_env (svc_say rec_env Info ''Authentication succeeded'' 39
      (set_state Authenticating ?login)) = (True, ?link)"
    using assms by (intro rec_connect) simp_all
  have tok: "svc_needs_token rec_env ?s = (False, ?s)" by (rule rec_token) simp
  have heap: "svc_heap ?s 0 = (SomeipClient_new demo_someip_config)\<lparr>sc_socket_fd := 3, sc_connected := True\<rparr>"
    using assms by (simp add: rec_link_def)
  have on: "svc_online rec_env ?s" using assms heap by (simp add: svc_online_def SomeipClient_isConnected_def)
  have "\<exists>f s'. publishTelemetry rec_env ?s = (True, s') \<and> snd (svc_world s') = [f]"
    using assms heap by (intro rec_publish) simp_all
  then obtain f s' where "publishTelemetry rec_env ?s = (True, s')" "snd (svc_world s') = [f]" by blast
  with assms auth con tok on show ?thesis
    by (simp add: sending_def program_start_def launch_def in_process_def on_svc_def pg_ended_def
        finished_def pg_killed_def recording_server_def idle_server_def case_prod_unfold del: svc_online_simps)
qed

lemma sending_program:
  obtains s g f where "main_init (env_now rec_env) demo_io ([], []) = Some s"
    and "run_actors rec_env (recording_server idle_server) port sending (program_start s) = Some g"
    and "snd (svc_world (pg_svc g)) = [f]"
proof -
  obtain lg io1 where "Logger_new kDemoLogPath demo_io = Some (lg, io1)" using demo_log_path by blast
  then obtain s where s: "main_init (env_now rec_env) demo_io ([], []) = Some s"
    "svc_auth s = Some loop_auth" "svc_mqtt s = Some 0" "\<not> svc_running s" "snd (svc_world s) = []"
    "svc_heap s = (\<lambda>_. SomeipClient_new demo_someip_config)"
    "svc_telemetry s = Some (TelemetryManager_new kDefaultEcuClientId (Some 0))"
    by (simp add: main_init_def AuthClient_new_def ConnectivityService_new_def rec_env_def
        recording_env_def program_env_def beside_def loop_auth_def demo_someip_config_def)
  from sending_run [OF s(2-7)] s(1) that show thesis by blast
qed

theorem program_sends_json_frames_witness:
  "\<exists>s g f payload. main_init (env_now rec_env) demo_io ([], []) = Some s \<and>
     prog_reach rec_env (recording_server idle_server) kDemoSomeipPort (program_start s) g \<and>
     snd (svc_world (pg_svc g)) = [f] \<and> f = someip_frame False demo_someip_config payload"
proof -
  obtain s g f where s: "main_init (env_now rec_env) demo_io ([], []) = Some s"
    and g: "run_actors rec_env (recording_server idle_server) kDemoSomeipPort sending (program_start s) = Some g"
      "snd (svc_world (pg_svc g)) = [f]"
    by (rule sending_program)
  have r: "prog_reach rec_env (recording_server idle_server) kDemoSomeipPort (program_start s) g"
    using run_actors_reach [OF prog_refl] g(1) by blast
  have b: "sk_big_endian demo_sockets = False" by (simp add: demo_sockets_def)
  have "f \<in> set (snd (svc_world (pg_svc g)))" using g(2) by simp
  from program_sends_json_frames [OF s [unfolded rec_env_def] r [unfolded rec_env_def] this] s r g(2) b
  show ?thesis by auto
qed


section \<open>The loopback network\<close>

interpretation loop_net: byte_stream loop_sockets loop_server "\<lambda>w. (0, w)" demo_wall "\<lambda>n w. w"
  lb_stream lb_taken
proof (unfold_locales, goal_cases)
  case (1 fd bs flags w n w')
  then show ?case
    by (intro exI [of _ "if lb_peer w = Present \<or> lb_peer w = Gone then length bs else 0"])
      (auto simp: loop_sockets_def split: peer.splits if_splits)
next
  case (2 fd m w r bs w')
  then have "r = int (length bs)" "bs = take m (drop (lb_taken w) (lb_stream w))" "lb_stream w' = lb_stream w"
    by (auto simp: loop_server_def Let_def)
  moreover have "take (length (take m xs)) xs = take m xs" for xs :: "byte list"
    by (cases "m \<le> length xs") simp_all
  from this [of "drop (lb_taken w) (lb_stream w)"] have "take (length bs) (drop (lb_taken w) (lb_stream w)) = bs"
    using calculation(2) by metis
  moreover have "length bs \<le> m" using calculation(2) by simp
  ultimately show ?case by metis
qed (auto simp: untouched_def loop_sockets_def loop_server_def demo_wall_def split: if_splits)

lemma loop_program_env: "loop_env = program_env loop_sockets (\<lambda>w. (0, w)) demo_wall (\<lambda>n w. w) ''s.cpp''"
  by (simp add: loop_env_def program_env_def)

lemma quiet_net_sel [simp]:
  "lb_stream quiet_net = []" "lb_taken quiet_net = 0" "\<not> lb_closed quiet_net" "\<not> lb_pending quiet_net"
  "lb_peer quiet_net = Present"
  by (simp_all add: quiet_net_def)

lemma loop_token:
  "svc_auth s = svc_auth (loop_login s') \<Longrightarrow> svc_needs_token loop_env s = (False, s)"
  by (simp add: svc_needs_token_def AuthClient_isTokenValid_def loop_login_def loop_auth_def loop_env_def)

lemma loop_publish:
  assumes "lb_peer (svc_world s) = Present" and "svc_telemetry s = Some (TelemetryManager_new kDefaultEcuClientId (Some 0))"
    and "svc_heap s 0 = (SomeipClient_new demo_someip_config)\<lparr>sc_socket_fd := 3, sc_connected := True\<rparr>"
  shows "\<exists>f. f \<noteq> [] \<and> publishTelemetry loop_env s =
    (True, s\<lparr>svc_world := (svc_world s)\<lparr>lb_stream := lb_stream (svc_world s) @ f\<rparr>\<rparr>)"
proof -
  let ?t = "TelemetryManager_new kDefaultEcuClientId (Some 0)"
  obtain sample where g: "generateSample (env_local_time loop_env) ?t (svc_world s) = (sample, svc_world s)"
    by (simp add: generateSample_def currentTimestamp_def loop_env_def demo_wall_def)
  let ?f = "someip_frame False demo_someip_config (TelemetryManager_serialize ?t sample)"
  have "SomeipClient_isConnected (svc_heap s 0)" using assms(3) by (simp add: SomeipClient_isConnected_def)
  moreover have "svc_heap s = (svc_heap s)(0 := svc_heap s 0)" by simp
  moreover have "SomeipClient_publish loop_sockets topic (TelemetryManager_serialize ?t sample) 1
      (svc_heap s 0) (svc_world s) =
      (True, svc_heap s 0, (svc_world s)\<lparr>lb_stream := lb_stream (svc_world s) @ ?f\<rparr>)" for topic
    using assms(1,3) by (simp add: SomeipClient_publish_def loop_sockets_def SomeipClient_new_def Let_def)
  moreover have "?f \<noteq> []"
  proof -
    have "length ?f \<noteq> 0" by simp
    then show ?thesis by (metis list.size(3))
  qed
  ultimately show ?thesis
    using g assms(2)
    by (intro exI [of _ ?f]) (simp add: publishTelemetry_def publishSample_def TelemetryManager_new_def Let_def)
qed

text \<open>The service of \<open>main\<close>, logged in and connected.\<close>

definition in_service :: "(SomeipClient, 'w) service \<Rightarrow> bool" where
  "in_service s \<longleftrightarrow>
     svc_auth s = Some (loop_auth\<lparr>ac_token := ''jwt-demo-token'', ac_expires_at := 3600000000000\<rparr>) \<and>
     svc_mqtt s = Some 0 \<and>
     svc_heap s 0 = (SomeipClient_new demo_someip_config)\<lparr>sc_socket_fd := 3, sc_connected := True\<rparr> \<and>
     (\<exists>t. svc_telemetry s = Some t \<and> tl_client t = Some 0)"

lemma in_service_world [simp]: "in_service (s\<lparr>svc_world := w\<rparr>) = in_service s"
  by (simp add: in_service_def)

text \<open>The listener listens, \<open>main\<close> starts the service, the worker publishes, the listener receives and
  prints.\<close>

definition showing :: "actor list" where
  "showing = [Main, Listener, Listener, Listener, Listener,
     Main, Main, Main, Main, Main, Main, Main, Main, Main, Main, Main,
     Service 0, Service 0, Service 0, Service 0, Listener, Listener, Listener]"

lemma showing_run:
  assumes "svc_auth s = Some loop_auth" "svc_mqtt s = Some 0" "\<not> svc_running s" "svc_world s = quiet_net"
    "svc_heap s = (\<lambda>_. SomeipClient_new demo_someip_config)"
    "svc_telemetry s = Some (TelemetryManager_new kDefaultEcuClientId (Some 0))"
  shows "\<exists>g r bs. run_actors loop_env loop_server port showing (program_start s) = Some g \<and>
    pg_cloud g = listener_banner port @ listener_report r bs \<and> pg_listener g = Some (N76 4 5) \<and>
    pr_threads (pg_process g) = [(L117, False)] \<and> \<not> pg_ended g \<and> in_service (pg_svc g) \<and>
    lb_peer (pg_world g) = Present"
proof -
  let ?w = "quiet_net\<lparr>lb_listening := True\<rparr>"
  let ?s0 = "s\<lparr>svc_world := ?w\<rparr>"
  let ?login = "loop_login (svc_say loop_env Info ''Starting connectivity service'' 29
      (set_state Starting (s\<lparr>svc_world := ?w, svc_running := True\<rparr>)))"
  let ?link = "loop_link (svc_say loop_env Info ''Authentication succeeded'' 39
      (set_state Authenticating ?login))"
  let ?s = "svc_say loop_env Info ''Cloud transport established'' 49 (set_state Connected ?link)"
  have auth: "svc_authenticate loop_env (svc_say loop_env Info ''Starting connectivity service'' 29
      (set_state Starting (s\<lparr>svc_world := ?w, svc_running := True\<rparr>))) = (True, ?login)"
    using assms by (intro loop_authenticate) simp
  have con: "svc_connect loop_env (svc_say loop_env Info ''Authentication succeeded'' 39
      (set_state Authenticating ?login)) = (True, ?link)"
    using assms by (intro loop_connect) simp_all
  have tok: "svc_needs_token loop_env ?s = (False, ?s)"
    by (rule loop_token) (simp add: loop_link_def)
  have heap: "svc_heap ?s 0 = (SomeipClient_new demo_someip_config)\<lparr>sc_socket_fd := 3, sc_connected := True\<rparr>"
    using assms by (simp add: loop_link_def)
  have on: "svc_online loop_env ?s" using assms heap by (simp add: svc_online_def SomeipClient_isConnected_def)
  have "svc_telemetry ?s = svc_telemetry s" by (simp add: loop_link_def loop_login_def)
  then obtain f where f: "f \<noteq> []" "publishTelemetry loop_env ?s =
      (True, ?s\<lparr>svc_world := (svc_world ?s)\<lparr>lb_stream := lb_stream (svc_world ?s) @ f\<rparr>\<rparr>)"
    using loop_publish [OF _ _ heap] assms(6) by auto
  moreover have "in_service ?s"
    using assms(2,5,6) by (simp add: in_service_def loop_link_def loop_login_def TelemetryManager_new_def)
  ultimately show ?thesis
    using assms auth con tok on
    by (simp add: showing_def program_start_def launch_def in_process_def on_svc_def pg_ended_def
        finished_def loop_server_def kCloudListenerBufSize_def pg_killed_def Let_def del: svc_online_simps) blast
qed

theorem console_shows_stream_witness:
  "\<exists>s g out ls cloud. main_init (env_now loop_env) demo_io quiet_net = Some s \<and>
     prog_reach loop_env loop_server kDemoSomeipPort (program_start s) g \<and> out \<in> program_console g \<and>
     out \<in> shuffles (text_of_lines ls) cloud \<and> list_all log_line ls \<and>
     (\<exists>r bs. pg_cloud g = listener_banner kDemoSomeipPort @ listener_report r bs)"
proof -
  obtain lg io1 where l: "Logger_new kDemoLogPath demo_io = Some (lg, io1)" using demo_log_path by blast
  then obtain s where s: "main_init (env_now loop_env) demo_io quiet_net = Some s"
    "svc_auth s = Some loop_auth" "svc_mqtt s = Some 0" "\<not> svc_running s" "svc_world s = quiet_net"
    "svc_heap s = (\<lambda>_. SomeipClient_new demo_someip_config)"
    "svc_telemetry s = Some (TelemetryManager_new kDefaultEcuClientId (Some 0))"
    by (simp add: main_init_def AuthClient_new_def ConnectivityService_new_def loop_env_def
        loop_auth_def demo_someip_config_def)
  from showing_run [OF s(2-7)] obtain g r bs where
    g: "run_actors loop_env loop_server kDemoSomeipPort showing (program_start s) = Some g"
    "pg_cloud g = listener_banner kDemoSomeipPort @ listener_report r bs" by blast
  have r: "prog_reach loop_env loop_server kDemoSomeipPort (program_start s) g"
    using run_actors_reach [OF prog_refl] g(1) by blast
  have b: "sk_big_endian loop_sockets = False" by (simp add: loop_sockets_def)
  have now: "env_now loop_env = (\<lambda>w. (0, w))" by (simp add: loop_env_def)
  have "stdout_text (svc_log (pg_svc g)) @ pg_cloud g \<in> program_console g"
    unfolding program_console_def by (rule append_in_shuffles)
  moreover have "stdout_text demo_io = []" by (simp add: demo_io_def)
  ultimately obtain ls cloud where "stdout_text (svc_log (pg_svc g)) @ pg_cloud g \<in> shuffles (text_of_lines ls) cloud"
    "list_all log_line ls" "stdout_text (svc_log (pg_svc g)) @ pg_cloud g \<in> program_console g"
    using console_shows_stream [OF loop_net.byte_stream_axioms quiet_net_sel(1,2) s(1) [unfolded now] _
      r [unfolded loop_program_env]] by blast
  with s(1) r g(2) show ?thesis by blast
qed

end
