(* ===== verification/Cloud_Termination.thy ===== *)
theory Cloud_Termination
  imports Wire Cloud_Liveness
begin

text \<open>
  The sample program over a network that does its part (\<open>src/main.cpp\<close>). The locale \<open>draining_network\<close> says
  what that is: a connection that was made is there to be accepted, and a connection whose client has
  closed it ends the wait in \<open>recv\<close>. Then the listener does not keep \<open>main\<close> waiting, and under a fair
  scheduler the program ends.
\<close>

section \<open>The network\<close>

text \<open>\<open>offered\<close> says that a client's connection waits to be accepted, \<open>closed\<close> that the client has closed its
  side. Nothing but \<open>accept\<close> takes back an offer, and nothing reopens the closed side.\<close>

locale draining_network =
  closing: guarded_world S V now lt sl "\<lambda>_. closed" "\<lambda>_ _. True" +
  offering: guarded_world S "V\<lparr>sv_accept := (\<lambda>fd w. (0, w))\<rparr>" now lt sl "\<lambda>_. offered" "\<lambda>_ _. True"
  for S :: "'w socket_ops" and V :: "'w blocking_server" and now :: "'w clock" and lt :: "'w wall_clock"
    and sl :: "int \<Rightarrow> 'w \<Rightarrow> 'w" and closed offered :: "'w \<Rightarrow> bool" +
  assumes accept_ready: "offered w \<Longrightarrow> \<not> sv_accept_waits V fd w"
    and recv_ready: "closed w \<Longrightarrow> \<not> sv_recv_waits V cfd w"
    and connect_offers: "sk_connect S fd a w = (0, w') \<Longrightarrow> offered w'"
    and close_closes: "closed (sk_close S fd w)"

interpretation any_world: guarded_world S V now lt sl "\<lambda>_ _. True" "\<lambda>_ _. True" for S V now lt sl
  by unfold_locales simp_all

lemma wire_inv_both: "wire_inv Q s \<longleftrightarrow> wire_inv (\<lambda>_. True) s \<and> Q (svc_world s)"
  by (auto simp: wire_inv_def)

text \<open>Whether the listener has accepted its connection.\<close>

fun accepted :: "listener_pc \<Rightarrow> bool" where
  "accepted N46 = False" | "accepted (N56 _) = False" | "accepted (N57 _) = False"
| "accepted (N62 _) = False" | "accepted (N63 _) = False" | "accepted pc = True"

context draining_network
begin

abbreviation penv :: "string \<Rightarrow> (SomeipClient, 'w) env" where
  "penv src \<equiv> program_env S now lt sl src"

lemma connects_offer:
  assumes "svc_connect (penv src) s = (True, s')" and "\<not> svc_online (penv src) s" and "store_inv someip_inv s"
  shows "offered (svc_world s')"
proof (cases "svc_mqtt s")
  case None
  with assms(1) show ?thesis by (simp add: svc_connect_def svc_on_client_def)
next
  case (Some a)
  have "\<not> sc_connected (svc_heap s a)"
    using assms(2,3) Some by (auto simp: svc_online_def store_inv_def someip_inv_def someip_client_ops_def
        SomeipClient_isConnected_def)
  with assms(1) Some connect_offers show ?thesis
    by (auto simp: svc_connect_def svc_on_client_def someip_client_ops_def SomeipClient_connect_def Let_def
        split: prod.splits if_splits)
qed

lemma disconnects_close:
  assumes "svc_online (penv src) s"
  shows "closed (svc_world (svc_disconnect (penv src) s))"
  using assms close_closes
  by (auto simp: svc_online_def svc_disconnect_def svc_on_client_def someip_client_ops_def
      SomeipClient_disconnect_def SomeipClient_isConnected_def Let_def split: option.splits)

lemma reconnects_close:
  assumes "svc_online (penv src) s" and "svc_reconnect (penv src) s = (r, s')"
  shows "closed (svc_world s')"
proof -
  obtain a where a: "svc_mqtt s = Some a" "0 \<le> sc_socket_fd (svc_heap s a)"
    using assms(1) by (auto simp: svc_online_def someip_client_ops_def SomeipClient_isConnected_def split: option.splits)
  obtain r1 c1 w1 where d: "SomeipClient_disconnect S (svc_heap s a) (svc_world s) = (r1, c1, w1)"
    by (metis prod.exhaust)
  obtain r2 c2 w2 where c: "SomeipClient_connect S c1 w1 = (r2, c2, w2)" by (metis prod.exhaust)
  have "closed w1" using d a(2) close_closes by (auto simp: SomeipClient_disconnect_def Let_def)
  with closing.connect_client [OF c] have "closed w2" by simp
  with assms(2) a d c show ?thesis
    by (auto simp: svc_reconnect_def svc_on_client_def someip_client_ops_def SomeipClient_reconnect_def)
qed

end


section \<open>The connection of the program\<close>

context draining_network
begin

text \<open>A client that is up stays up or closes its connection.\<close>

lemma loop_step_drains:
  assumes "loop_step (penv src) b pc s = (pc', s')" and "wire_inv (\<lambda>_. True) s" and "store_inv someip_inv s"
    and "svc_online (penv src) s \<or> closed (svc_world s)"
  shows "svc_online (penv src) s' \<or> closed (svc_world s')"
proof (cases "closed (svc_world s)")
  case True
  then have "wire_inv closed s" using assms(2) wire_inv_both [of closed] by blast
  from closing.wire_loop_step [OF this, of src b pc] assms(1) show ?thesis by (simp add: wire_inv_def)
next
  case False
  with assms(4) have on: "svc_online (penv src) s" by simp
  have kept: "svc_online (penv src) t" if "svc_heap t = svc_heap s" "svc_mqtt t = svc_mqtt s" for t
    using store_online_cong [OF that, of "penv src" someip_inv] on by simp
  show ?thesis
  proof (cases pc)
    case L86
    obtain n t where n: "svc_needs_token (penv src) s = (n, t)" by fastforce
    with kept svc_needs_token_frame [OF n] L86 assms(1) show ?thesis by (auto simp: same_control_def)
  next
    case L89
    obtain n t where n: "svc_refresh (penv src) s = (n, t)" by fastforce
    with kept svc_refresh_frame [OF n] L89 assms(1) show ?thesis by (auto simp: same_control_def)
  next
    case L103
    obtain n t where n: "svc_reconnect (penv src) s = (n, t)" by fastforce
    with reconnects_close [OF on n] L103 assms(1) show ?thesis by auto
  next
    case L113
    obtain n t where n: "publishTelemetry (penv src) s = (n, t)" by fastforce
    with someip.publishTelemetry_online [OF assms(3) _ n] on L113 assms(1) show ?thesis by auto
  next
    case L120
    with assms(1) disconnects_close [OF on] show ?thesis by auto
  qed (use assms(1) on in \<open>auto split: if_splits\<close>)
qed

text \<open>The caller has connected and not yet called \<open>stop\<close>, or is in a later call.\<close>

end

fun has_connected :: "caller_pc \<Rightarrow> bool" where
  "has_connected S48 = True" | "has_connected S49 = True" | "has_connected S51 = True"
| "has_connected (S51_assign t) = True" | "has_connected (S51_join t old) = True" | "has_connected S52 = True"
| "has_connected (Ready (Some (Start, r))) = r" | "has_connected pc = False"

lemma has_connected_step:
  assumes "caller_step E pc p = Some (pc', p')" and "in_start pc" and "pc \<noteq> S24"
    and "has_connected pc'"
  shows "has_connected pc \<or> (pc = S41 \<and> svc_connect E (pr_svc p) = (True, pr_svc p'))"
  using assms by (cases pc) (auto split: if_splits option.splits prod.splits)

lemma caller_step_connected:
  assumes "caller_step E pc p = Some (pc', p')" and "pc \<notin> {S31, S41}"
  shows "svc_online E (pr_svc p') = svc_online E (pr_svc p)"
  using assms by (cases pc) (auto simp: on_svc_def split: if_splits option.splits)


text \<open>\<open>start\<close> has connected and \<open>main\<close> has not left line 105.\<close>

definition connected_once :: "('c, 'w) program \<Rightarrow> bool" where
  "connected_once g \<longleftrightarrow> pg_main g \<in> {M103, M104, M104_call, M105} \<or>
     (pg_main g = M98_call \<and> has_connected (pg_caller g))"

definition drains ::
  "('w \<Rightarrow> bool) \<Rightarrow> ('w \<Rightarrow> bool) \<Rightarrow> (SomeipClient, 'w) env \<Rightarrow> (SomeipClient, 'w) program \<Rightarrow> bool" where
  "drains closed offered E g \<longleftrightarrow> wire_inv (\<lambda>_. True) (pg_svc g) \<and>
     (pg_main g \<in> {M96, M98} \<or> pg_caller g = S24 \<longrightarrow> \<not> svc_running (pg_svc g)) \<and>
     (connected_once g \<longrightarrow>
       (offered (svc_world (pg_svc g)) \<or> (\<exists>pc. pg_listener g = Some pc \<and> accepted pc)) \<and>
       (svc_online E (pg_svc g) \<or> closed (svc_world (pg_svc g))))"

context draining_network
begin

abbreviation holds_on :: "string \<Rightarrow> (SomeipClient, 'w) program \<Rightarrow> bool" where
  "holds_on src \<equiv> drains closed offered (penv src)"

text \<open>A step of the service keeps the offer and the connection, unless it is the connect of \<open>start\<close>.\<close>

lemma sched_world:
  assumes "sched (penv src) ch p = Some p'" and "wire_inv (\<lambda>_. True) (pr_svc p)"
  shows "wire_inv (\<lambda>_. True) (pr_svc p')"
    "offered (svc_world (pr_svc p)) \<Longrightarrow> offered (svc_world (pr_svc p'))"
    "closed (svc_world (pr_svc p)) \<Longrightarrow> closed (svc_world (pr_svc p'))"
proof -
  show "wire_inv (\<lambda>_. True) (pr_svc p')" by (rule any_world.wire_sched [OF assms(2,1)])
  show "offered (svc_world (pr_svc p'))" if "offered (svc_world (pr_svc p))"
  proof -
    have "wire_inv offered (pr_svc p)" using that assms(2) wire_inv_both [of offered] by blast
    from offering.wire_sched [OF this assms(1)] show ?thesis by (simp add: wire_inv_def)
  qed
  show "closed (svc_world (pr_svc p'))" if "closed (svc_world (pr_svc p))"
  proof -
    have "wire_inv closed (pr_svc p)" using that assms(2) wire_inv_both [of closed] by blast
    from closing.wire_sched [OF this assms(1)] show ?thesis by (simp add: wire_inv_def)
  qed
qed

lemma sched_drains:
  assumes "sched (penv src) ch p = Some p'" and "wire_inv (\<lambda>_. True) (pr_svc p)" and "store_inv someip_inv (pr_svc p)"
    and "pr_callers p = [pc]" and "ch = Caller 0 \<longrightarrow> pc \<notin> {S31, S41}" and "\<And>j. ch \<noteq> CallPublish j"
    and "svc_online (penv src) (pr_svc p) \<or> closed (svc_world (pr_svc p))"
  shows "svc_online (penv src) (pr_svc p') \<or> closed (svc_world (pr_svc p'))"
proof (cases ch)
  case (Worker i)
  obtain l s where st: "loop_step (penv src) (snd (pr_threads p ! i)) (fst (pr_threads p ! i)) (pr_svc p) = (l, s)"
    by fastforce
  with Worker assms(1) have "pr_svc p' = s" by (auto split: if_splits)
  with loop_step_drains [OF st assms(2,3,7)] show ?thesis by simp
next
  case (Caller j)
  with assms(1,4) have j: "j = 0" by (auto split: if_splits)
  with assms(1,4) Caller obtain pc' p1 where "caller_step (penv src) pc p = Some (pc', p1)" "pr_svc p' = pr_svc p1"
    by (auto split: if_splits option.splits)
  with caller_step_connected [of "penv src" pc p pc' p1] assms(5) Caller j
  have "svc_online (penv src) (pr_svc p') = svc_online (penv src) (pr_svc p)" by simp
  with assms(7) sched_world(3) [OF assms(1,2)] show ?thesis by blast
qed (use assms(1,6,7) in \<open>auto split: if_splits\<close>)

lemma listener_closes:
  assumes "listener_step V port pc w = Some (pc', out, w')" and "closed w"
  shows "closed w'"
proof (cases pc)
  case N46
  obtain fd w1 where "sv_socket V w = (fd, w1)" by fastforce
  with N46 assms closing.server_socket_keeps [OF assms(2)] show ?thesis by auto
next
  case (N56 fd)
  obtain rc w1 where "sv_bind V fd (listener_address V port) w = (rc, w1)" by fastforce
  with N56 assms closing.bind_keeps [OF assms(2)] show ?thesis by auto
next
  case (N57 fd)
  obtain rc w1 where "sv_listen V fd 1 w = (rc, w1)" by fastforce
  with N57 assms closing.listen_keeps [OF assms(2)] show ?thesis by auto
next
  case (N63 fd)
  obtain rc w1 where "sv_accept V fd w = (rc, w1)" by fastforce
  with N63 assms closing.accept_keeps [OF assms(2)] show ?thesis by (auto split: if_splits)
next
  case (N66 fd cfd)
  obtain r bs w1 where "sv_recv V cfd kCloudListenerBufSize w = ((r, bs), w1)" by (metis prod.exhaust)
  with N66 assms closing.recv_keeps [OF assms(2)] show ?thesis by (auto split: if_splits)
qed (use assms closing.server_close_keeps [OF assms(2)] in auto)

lemma listener_offers:
  assumes "listener_step V port pc w = Some (pc', out, w')" and "offered w \<or> accepted pc"
  shows "offered w' \<or> accepted pc'"
proof (cases "accepted pc")
  case True
  with assms(1) show ?thesis by (cases pc) (auto split: prod.splits if_splits)
next
  case False
  with assms(2) have o: "offered w" by simp
  show ?thesis
  proof (cases pc)
    case N46
    obtain fd w1 where "sv_socket V w = (fd, w1)" by fastforce
    with N46 assms(1) offering.server_socket_keeps [OF o] show ?thesis by auto
  next
    case (N56 fd)
    obtain rc w1 where "sv_bind V fd (listener_address V port) w = (rc, w1)" by fastforce
    with N56 assms(1) offering.bind_keeps [OF o] show ?thesis by auto
  next
    case (N57 fd)
    obtain rc w1 where "sv_listen V fd 1 w = (rc, w1)" by fastforce
    with N57 assms(1) offering.listen_keeps [OF o] show ?thesis by auto
  next
    case (N63 fd)
    with assms(1) show ?thesis by (auto split: if_splits prod.splits)
  qed (use assms(1) o False in auto)
qed

end


section \<open>Every step of the program\<close>

lemma drains_cong:
  "drains closed offered E g \<Longrightarrow> pg_process g' = pg_process g \<Longrightarrow> pg_main g' \<notin> {M96, M98} \<or> pg_main g = M96 \<Longrightarrow>
     pg_listener g' = pg_listener g \<or> pg_main g = M96 \<Longrightarrow> (connected_once g' \<Longrightarrow> connected_once g) \<Longrightarrow>
     \<not> (pg_main g = M96 \<and> connected_once g) \<Longrightarrow> drains closed offered E g'"
  by (auto simp: drains_def)

context draining_network
begin

text \<open>A step of the process in which \<open>start\<close> does not connect.\<close>

lemma process_drains:
  assumes "holds_on src g" and "prog_inv (penv src) someip_inv g" and "sched (penv src) ch (pg_process g) = Some p"
    and "ch = Caller 0 \<longrightarrow> pg_caller g \<notin> {S31, S41}" and "\<And>j. ch \<noteq> CallPublish j"
    and "g' = g\<lparr>pg_process := p, pg_main := m\<rparr>" and "connected_once g' \<Longrightarrow> connected_once g"
    and "m \<in> {M96, M98} \<or> pg_caller g' = S24 \<Longrightarrow> \<not> svc_running (pg_svc g')"
  shows "holds_on src g'"
proof -
  have w: "wire_inv (\<lambda>_. True) (pg_svc g)" using assms(1) by (simp add: drains_def)
  have inv: "pr_callers (pg_process g) = [pg_caller g]" "store_inv someip_inv (pg_svc g)"
    using assms(2) by (simp_all add: prog_inv_def)
  note kept = sched_world [OF assms(3) w]
  note drained = sched_drains [OF assms(3) w inv(2,1) assms(4,5)]
  show ?thesis
    using assms(1,6,7,8) kept drained by (auto simp: drains_def)
qed

text \<open>The step in which \<open>start\<close> connects.\<close>

lemma connect_drains:
  assumes "holds_on src g" and "prog_inv (penv src) someip_inv g" and "pg_caller g = S41"
    and "caller_step (penv src) S41 (pg_process g) = Some (pc, p)" and "g' = g\<lparr>pg_process := p\<lparr>pr_callers := [pc]\<rparr>, pg_main := M98_call\<rparr>"
    and "prog_inv (penv src) someip_inv g'"
  shows "holds_on src g'"
proof -
  have w: "wire_inv (\<lambda>_. True) (pg_svc g)" using assms(1) by (simp add: drains_def)
  have s: "sched (penv src) (Caller 0) (pg_process g) = Some (p\<lparr>pr_callers := [pc]\<rparr>)"
    using assms(2-4) by (simp add: prog_inv_def)
  obtain ok t where c: "svc_connect (penv src) (pg_svc g) = (ok, t)" by fastforce
  with assms(4) have p: "pr_svc p = t" "pc = (if ok then S48 else S42)" by auto
  have off: "\<not> svc_online (penv src) (pg_svc g)" "store_inv someip_inv (pg_svc g)"
    using assms(2,3) by (simp_all add: prog_inv_def)
  have "offered (svc_world t) \<and> svc_online (penv src) t" if ok
  proof -
    have "caller_inv (penv src) S48 (pg_process g')" using assms(5,6) p that by (simp add: prog_inv_def)
    with connects_offer [OF _ off, of t] c that p assms(5) show ?thesis by simp
  qed
  with p assms(5) sched_world(1) [OF s w] show ?thesis
    by (auto simp: drains_def connected_once_def)
qed

lemma call_drains:
  assumes "holds_on src g" and "prog_inv (penv src) someip_inv g" and "prog_inv (penv src) someip_inv g'"
    and "pg_main g = M98_call" and "in_process (penv src) (Caller 0) M98_call g = Some g'"
  shows "holds_on src g'"
proof -
  obtain p where p: "sched (penv src) (Caller 0) (pg_process g) = Some p" "g' = g\<lparr>pg_process := p, pg_main := M98_call\<rparr>"
    using assms(5) by (auto simp: in_process_Some)
  have inv: "pr_callers (pg_process g) = [pg_caller g]" "in_start (pg_caller g)"
    using assms(2,4) by (simp_all add: prog_inv_def)
  obtain c where c: "pr_callers (pg_process g) = [c]" using inv(1) by blast
  with p(1) obtain pc p1 where "caller_step (penv src) c (pg_process g) = Some (pc, p1)"
    and p1: "p = p1\<lparr>pr_callers := [pc]\<rparr>"
    by (auto split: option.splits)
  with c have s: "caller_step (penv src) (pg_caller g) (pg_process g) = Some (pc, p1)" by simp
  have not_S24: "pc \<noteq> S24" using s by (cases "pg_caller g") (auto split: if_splits option.splits prod.splits)
  show ?thesis
  proof (cases "pg_caller g = S41")
    case True
    with s have "caller_step (penv src) S41 (pg_process g) = Some (pc, p1)" by simp
    from connect_drains [OF assms(1,2) True this _ assms(3)] p(2) p1 show ?thesis by simp
  next
    case False
    have once: "connected_once g" if "connected_once g'"
    proof -
      have c: "has_connected pc" using that p p1 by (simp add: connected_once_def)
      show ?thesis
      proof (cases "pg_caller g = S24")
        case True
        then have "\<not> svc_running (pg_svc g)" using assms(1) by (simp add: drains_def)
        with s c True show ?thesis by simp
      next
        case S24: False
        with has_connected_step [OF s inv(2) S24 c] False assms(4) show ?thesis by (simp add: connected_once_def)
      qed
    qed
    show ?thesis
    proof (cases "pg_caller g = S31")
      case True
      with s have "\<not> has_connected pc" by (auto split: prod.splits if_splits)
      with p p1 assms(1) not_S24 sched_world(1) [OF p(1)] show ?thesis
        by (simp add: drains_def connected_once_def del: sched.simps)
    next
      case S31: False
      with False once not_S24 p p1 show ?thesis
        by (intro process_drains [OF assms(1,2) p(1) _ _ p(2)]) simp_all
    qed
  qed
qed

end


context draining_network
begin

lemma stop_drains:
  assumes "holds_on src g" and "prog_inv (penv src) someip_inv g" and "prog_inv (penv src) someip_inv g'"
    and "pg_main g = M104_call" and "main_step (penv src) M104_call g = Some g'"
  shows "holds_on src g'"
proof (cases "\<exists>r. pg_caller g = Ready (Some (Stop, r))")
  case True
  with assms(5) have "g' = g\<lparr>pg_main := M105\<rparr>" by auto
  with assms(1,4) show ?thesis by (auto simp: drains_def connected_once_def)
next
  case False
  have "stopping (pg_caller g) (pg_svc g)" using assms(2,4) by (simp add: prog_inv_def)
  with False have pc: "in_stop (pg_caller g)" "\<not> is_ready (pg_caller g)" by (cases "pg_caller g"; auto)+
  with assms(5) obtain p where p: "sched (penv src) (Caller 0) (pg_process g) = Some p"
    "g' = g\<lparr>pg_process := p, pg_main := M104_call\<rparr>"
    by (cases "pg_caller g") (auto simp: in_process_Some)
  have "\<not> in_start (pg_caller g')" using assms(3) p(2) by (auto simp: prog_inv_def elim: in_start.elims)
  then have "pg_caller g' \<noteq> S24" by auto
  moreover have "pg_caller g \<notin> {S31, S41}" using pc(1) by auto
  ultimately show ?thesis
    using assms(4) by (intro process_drains [OF assms(1,2) p(1) _ _ p(2)]) (auto simp: connected_once_def p(2))
qed

lemma destroy_drains:
  assumes "holds_on src g" and "prog_inv (penv src) someip_inv g'" and "pg_main g = Destroying n"
    and "main_step (penv src) (Destroying n) g = Some g'"
  shows "holds_on src g'"
proof (cases "pg_caller g = Destroyed")
  case True
  with assms(1,3,4) show ?thesis by (auto simp: drains_def connected_once_def)
next
  case False
  with assms(4) obtain p where p: "sched (penv src) (Caller 0) (pg_process g) = Some p"
    "g' = g\<lparr>pg_process := p, pg_main := Destroying n\<rparr>"
    by (auto simp: in_process_Some simp del: sched.simps)
  have "wire_inv (\<lambda>_. True) (pg_svc g)" using assms(1) by (simp add: drains_def)
  moreover have "pg_caller g' \<noteq> S24" using assms(2) p(2) by (auto simp: prog_inv_def)
  ultimately show ?thesis using p(2) sched_world(1) [OF p(1)] by (simp add: drains_def connected_once_def)
qed

lemma main_drains:
  assumes "holds_on src g" and "prog_inv (penv src) someip_inv g" and "prog_inv (penv src) someip_inv g'"
    and "main_step (penv src) (pg_main g) g = Some g'"
  shows "holds_on src g'"
proof -
  have inv: "main_inv (pg_main g) g" using assms(2) by (simp add: prog_inv_def)
  show ?thesis
  proof (cases "pg_main g")
    case M96
    with assms(1,4) show ?thesis by (auto simp: drains_def connected_once_def)
  next
    case M98
    then obtain p where p: "sched (penv src) (CallStart 0) (pg_process g) = Some p"
      "g' = g\<lparr>pg_process := p, pg_main := M98_call\<rparr>"
      using assms(4) by (auto simp: in_process_Some)
    with assms(1) M98 show ?thesis by (auto simp: drains_def connected_once_def split: if_splits)
  next
    case M98_call
    show ?thesis
    proof (cases "\<exists>started. pg_caller g = Ready (Some (Start, started))")
      case True
      then obtain b where b: "pg_caller g = Ready (Some (Start, b))" by blast
      with M98_call assms(4) have "g' = g\<lparr>pg_main := (if b then M103 else M99)\<rparr>" by simp
      with b M98_call assms(1) show ?thesis by (auto simp: drains_def connected_once_def)
    next
      case False
      with inv M98_call assms(4) have "in_process (penv src) (Caller 0) M98_call g = Some g'"
        by (cases "pg_caller g" rule: in_start.cases) auto
      from call_drains [OF assms(1-3) M98_call this] show ?thesis .
    qed
  next
    case M103
    with assms(4) have "g' = g\<lparr>pg_process := on_svc (svc_sleep (penv src) kDemoRunDurationSec) (pg_process g), pg_main := M104\<rparr>"
      by simp
    with M103 assms(1) closing.sleep_keeps offering.sleep_keeps show ?thesis
      by (auto simp: drains_def connected_once_def svc_sleep_def wire_inv_def)
  next
    case M104
    then obtain p where p: "sched (penv src) (CallStop 0) (pg_process g) = Some p"
      "g' = g\<lparr>pg_process := p, pg_main := M104_call\<rparr>"
      using assms(4) by (auto simp: in_process_Some)
    with assms(1) M104 show ?thesis by (auto simp: drains_def connected_once_def split: if_splits)
  next
    case M104_call
    with stop_drains [OF assms(1-3) M104_call] assms(4) show ?thesis by simp
  next
    case (Destroying n)
    with destroy_drains [OF assms(1,3) Destroying] assms(4) show ?thesis by simp
  qed (use assms in \<open>auto simp: drains_def connected_once_def in_process_Some split: if_splits\<close>)
qed

lemma program_drains_step:
  assumes "holds_on src g" and "prog_inv (penv src) someip_inv g" and "prog_inv (penv src) someip_inv g'"
    and "prog_sched (penv src) V port a g = Some g'"
  shows "holds_on src g'"
proof (cases a)
  case Main
  with main_drains [OF assms(1-3)] assms(4) show ?thesis by simp
next
  case Listener
  with assms(4) obtain pc pc' out w where l: "pg_listener g = Some pc"
    "listener_step V port pc (svc_world (pg_svc g)) = Some (pc', out, w)"
    "g' = g\<lparr>pg_process := on_svc (\<lambda>s. s\<lparr>svc_world := w\<rparr>) (pg_process g), pg_listener := Some pc',
      pg_cloud := pg_cloud g @ out\<rparr>"
    by (auto split: option.splits if_splits)
  have "pg_main g' = pg_main g" "pg_caller g' = pg_caller g" "connected_once g' = connected_once g"
    "pg_svc g' = (pg_svc g)\<lparr>svc_world := w\<rparr>" "pg_listener g' = Some pc'"
    using l(3) by (simp_all add: connected_once_def)
  moreover have "offered (svc_world (pg_svc g)) \<or> accepted pc" "svc_online (penv src) (pg_svc g) \<or> closed (svc_world (pg_svc g))"
    if "connected_once g"
    using that assms(1) l(1) by (auto simp: drains_def)
  moreover have "wire_inv (\<lambda>_. True) (pg_svc g)"
    "pg_main g \<in> {M96, M98} \<or> pg_caller g = S24 \<longrightarrow> \<not> svc_running (pg_svc g)"
    using assms(1) by (simp_all add: drains_def)
  ultimately show ?thesis
    using listener_closes [OF l(2)] listener_offers [OF l(2)] wire_inv_world [of "\<lambda>_. True" "pg_svc g" w]
    by (simp add: drains_def) blast
next
  case (Service i)
  with assms(4) obtain p where p: "sched (penv src) (Worker i) (pg_process g) = Some p"
    "g' = g\<lparr>pg_process := p, pg_main := pg_main g\<rparr>"
    by (auto simp: in_process_Some simp del: sched.simps split: if_splits)
  have c: "pr_callers p = pr_callers (pg_process g)" "svc_running (pr_svc p) = svc_running (pg_svc g)"
    using p(1) worker_step_running [OF p(1)] by (auto split: if_splits prod.splits)
  with assms(1) p(2) show ?thesis
    by (intro process_drains [OF assms(1,2) p(1) _ _ p(2)]) (auto simp: connected_once_def drains_def)
qed

lemma program_drains:
  assumes "main_init now io w = Some s" and "prog_reach (penv src) V port (program_start s) g"
  shows "holds_on src g"
  using assms(2)
proof (induction rule: prog_reach.induct)
  case prog_refl
  have "wire_inv (\<lambda>_. True) s"
    using any_world.wire_start [OF assms(1) TrueI] by (simp add: wire_prog_inv_def program_start_def launch_def)
  moreover have "\<not> svc_running s"
    using assms(1) by (auto simp: main_init_def ConnectivityService_new_def split: option.splits prod.splits)
  ultimately show ?case by (simp add: drains_def program_start_def connected_once_def launch_def)
next
  case (prog_step g a g')
  have init: "main_init (env_now (penv src)) io w = Some s" using assms(1) by simp
  have ops: "env_ops (penv src) = someip_client_ops S" by simp
  from program_drains_step [OF prog_step.IH program_reach_inv [OF init ops prog_step.hyps(1)]
      program_reach_inv [OF init ops prog_reach.prog_step [OF prog_step.hyps]] prog_step.hyps(2)]
  show ?case .
qed

text \<open>In line 105 the service has closed its connection, so the listener does not wait.\<close>

lemma listener_returns:
  assumes "holds_on src g" and "prog_inv (penv src) someip_inv g" and "pg_main g = M105" and "pg_listener g = Some pc"
  shows "\<not> listener_waits V pc (svc_world (pg_svc g))"
proof -
  have "pg_caller g = Ready (Some (Stop, True))" using assms(2,3) by (simp add: prog_inv_def)
  moreover have "caller_inv (penv src) (pg_caller g) (pg_process g)" using assms(2) by (simp only: prog_inv_def)
  ultimately have "caller_inv (penv src) (Ready (Some (Stop, True))) (pg_process g)" by simp
  then have "\<not> svc_online (penv src) (pg_svc g)" by (auto split: if_splits)
  with assms(1,3,4) have "closed (svc_world (pg_svc g))" "offered (svc_world (pg_svc g)) \<or> accepted pc"
    by (auto simp: drains_def connected_once_def)
  with accept_ready recv_ready show ?thesis by (cases pc) auto
qed

end

section \<open>The program ends\<close>

text \<open>C22: Over a network that does its part the sample program always ends: in an infinite run under a
  scheduler that is fair to \<open>main\<close>, the listener and the worker, whatever the clocks, the order of the
  steps and the fate of the connection, the process comes to its end and nothing happens afterwards:
  either a signal has ended it, or \<open>main\<close> has, with status 0 or by terminate. In particular the
  listener is not left waiting in \<open>accept\<close> for a connection or in \<open>recv\<close> for data when \<open>main\<close> joins it.\<close>

theorem fair_program_terminates:
  assumes "draining_network S V now lt sl closed offered" and "main_init now io w = Some s"
    and "fair_run UNIV (prog_sched (program_env S now lt sl src) V port) act g" and "g 0 = program_start s"
  shows "\<exists>n. (sv_killed V (pg_world (g n)) \<or> pg_main (g n) = MEnd (Exit 0) \<or> pg_main (g n) = MEnd Terminate) \<and>
    (\<forall>m\<ge>n. g m = g n)"
proof -
  let ?E = "program_env S now lt sl src"
  have run: "run_of (prog_sched ?E V port) act g" using assms(3) by (simp add: fair_run_def)
  have reach: "prog_reach ?E V port (program_start s) (g i)" for i
  proof (rule run_keeps [OF run _ le0])
    show "prog_reach ?E V port (program_start s) (g 0)" using assms(4) by (simp add: prog_refl)
  qed (rule prog_step)
  have init: "main_init (env_now ?E) io w = Some s" using assms(2) by simp
  have inv: "prog_inv ?E someip_inv (g i)" for i
    by (rule program_reach_inv [OF init _ reach]) simp
  have "\<exists>n. pg_ended (g n) \<or> pg_killed V (g n)"
  proof (rule ccontr)
    assume "\<not> ?thesis"
    then obtain n pc where n: "pg_main (g n) = M105" "pg_listener (g n) = Some pc"
      "listener_waits V pc (svc_world (pg_svc (g n)))"
      using comes_to_rest [OF assms(3) inv] by blast
    from draining_network.program_drains [OF assms(1,2) reach]
    have "drains closed offered ?E (g n)" .
    from draining_network.listener_returns [OF assms(1) this inv n(1,2)] n(3) show False by simp
  qed
  then obtain n where n: "pg_ended (g n) \<or> pg_killed V (g n)" by blast
  then have "prog_sched ?E V port a (g n) = None" for a using ended_stuck killed_stuck by blast
  from run_stuck [OF run this] have "g m = g n" if "n \<le> m" for m using that .
  moreover have "sv_killed V (pg_world (g n)) \<or> pg_main (g n) = MEnd (Exit 0) \<or> pg_main (g n) = MEnd Terminate"
    using n inv [of n]
    by (auto simp: pg_killed_def pg_ended_def prog_inv_def split: main_pc.splits exit_status.splits)
  ultimately show ?thesis by blast
qed

text \<open>The loop-back network does its part.\<close>

interpretation loop_drains: draining_network loop_sockets loop_server "\<lambda>w. (0, w)" demo_wall "\<lambda>n w. w"
  lb_closed lb_pending
  by unfold_locales (auto simp: loop_sockets_def loop_server_def demo_wall_def Let_def split: if_splits peer.splits)

theorem fair_program_terminates_witness:
  "\<exists>s act g n. main_init (env_now loop_env) demo_io quiet_net = Some s \<and> g 0 = program_start s \<and>
     fair_run UNIV (prog_sched loop_env loop_server kDemoSomeipPort) act g \<and>
     (sv_killed loop_server (pg_world (g n)) \<or> pg_main (g n) = MEnd (Exit 0) \<or> pg_main (g n) = MEnd Terminate)"
proof -
  obtain lg io1 where "Logger_new kDemoLogPath demo_io = Some (lg, io1)" using demo_log_path by blast
  from loop_init [OF this] obtain s where s: "main_init (env_now loop_env) demo_io quiet_net = Some s"
    by blast
  let ?act = "recurring turn []"
  let ?g = "states_of (prog_sched loop_env loop_server kDemoSomeipPort) ?act (program_start s)"
  have fair: "fair_run UNIV (prog_sched loop_env loop_server kDemoSomeipPort) ?act ?g"
    by (rule fair_run_exists) (rule turn_all)
  have g0: "?g 0 = program_start s" by simp
  have s': "main_init (\<lambda>w. (0, w)) demo_io quiet_net = Some s" using s by (simp add: loop_env_def)
  from fair_program_terminates [OF loop_drains.draining_network_axioms s' fair [unfolded loop_program_env]
      g0 [unfolded loop_program_env]] s fair g0
  show ?thesis unfolding loop_program_env by blast
qed

end
