(* ===== verification/Broken_Pipe.thy ===== *)
theory Broken_Pipe
  imports Wire
begin

text \<open>
  The TCP client on a broken connection (\<open>src/SomeipClient/someip_client.cpp\<close>, line 93). \<open>send\<close> is called
  with the flags 0, without \<open>MSG_NOSIGNAL\<close>, and the program installs no handler, so a write to a
  connection that the peer has reset raises \<open>SIGPIPE\<close>, which ends the process. What \<open>send\<close> does on such a
  connection is the contract \<open>broken_pipe\<close>; the loop-back network meets it.
\<close>

section \<open>The contract of \<open>send\<close>\<close>

text \<open>On a connection that is broken for good, \<open>send\<close> fails, and unless its flags forbid the signal the
  process is killed. Reading the clock neither mends a connection nor saves the process.\<close>

locale broken_pipe =
  fixes S :: "'w socket_ops" and lt :: "'w wall_clock"
    and broken :: "int \<Rightarrow> 'w \<Rightarrow> bool" and killed :: "'w \<Rightarrow> bool"
  assumes broken_send: "broken fd w \<Longrightarrow> bs \<noteq> [] \<Longrightarrow> sk_send S fd bs flags w = (n, w') \<Longrightarrow>
      n = -1 \<and> (killed w' \<longleftrightarrow> killed w \<or> \<not> no_signal flags)"
    and broken_time: "broken fd w \<Longrightarrow> broken fd (snd (lt w))"
begin

lemma broken_sample:
  "broken fd w \<Longrightarrow> broken fd (snd (generateSample lt t w))"
  by (simp add: generateSample_def currentTimestamp_def case_prod_unfold broken_time)

lemma broken_publish:
  assumes "broken (sc_socket_fd c) w" and "SomeipClient_isConnected c"
  shows "\<exists>w'. SomeipClient_publish S topic payload q c w = (False, c, w') \<and> killed w'"
proof -
  let ?f = "someip_frame (sk_big_endian S) (sc_config c) payload"
  obtain n w' where n: "sk_send S (sc_socket_fd c) ?f 0 w = (n, w')" by fastforce
  have "length ?f \<noteq> 0" by simp
  then have "?f \<noteq> []" by (metis list.size(3))
  from broken_send [OF assms(1) this n] assms(2) n show ?thesis
    by (simp add: SomeipClient_publish_def SomeipClient_isConnected_def Let_def)
qed

end

section \<open>A publication on a broken connection\<close>

lemma broken_telemetry:
  assumes "broken_pipe S lt broken killed" and "svc_mqtt s = Some a" and "svc_telemetry s = Some t"
    and "tl_client t = Some a" and "SomeipClient_isConnected (svc_heap s a)"
    and "broken (sc_socket_fd (svc_heap s a)) (svc_world s)"
  shows "\<exists>s'. publishTelemetry (program_env S now lt sl src) s = (True, s') \<and> killed (svc_world s')"
proof -
  obtain sample w1 where g: "generateSample lt t (svc_world s) = (sample, w1)" by fastforce
  have "broken (sc_socket_fd (svc_heap s a)) w1"
    using broken_pipe.broken_sample [OF assms(1,6), of t] g by simp
  from broken_pipe.broken_publish [OF assms(1) this assms(5),
      of "telemetry_topic (sc_mqtt_config (svc_heap s a))" "TelemetryManager_serialize t sample" 1]
  obtain w2 where "SomeipClient_publish S (telemetry_topic (sc_mqtt_config (svc_heap s a)))
      (TelemetryManager_serialize t sample) 1 (svc_heap s a) w1 = (False, svc_heap s a, w2)" "killed w2" by blast
  then show ?thesis
    using assms(2-5) g
    by (simp add: publishTelemetry_def publishSample_def queueMessage_def Let_def)
qed

text \<open>C30: A publication on a broken connection kills the sample program. Over any sockets whose \<open>send\<close>
  behaves as documented on a broken connection, when a worker executes line 113 while the descriptor of
  the client is broken, and the client, which cannot notice that, still counts itself connected, that
  step has the process killed by \<open>SIGPIPE\<close>: \<open>main\<close> has not ended, and no thread makes another step, so
  neither the queue nor the reconnection of the loop nor \<open>stop\<close> gets its turn.\<close>

theorem broken_connection_kills:
  assumes "broken_pipe S lt broken (sv_killed V)" and "\<not> pg_killed V g" and "\<not> pg_ended g"
    and "i < length (pr_threads (pg_process g))" and "fst (pr_threads (pg_process g) ! i) = L113"
    and "svc_mqtt (pg_svc g) = Some a" and "svc_telemetry (pg_svc g) = Some t" and "tl_client t = Some a"
    and "SomeipClient_isConnected (svc_heap (pg_svc g) a)"
    and "broken (sc_socket_fd (svc_heap (pg_svc g) a)) (pg_world g)"
  shows "svc_online (program_env S now lt sl src) (pg_svc g) \<and>
    (\<exists>g'. prog_sched (program_env S now lt sl src) V port (Service i) g = Some g' \<and>
       pg_killed V g' \<and> \<not> pg_ended g' \<and> (\<forall>b. prog_sched (program_env S now lt sl src) V port b g' = None))"
proof -
  from broken_telemetry [OF assms(1,6-10)] obtain s' where
    "publishTelemetry (program_env S now lt sl src) (pg_svc g) = (True, s')" "sv_killed V (svc_world s')" by blast
  then obtain g' where "prog_sched (program_env S now lt sl src) V port (Service i) g = Some g'"
    "pg_killed V g'" "pg_main g' = pg_main g"
    using assms(2-5) by (simp add: in_process_def finished_def pg_killed_def)
  with assms(3,6,9) show ?thesis
    by (auto simp: svc_online_def killed_stuck pg_ended_def simp del: prog_sched.simps)
qed

section \<open>The loop-back network breaks\<close>

interpretation loop_pipe: broken_pipe loop_sockets demo_wall
  "\<lambda>fd w. lb_peer w = Reset \<or> lb_peer w = Signalled" "\<lambda>w. lb_peer w = Signalled"
  by unfold_locales (auto simp: loop_sockets_def demo_wall_def split: if_splits)

text \<open>How the peer of the loop-back network moves on by one \<open>send\<close>.\<close>

fun after_send :: "peer \<Rightarrow> peer" where
  "after_send Present = Present"
| "after_send Gone = Reset"
| "after_send Reset = Signalled"
| "after_send Signalled = Signalled"

lemma loop_send:
  assumes "in_service s"
  shows "\<exists>s'. publishTelemetry loop_env s = (True, s') \<and> in_service s' \<and>
    lb_peer (svc_world s') = after_send (lb_peer (svc_world s))"
proof -
  obtain t where t: "svc_telemetry s = Some t" "tl_client t = Some 0"
    using assms by (auto simp: in_service_def)
  let ?c = "svc_heap s 0"
  have c: "?c = (SomeipClient_new demo_someip_config)\<lparr>sc_socket_fd := 3, sc_connected := True\<rparr>"
    using assms by (simp add: in_service_def)
  obtain sample where g: "generateSample (env_local_time loop_env) t (svc_world s) = (sample, svc_world s)"
    by (simp add: generateSample_def currentTimestamp_def loop_env_def demo_wall_def)
  have "\<exists>r w2. SomeipClient_publish loop_sockets topic payload 1 ?c (svc_world s) = (r, ?c, w2) \<and>
      lb_peer w2 = after_send (lb_peer (svc_world s))" for topic payload
    using c by (cases "lb_peer (svc_world s)") (auto simp: SomeipClient_publish_def loop_sockets_def Let_def)
  from this [of "telemetry_topic (sc_mqtt_config ?c)" "TelemetryManager_serialize t sample"] obtain r w2 where
    p: "SomeipClient_publish loop_sockets (telemetry_topic (sc_mqtt_config ?c)) (TelemetryManager_serialize t sample) 1
      ?c (svc_world s) = (r, ?c, w2)" "lb_peer w2 = after_send (lb_peer (svc_world s))" by blast
  have on: "SomeipClient_isConnected ?c" using c by (simp add: SomeipClient_isConnected_def)
  show ?thesis
    using t g p on assms
    by (cases r) (auto simp: publishTelemetry_def publishSample_def queueMessage_def in_service_def Let_def)
qed

theorem broken_connection_kills_witness:
  "\<exists>g g'. \<not> pg_killed loop_server g \<and>
     prog_sched (program_env loop_sockets (\<lambda>w. (0, w)) demo_wall (\<lambda>n w. w) ''s.cpp'') loop_server kDemoSomeipPort
       (Service 0) g = Some g' \<and> pg_killed loop_server g' \<and> \<not> pg_ended g'"
proof -
  let ?t = "TelemetryManager_new kDefaultEcuClientId (Some 0)"
  define s :: "(SomeipClient, loopback) service" where "s = ConnectivityService_new
      (Some (loop_auth\<lparr>ac_token := ''jwt-demo-token'', ac_expires_at := 3600000000000\<rparr>)) (Some 0) (Some ?t)
      \<lparr>log_path = ''l''\<rparr> (\<lambda>_. (SomeipClient_new demo_someip_config)\<lparr>sc_socket_fd := 3, sc_connected := True\<rparr>)
      demo_io (quiet_net\<lparr>lb_peer := Reset\<rparr>)"
  define g where "g = \<lparr>pg_process = \<lparr>pr_svc = s, pr_worker = Some 0, pr_threads = [(L113, False)],
       pr_callers = [Ready (Some (Start, True))]\<rparr>, pg_main = M103, pg_listener = Some NDone, pg_joinable = True,
     pg_cloud = [], pg_stderr = []\<rparr>"
  have g: "\<not> pg_killed loop_server g" "\<not> pg_ended g" "0 < length (pr_threads (pg_process g))"
    "fst (pr_threads (pg_process g) ! 0) = L113" "svc_mqtt (pg_svc g) = Some 0" "svc_telemetry (pg_svc g) = Some ?t"
    "tl_client ?t = Some 0" "SomeipClient_isConnected (svc_heap (pg_svc g) 0)"
    "lb_peer (pg_world g) = Reset \<or> lb_peer (pg_world g) = Signalled"
    by (simp_all add: g_def s_def pg_killed_def pg_ended_def loop_server_def ConnectivityService_new_def
        TelemetryManager_new_def SomeipClient_isConnected_def)
  have "broken_pipe loop_sockets demo_wall (\<lambda>fd w. lb_peer w = Reset \<or> lb_peer w = Signalled) (sv_killed loop_server)"
    using loop_pipe.broken_pipe_axioms by (simp add: loop_server_def)
  from broken_connection_kills [OF this g, of "\<lambda>w. (0, w)" "\<lambda>n w. w" "''s.cpp''" kDemoSomeipPort] g(1)
  show ?thesis by blast
qed

end
