(* ===== verification/Program_Signals.thy ===== *)
theory Program_Signals
  imports Broken_Pipe
begin

text \<open>
  The signal \<open>SIGPIPE\<close> in the sample program (\<open>src/main.cpp\<close>): which step of the program can have it
  killed. The locale \<open>calm_calls\<close> is the contract of a relation between worlds that every call of the
  client but \<open>send\<close>, the clocks and sleep keep, and \<open>calm_network\<close> adds the calls of the listener; one
  interpretation follows the signal, another the frames sent.
\<close>

section \<open>Everything but publishing\<close>

locale calm_calls =
  fixes S :: "'w socket_ops" and now :: "'w clock" and lt :: "'w wall_clock" and sl :: "int \<Rightarrow> 'w \<Rightarrow> 'w"
    and R :: "'w \<Rightarrow> 'w \<Rightarrow> bool"
  assumes calm_refl: "R w w"
    and calm_trans: "R w w1 \<Longrightarrow> R w1 w2 \<Longrightarrow> R w w2"
    and calm_now: "R w (snd (now w))"
    and calm_time: "R w (snd (lt w))"
    and calm_sleep: "R w (sl secs w)"
    and calm_socket: "R w (snd (sk_socket S w))"
    and calm_connect: "R w (snd (sk_connect S fd a w))"
    and calm_close: "R w (sk_close S fd w)"
begin

abbreviation calm_env :: "string \<Rightarrow> (SomeipClient, 'w) env" where
  "calm_env src \<equiv> program_env S now lt sl src"

abbreviation calm :: "(SomeipClient, 'w) service \<Rightarrow> (SomeipClient, 'w) service \<Rightarrow> bool" where
  "calm s s' \<equiv> R (svc_world s) (svc_world s')"

lemma calm_client_connect: "R w (snd (snd (SomeipClient_connect S c w)))"
proof -
  obtain fd w1 where s: "sk_socket S w = (fd, w1)" by (cases "sk_socket S w")
  have 1: "R w w1" using calm_socket [of w] s by simp
  have 2: "R w (snd (sk_connect S fd a w1))" for a using calm_trans [OF 1 calm_connect] .
  from 1 2 s show ?thesis
    by (simp add: SomeipClient_connect_def Let_def case_prod_unfold calm_refl calm_trans [OF 1 calm_close]
        calm_trans [OF 2 calm_close])
qed

lemma calm_client_disconnect: "R w (snd (snd (SomeipClient_disconnect S c w)))"
  by (simp add: SomeipClient_disconnect_def Let_def calm_refl calm_close)

lemma calm_client_reconnect: "R w (snd (snd (SomeipClient_reconnect S c w)))"
  by (simp add: SomeipClient_reconnect_def case_prod_unfold
      calm_trans [OF calm_client_disconnect calm_client_connect])

lemma calm_say: "calm s (svc_say (calm_env src) lv m l s)"
  by (simp add: svc_say_def case_prod_unfold calm_time)

lemma calm_svc_sleep: "calm s (svc_sleep (calm_env src) n s)"
  by (simp add: svc_sleep_def calm_sleep)

lemma calm_on_client:
  assumes "\<And>c w. R w (snd (snd (f c w)))"
  shows "calm s (snd (svc_on_client f s))"
  using assms by (simp add: svc_on_client_def case_prod_unfold calm_refl split: option.split)

lemma calm_links:
  "calm s (snd (svc_connect (calm_env src) s))" "calm s (snd (svc_reconnect (calm_env src) s))"
  "calm s (svc_disconnect (calm_env src) s)"
  by (simp_all add: svc_connect_def svc_reconnect_def svc_disconnect_def calm_on_client
      calm_client_connect calm_client_reconnect calm_client_disconnect)

lemma calm_login:
  "ac_backend ac = Some DemoAuthBackend \<Longrightarrow> R w (snd (snd (AuthClient_authenticate now ac w)))"
  by (simp add: AuthClient_authenticate_def DemoAuthBackend_def case_prod_unfold calm_refl calm_now)

lemma calm_tokens:
  assumes "wire_inv (\<lambda>_. True) s"
  shows "calm s (snd (svc_authenticate (calm_env src) s))" and "calm s (snd (svc_refresh (calm_env src) s))"
    and "calm s (snd (svc_needs_token (calm_env src) s))"
proof -
  have b: "ac_backend ac = Some DemoAuthBackend" if "svc_auth s = Some ac" for ac
    using assms that by (simp add: wire_inv_def)
  show "calm s (snd (svc_authenticate (calm_env src) s))" "calm s (snd (svc_refresh (calm_env src) s))"
    using b calm_login
    by (simp_all add: svc_authenticate_def svc_refresh_def AuthClient_refreshToken_def case_prod_unfold calm_refl
        split: option.split)
  show "calm s (snd (svc_needs_token (calm_env src) s))"
    by (simp add: svc_needs_token_def AuthClient_isTokenValid_def case_prod_unfold calm_refl calm_now split: option.split)
qed

lemmas calm_ops = calm_refl calm_say calm_svc_sleep calm_links calm_tokens

text \<open>A step of the worker that is not a publication, and every step of a caller.\<close>

lemma calm_loop_step:
  "wire_inv (\<lambda>_. True) s \<Longrightarrow> pc \<noteq> L113 \<Longrightarrow> calm s (snd (loop_step (calm_env src) stop pc s))"
  by (cases pc) (simp_all add: case_prod_unfold calm_ops)

lemma calm_caller_step:
  assumes "wire_inv (\<lambda>_. True) (pr_svc p)" and "caller_step (calm_env src) pc p = Some (pc', p')"
  shows "calm (pr_svc p) (pr_svc p')"
  using assms(2) calm_tokens [OF assms(1), of src] calm_links [of "pr_svc p" src]
  by (cases pc) (auto simp: case_prod_unfold calm_refl calm_say on_svc_def request_stop_def split: option.splits if_splits)

end

section \<open>Steps of the program\<close>

text \<open>The worker is about to execute line 113.\<close>

definition publishing :: "nat \<Rightarrow> ('c, 'w) program \<Rightarrow> bool" where
  "publishing i g \<longleftrightarrow> i < length (pr_threads (pg_process g)) \<and> fst (pr_threads (pg_process g) ! i) = L113"

text \<open>No assumption on the calls of the environment: the program keeps what is its own.\<close>

interpretation any: guarded_world S V now lt sl "\<lambda>_ _. True" "\<lambda>_ _. True"
  by unfold_locales auto

definition own_inv :: "u16 \<Rightarrow> (SomeipClient, 'w) program \<Rightarrow> bool" where
  "own_inv port g \<longleftrightarrow> wire_prog_inv (\<lambda>_ _. True) (\<lambda>_ _. True) port g"

lemma own_inv_svc: "own_inv port g \<Longrightarrow> wire_inv (\<lambda>_. True) (pg_svc g)"
  by (simp add: own_inv_def wire_prog_inv_def)

lemma own_inv_step:
  fixes V :: "'w blocking_server"
  shows "own_inv port g \<Longrightarrow> prog_sched (program_env S now lt sl src) V port a g = Some g' \<Longrightarrow> own_inv port g'"
  unfolding own_inv_def by (rule any.wire_prog_step)

lemma own_inv_start: "main_init now io w = Some s \<Longrightarrow> own_inv port (program_start s)"
  unfolding own_inv_def by (rule any.wire_start) simp_all

text \<open>A publication is a call of \<open>publishTelemetry\<close> in its thread.\<close>

lemma publishing_step:
  assumes "publishing i g" and "prog_sched E V port (Service i) g = Some g'"
  shows "pg_svc g' = snd (publishTelemetry E (pg_svc g)) \<and> pg_listener g' = pg_listener g \<and>
    \<not> pg_ended g' \<and> i < length (pr_threads (pg_process g')) \<and> \<not> finished i (pg_process g')"
  using assms
  by (auto simp: publishing_def in_process_Some case_prod_unfold finished_def pg_ended_def split: if_splits)

context calm_calls
begin

lemma calm_worker:
  assumes "wire_inv (\<lambda>_. True) (pr_svc p)" and "sched (calm_env src) (Worker i) p = Some p'"
    and "fst (pr_threads p ! i) \<noteq> L113"
  shows "calm (pr_svc p) (pr_svc p')"
proof -
  have "pr_svc p' = snd (loop_step (calm_env src) (snd (pr_threads p ! i)) (fst (pr_threads p ! i)) (pr_svc p))"
    using assms(2) by (auto simp: case_prod_unfold split: if_splits)
  with calm_loop_step [OF assms(1,3)] show ?thesis by simp
qed

lemma calm_calls_of_main:
  assumes "wire_inv (\<lambda>_. True) (pr_svc p)" and "sched (calm_env src) ch p = Some p'"
    and "ch \<in> {CallStart 0, CallStop 0, CallDestroy 0, Caller 0}"
  shows "calm (pr_svc p) (pr_svc p')"
  using assms(3)
proof (elim insertE emptyE)
  assume "ch = Caller 0"
  with assms(2) obtain pc q where "caller_step (calm_env src) (pr_callers p ! 0) p = Some (pc, q)"
    "pr_svc p' = pr_svc q"
    by (auto split: option.splits if_splits)
  with calm_caller_step [OF assms(1)] show ?thesis by simp
qed (use assms(2) in \<open>auto simp: calm_refl split: if_splits\<close>)

lemma calm_main:
  assumes "wire_inv (\<lambda>_. True) (pg_svc g)" and "main_step (calm_env src) pc g = Some g'"
  shows "R (pg_world g) (pg_world g')"
  using assms(2)
proof (cases rule: main_step_cases)
  case create
  then show ?thesis by (simp add: calm_refl)
next
  case local
  then show ?thesis by (simp add: calm_refl)
next
  case (sleep n)
  then show ?thesis by (simp add: on_svc_def calm_svc_sleep)
next
  case (call ch m)
  then obtain p where "sched (calm_env src) ch (pg_process g) = Some p" "pg_process g' = p"
    by (auto simp: in_process_Some)
  with calm_calls_of_main [OF assms(1) _ call(3)] show ?thesis by simp
qed

text \<open>What a step of the program does to the world: a step of the listener, a publication, or nothing
  that the relation does not allow.\<close>

lemma calm_program:
  assumes "own_inv port g" and "prog_sched (calm_env src) V port a g = Some g'"
  obtains (listener) "a = Listener" | (publish) i where "a = Service i" "publishing i g"
  | (calm) "R (pg_world g) (pg_world g')"
      "pg_listener g' = pg_listener g \<or> pg_listener g = None \<and> pg_listener g' = Some N46"
proof (cases a)
  case Main
  with assms(2) have m: "main_step (calm_env src) (pg_main g) g = Some g'" by simp
  then have "pg_listener g' = pg_listener g \<or> pg_listener g = None \<and> pg_listener g' = Some N46"
    using assms(1)
    by (cases rule: main_step_cases) (auto simp: in_process_Some own_inv_def wire_prog_inv_def)
  with Main calm_main [OF own_inv_svc [OF assms(1)] m] calm show ?thesis by blast
next
  case Listener
  then show ?thesis by (rule listener)
next
  case (Service i)
  with assms(2) obtain p where p: "sched (calm_env src) (Worker i) (pg_process g) = Some p"
    "pg_process g' = p" "pg_listener g' = pg_listener g" and n: "i < length (pr_threads (pg_process g))"
    by (auto simp: in_process_Some split: if_splits)
  show ?thesis
  proof (cases "publishing i g")
    case True
    with Service show ?thesis by (rule publish)
  next
    case False
    with n have "fst (pr_threads (pg_process g) ! i) \<noteq> L113" by (simp add: publishing_def)
    from calm_worker [OF own_inv_svc [OF assms(1)] p(1) this] p Service calm show ?thesis by simp
  qed
qed

end

section \<open>What kills the program\<close>

text \<open>With the calls of the listener, none of which is a \<open>send\<close> either.\<close>

locale calm_network = calm_calls S now lt sl R
  for S :: "'w socket_ops" and now :: "'w clock" and lt :: "'w wall_clock" and sl :: "int \<Rightarrow> 'w \<Rightarrow> 'w"
    and R :: "'w \<Rightarrow> 'w \<Rightarrow> bool" +
  fixes V :: "'w blocking_server"
  assumes calm_server_socket: "R w (snd (sv_socket V w))"
    and calm_bind: "R w (snd (sv_bind V fd a w))"
    and calm_listen: "R w (snd (sv_listen V fd n w))"
    and calm_accept: "R w (snd (sv_accept V fd w))"
    and calm_recv: "R w (snd (sv_recv V fd k w))"
    and calm_server_close: "R w (sv_close V fd w)"
begin

lemma calm_listener_step:
  assumes "listener_step V port pc w = Some (pc', out, w')"
  shows "R w w'"
  using assms calm_server_socket [of w] calm_refl [of w] calm_server_close [of w]
  by (cases pc)
    (auto simp: case_prod_unfold calm_bind calm_listen calm_accept calm_recv split: if_splits)

lemma calm_listener:
  assumes "prog_sched E V port Listener g = Some g'"
  shows "R (pg_world g) (pg_world g')"
  using assms by (auto simp: on_svc_def split: option.splits if_splits dest: calm_listener_step)

lemma calm_or_publishes:
  assumes "own_inv port g" and "prog_sched (calm_env src) V port a g = Some g'" and "\<not> R (pg_world g) (pg_world g')"
  obtains i where "a = Service i" "publishing i g"
  using calm_program [OF assms(1,2)] calm_listener assms(2,3) that by metis

end

lemma run_actors_append:
  "run_actors E V port (as @ bs) g =
     (case run_actors E V port as g of None \<Rightarrow> None | Some g' \<Rightarrow> run_actors E V port bs g')"
  by (induction as arbitrary: g) (auto split: option.split)

lemma run_actors_snoc:
  assumes "run_actors E V port (as @ [a]) g = Some g2"
  obtains g1 where "run_actors E V port as g = Some g1" "prog_sched E V port a g1 = Some g2"
  using assms by (auto simp: run_actors_append split: option.splits)

lemma own_inv_run:
  assumes "own_inv port g" and "run_actors (program_env S now lt sl src) (V :: 'w blocking_server) port as g = Some g'"
  shows "own_inv port g'"
  using assms
proof (induction as arbitrary: g)
  case (Cons a as)
  then show ?case by (auto split: option.splits intro: own_inv_step)
qed simp

text \<open>C31: Only a publication of the worker can have the sample program killed by a signal, and then before
  its end: over any sockets on which no call but the client's \<open>send\<close> raises a signal, for any clocks and
  interleaving, if the process of a run has been killed, then the last step of the run is the execution
  of line 113 by a worker; \<open>main\<close> has not ended, so the program ends neither with 0 nor by terminate,
  and the worker is left in its loop.\<close>

theorem killed_in_publication:
  assumes "calm_network S now lt sl (\<lambda>w w'. sv_killed V w' \<longrightarrow> sv_killed V w) V" and "\<not> sv_killed V w"
    and "main_init now io w = Some s"
    and "run_actors (program_env S now lt sl src) V port as (program_start s) = Some g"
    and "sv_killed V (pg_world g)"
  shows "\<exists>as1 i g1. as = as1 @ [Service i] \<and>
    run_actors (program_env S now lt sl src) V port as1 (program_start s) = Some g1 \<and>
    publishing i g1 \<and> \<not> sv_killed V (pg_world g1) \<and>
    \<not> pg_ended g \<and> i < length (pr_threads (pg_process g)) \<and> \<not> finished i (pg_process g)"
proof (cases as rule: rev_cases)
  case Nil
  have "svc_world s = snd (now w)"
    using assms(3) by (auto simp: main_init_def AuthClient_new_def ConnectivityService_new_def
        split: option.splits prod.splits)
  moreover have "sv_killed V (snd (now w)) \<longrightarrow> sv_killed V w"
    by (rule calm_calls.calm_now [OF calm_network.axioms(1) [OF assms(1)]])
  ultimately show ?thesis using Nil assms(2,4,5) by (auto simp: program_start_def launch_def)
next
  case (snoc as1 a)
  from assms(4) [unfolded snoc] obtain g1 where
    g1: "run_actors (program_env S now lt sl src) V port as1 (program_start s) = Some g1"
    and step: "prog_sched (program_env S now lt sl src) V port a g1 = Some g" by (rule run_actors_snoc)
  have alive: "\<not> sv_killed V (pg_world g1)" using prog_sched_alive [OF step] by (simp add: pg_killed_def)
  have own: "own_inv port g1" by (rule own_inv_run [OF own_inv_start [OF assms(3)] g1])
  obtain i where i: "a = Service i" "publishing i g1"
    using calm_network.calm_or_publishes [OF assms(1) own step] alive assms(5) by blast
  from publishing_step [OF i(2) step [unfolded i(1)]] snoc i g1 alive show ?thesis by blast
qed

section \<open>A run that is killed\<close>

text \<open>The loop-back network raises the signal in \<open>send\<close> alone.\<close>

interpretation loop_calm: calm_network loop_sockets "\<lambda>w. (0, w)" demo_wall "\<lambda>n w. w"
  "\<lambda>w w'. sv_killed loop_server w' \<longrightarrow> sv_killed loop_server w" loop_server
  by unfold_locales (auto simp: loop_sockets_def loop_server_def demo_wall_def Let_def)

text \<open>A worker in its loop, asleep; one lap with a publication.\<close>

definition asleep :: "(SomeipClient, loopback) program \<Rightarrow> peer \<Rightarrow> bool" where
  "asleep g p \<longleftrightarrow> pr_threads (pg_process g) = [(L117, False)] \<and> \<not> pg_ended g \<and> in_service (pg_svc g) \<and>
     lb_peer (pg_world g) = p"

lemma loop_ready:
  assumes "in_service s"
  shows "svc_needs_token loop_env s = (False, s)" and "svc_online loop_env s"
  using assms
  by (simp_all add: in_service_def svc_needs_token_def AuthClient_isTokenValid_def loop_auth_def loop_env_def
      svc_online_def SomeipClient_isConnected_def)

lemma loop_lap:
  assumes "asleep g p" and "p \<noteq> Signalled"
  shows "\<exists>g'. run_actors loop_env loop_server port (replicate 5 (Service 0)) g = Some g' \<and> asleep g' (after_send p)"
proof -
  have a: "pr_threads (pg_process g) = [(L117, False)]" "\<not> pg_ended g" "in_service (pg_svc g)"
    "lb_peer (pg_world g) = p"
    using assms(1) by (simp_all add: asleep_def)
  from loop_send [OF a(3)] a(4) obtain s' where
    p: "publishTelemetry loop_env (pg_svc g) = (True, s')" "in_service s'" "lb_peer (svc_world s') = after_send p"
    by auto
  have "\<not> sv_killed loop_server (pg_world g)" using a(4) assms(2) by (simp add: loop_server_def)
  with a loop_ready [OF a(3)] p show ?thesis
    by (simp add: numeral_eq_Suc in_process_def pg_killed_def pg_ended_def finished_def asleep_def)
qed

lemma loop_farewell:
  assumes "asleep g Present" and "pg_listener g = Some (N76 4 5)"
  shows "\<exists>g'. run_actors loop_env loop_server port [Listener] g = Some g' \<and> asleep g' Gone"
  using assms by (simp add: asleep_def loop_server_def on_svc_def pg_ended_def pg_killed_def)

text \<open>The listener closes the connection after its one \<open>recv\<close>, and the worker publishes twice more.\<close>

definition killing :: "actor list" where
  "killing = showing @ [Listener] @ replicate 5 (Service 0) @ replicate 5 (Service 0)"

lemma killing_run:
  obtains s g where "main_init (env_now loop_env) demo_io quiet_net = Some s"
    "run_actors loop_env loop_server port killing (program_start s) = Some g"
    "sv_killed loop_server (pg_world g)" "svc_online loop_env (pg_svc g)"
proof -
  obtain lg io1 where l: "Logger_new kDemoLogPath demo_io = Some (lg, io1)" using demo_log_path by blast
  then obtain s where s: "main_init (env_now loop_env) demo_io quiet_net = Some s"
    "svc_auth s = Some loop_auth" "svc_mqtt s = Some 0" "\<not> svc_running s" "svc_world s = quiet_net"
    "svc_heap s = (\<lambda>_. SomeipClient_new demo_someip_config)"
    "svc_telemetry s = Some (TelemetryManager_new kDefaultEcuClientId (Some 0))"
    by (simp add: main_init_def AuthClient_new_def ConnectivityService_new_def loop_env_def
        loop_auth_def demo_someip_config_def)
  from showing_run [OF s(2-7)] obtain g0 where
    g0: "run_actors loop_env loop_server port showing (program_start s) = Some g0"
    "pg_listener g0 = Some (N76 4 5)" "asleep g0 Present"
    by (auto simp: asleep_def)
  from loop_farewell [OF g0(3,2)] obtain g1 where
    g1: "run_actors loop_env loop_server port [Listener] g0 = Some g1" "asleep g1 Gone" by blast
  from loop_lap [OF g1(2)] obtain g2 where
    g2: "run_actors loop_env loop_server port (replicate 5 (Service 0)) g1 = Some g2" "asleep g2 Reset" by fastforce
  from loop_lap [OF g2(2)] obtain g3 where
    g3: "run_actors loop_env loop_server port (replicate 5 (Service 0)) g2 = Some g3" "asleep g3 Signalled" by fastforce
  have "run_actors loop_env loop_server port killing (program_start s) = Some g3"
    unfolding killing_def run_actors_append g0(1) option.case g1(1) g2(1) g3(1) ..
  with s(1) g3(2) loop_ready(2) show thesis by (auto intro!: that simp: asleep_def loop_server_def)
qed

theorem killed_in_publication_witness:
  "\<exists>s g as1 i. main_init (env_now loop_env) demo_io quiet_net = Some s \<and>
     run_actors loop_env loop_server kDemoSomeipPort killing (program_start s) = Some g \<and>
     sv_killed loop_server (pg_world g) \<and> svc_online loop_env (pg_svc g) \<and>
     killing = as1 @ [Service i] \<and> \<not> pg_ended g \<and> \<not> finished i (pg_process g)"
proof -
  obtain s g where g: "main_init (env_now loop_env) demo_io quiet_net = Some s"
    "run_actors loop_env loop_server kDemoSomeipPort killing (program_start s) = Some g"
    "sv_killed loop_server (pg_world g)" "svc_online loop_env (pg_svc g)"
    by (rule killing_run)
  have "main_init (\<lambda>w. (0, w)) demo_io quiet_net = Some s" using g(1) by (simp add: loop_env_def)
  moreover have "\<not> sv_killed loop_server quiet_net" by (simp add: loop_server_def)
  ultimately show ?thesis
    using killed_in_publication [OF loop_calm.calm_network_axioms _ _ g(2) [unfolded loop_program_env] g(3)] g
    by blast
qed

section \<open>One frame for one publication\<close>

interpretation wired: calm_calls "recording S" "beside now" "beside lt" "\<lambda>n (w, l). (sl n w, l)"
  "\<lambda>v v'. snd v' = snd v"
  by unfold_locales (auto simp: recording_def beside_def split: prod.splits)

text \<open>How often a schedule executes line 113.\<close>

definition publication :: "actor \<Rightarrow> ('c, 'w) program \<Rightarrow> nat" where
  "publication a g = (case a of Service i \<Rightarrow> if publishing i g then 1 else 0 | _ \<Rightarrow> 0)"

fun publications ::
  "('c, 'w) env \<Rightarrow> ('w, 'z) blocking_server_scheme \<Rightarrow> u16 \<Rightarrow> actor list \<Rightarrow> ('c, 'w) program \<Rightarrow> nat" where
  "publications E V port [] g = 0"
| "publications E V port (a # as) g =
     (case prog_sched E V port a g of None \<Rightarrow> 0 | Some g' \<Rightarrow> publication a g + publications E V port as g')"

lemma recorded_sample:
  assumes "generateSample (beside lt) t v = (sample, v')"
  shows "snd v' = snd v"
  using assms by (auto simp: generateSample_def currentTimestamp_def beside_def split: prod.splits)

lemma recorded_publish:
  "length (snd (svc_world (snd (publishTelemetry (recording_env S now lt sl src) s)))) \<le>
     Suc (length (snd (svc_world s)))"
proof (cases "svc_telemetry s")
  case None
  then show ?thesis by (simp add: publishTelemetry_def)
next
  case (Some t)
  obtain sample v where g: "generateSample (beside lt) t (svc_world s) = (sample, v)"
    using prod.exhaust by blast
  have v: "snd v = snd (svc_world s)" using recorded_sample [OF g] .
  have send: "length (snd (snd (snd (SomeipClient_publish (recording S) topic payload q c v)))) \<le>
      Suc (length (snd v))" for topic payload q c
    by (simp add: SomeipClient_publish_def recording_def case_prod_unfold Let_def)
  show ?thesis
    using Some g v send
    by (cases "tl_client t")
      (simp_all add: publishTelemetry_def publishSample_def queueMessage_def recording_env_def case_prod_unfold
        Let_def)
qed

lemma recorded_listener:
  assumes "prog_sched E (recording_server V) port Listener g = Some g'"
  shows "snd (pg_world g') = snd (pg_world g)"
proof -
  have step: "snd w' = snd w"
    if "listener_step (recording_server V) port pc w = Some (pc', out, w')" for pc w pc' out w'
    using that by (cases pc) (auto simp: recording_server_def split: if_splits prod.splits)
  from assms show ?thesis by (auto simp: on_svc_def split: option.splits if_splits dest: step)
qed

lemma recorded_step:
  assumes "own_inv port g"
    and "prog_sched (recording_env S now lt sl src) (recording_server V) port a g = Some g'"
  shows "length (snd (pg_world g')) \<le> length (snd (pg_world g)) + publication a g"
proof (cases rule: wired.calm_program [OF assms(1) assms(2) [unfolded recording_env_def],
      case_names listener publish calm])
  case listener
  from recorded_listener [OF assms(2) [unfolded listener]] show ?thesis by simp
next
  case (publish i)
  have "pg_svc g' = snd (publishTelemetry (recording_env S now lt sl src) (pg_svc g))"
    using publishing_step [OF publish(2) assms(2) [unfolded publish(1)]] by simp
  moreover have "publication a g = 1" using publish by (simp add: publication_def)
  ultimately show ?thesis using recorded_publish [of S now lt sl src "pg_svc g"] by simp
next
  case calm
  then show ?thesis by simp
qed

lemma recorded_run:
  assumes "own_inv port g"
    and "run_actors (recording_env S now lt sl src) (recording_server V) port as g = Some g'"
  shows "length (snd (pg_world g')) \<le>
    length (snd (pg_world g)) + publications (recording_env S now lt sl src) (recording_server V) port as g"
  using assms
proof (induction as arbitrary: g)
  case Nil
  then show ?case by simp
next
  case (Cons a as)
  from Cons.prems(2) obtain g1 where 1:
    "prog_sched (recording_env S now lt sl src) (recording_server V) port a g = Some g1"
    "run_actors (recording_env S now lt sl src) (recording_server V) port as g1 = Some g'"
    by (auto split: option.splits)
  from own_inv_step [OF Cons.prems(1) 1(1) [unfolded recording_env_def]] have "own_inv port g1" .
  from Cons.IH [OF this 1(2)] recorded_step [OF Cons.prems(1) 1(1)] 1(1) show ?case by simp
qed

text \<open>C12: The sample program sends only when its worker publishes, and then at most once: in any interleaving
  and over any sockets, the number of byte strings handed to \<open>send\<close> is at most the number of times
  the schedule executes line 113 of the worker. Together with the contents of these byte strings:
  no frame is duplicated and no call of \<open>main\<close> or of the listener sends.\<close>

theorem one_frame_per_publication:
  assumes "main_init (env_now (recording_env S now lt sl src)) io (w, []) = Some s"
    and "run_actors (recording_env S now lt sl src) (recording_server V) port as (program_start s) = Some g"
  shows "length (snd (pg_world g)) \<le>
    publications (recording_env S now lt sl src) (recording_server V) port as (program_start s)"
proof -
  have init: "main_init (beside now) io (w, []) = Some s" using assms(1) by (simp add: recording_env_def)
  then have "snd (svc_world s) = []"
    by (auto simp: main_init_def AuthClient_new_def ConnectivityService_new_def beside_def
        split: option.splits prod.splits)
  then have "snd (pg_world (program_start s)) = []" by (simp add: program_start_def launch_def)
  with recorded_run [OF own_inv_start [OF init] assms(2)] show ?thesis by simp
qed

theorem one_frame_per_publication_witness:
  "\<exists>s g. main_init (env_now rec_env) demo_io ([], []) = Some s \<and>
     run_actors rec_env (recording_server idle_server) kDemoSomeipPort sending (program_start s) = Some g \<and>
     length (snd (pg_world g)) = 1 \<and>
     1 \<le> publications rec_env (recording_server idle_server) kDemoSomeipPort sending (program_start s)"
proof -
  obtain s g f where s: "main_init (env_now rec_env) demo_io ([], []) = Some s"
    and g: "run_actors rec_env (recording_server idle_server) kDemoSomeipPort sending (program_start s) = Some g"
      "snd (pg_world g) = [f]"
    by (rule sending_program)
  from one_frame_per_publication [OF s [unfolded rec_env_def] g(1) [unfolded rec_env_def]] s g
  show ?thesis by (simp add: rec_env_def)
qed

end
