(* ===== verification/Service_Recovery.thy ===== *)
theory Service_Recovery
  imports Link_Supervision Service_Liveness Wire
begin

text \<open>
  The worker's loop gets through its token refresh (\<open>src/ConnectivityService/connectivity_service.cpp\<close>,
  lines 85 to 98): as long as the authentication backend does not refuse for ever, a worker that is not
  asked to stop comes to publish again and again, under any fair scheduler. The contract \<open>patience\<close> says
  what this takes from the backend; the worker interprets \<open>ranked\<close> of \<open>Fair_Runs\<close>.
\<close>

section \<open>The login the service makes\<close>

text \<open>The backend of the service's client, applied to the stored credentials. Nothing the service does
  changes either.\<close>

definition backend_login :: "('c, 'w) service \<Rightarrow> ('w \<Rightarrow> AuthResponse \<times> 'w) option" where
  "backend_login s = (case svc_login s of
       Some (Some backend, vid, secret) \<Rightarrow> Some (backend \<lparr>vehicle_id = vid, vehicle_secret = secret\<rparr>)
     | _ \<Rightarrow> None)"

lemma backend_login_cong: "svc_login t = svc_login s \<Longrightarrow> backend_login t = backend_login s"
  by (simp add: backend_login_def)

lemma backend_login_simps [simp]:
  "backend_login (svc_say E lv m l s) = backend_login s" "backend_login (set_state st s) = backend_login s"
  "backend_login (svc_sleep E n s) = backend_login s"
  by (simp_all add: backend_login_def)

section \<open>Patience\<close>

text \<open>What the worker relies on: the backend refuses only finitely often in a row. \<open>budget\<close> bounds the
  refusals still to come; a refusal uses it up, a granted login may renew it, and nothing else that the
  worker or a publication does to the world raises it.\<close>

locale patience =
  fixes E :: "('c, 'w) env" and login :: "'w \<Rightarrow> AuthResponse \<times> 'w" and budget :: "'w \<Rightarrow> nat"
  assumes refusal: "login w = (r, w') \<Longrightarrow> access_token r = [] \<Longrightarrow> budget w' < budget w"
    and now_keeps: "env_now E w = (t, w') \<Longrightarrow> budget w' \<le> budget w"
    and wall_keeps: "env_local_time E w = (l, w') \<Longrightarrow> budget w' \<le> budget w"
    and sleep_keeps: "budget (env_sleep E n w) \<le> budget w"
    and publish_keeps: "m_publish (env_ops E) topic payload q c w = (ok, c', w') \<Longrightarrow> budget w' \<le> budget w"
begin

lemma say_keeps: "budget (svc_world (svc_say E lv m l s)) \<le> budget (svc_world s)"
  using wall_keeps by (auto simp: svc_say_def split: prod.split)

lemma needs_token_keeps:
  "svc_needs_token E s = (n, s') \<Longrightarrow> budget (svc_world s') \<le> budget (svc_world s)"
  using now_keeps by (auto simp: svc_needs_token_def AuthClient_isTokenValid_def
      split: option.splits prod.splits if_splits)

lemma refresh_falls:
  assumes "svc_refresh E s = (False, s')" and "backend_login s = Some login"
  shows "budget (svc_world s') < budget (svc_world s)"
proof -
  obtain ac backend where ac: "svc_auth s = Some ac" "ac_backend ac = Some backend"
    and b: "login = backend \<lparr>vehicle_id = ac_vehicle_id ac, vehicle_secret = ac_vehicle_secret ac\<rparr>"
    using assms(2) by (auto simp: backend_login_def svc_login_def split: option.splits)
  obtain r w1 where r: "login (svc_world s) = (r, w1)" by fastforce
  obtain t w2 where t: "env_now E w1 = (t, w2)" by fastforce
  from assms(1) ac b r t have "access_token r = []" "svc_world s' = w2"
    by (auto simp: svc_refresh_def AuthClient_refreshToken_def AuthClient_authenticate_def split: if_splits)
  with refusal [OF r] now_keeps [OF t] show ?thesis by simp
qed

lemma publishSample_keeps:
  "publishSample (env_ops E) (env_local_time E) th w = (r, th', w') \<Longrightarrow> budget w' \<le> budget w"
  using wall_keeps publish_keeps
  by (fastforce simp: publishSample_def generateSample_def currentTimestamp_def queueMessage_def Let_def
      split: prod.splits option.splits if_splits intro: le_trans)

lemma publishTelemetry_keeps:
  "publishTelemetry E s = (r, s') \<Longrightarrow> budget (svc_world s') \<le> budget (svc_world s)"
  using publishSample_keeps
  by (fastforce simp: publishTelemetry_def split: option.splits prod.splits)

end


section \<open>How far a worker is from its next publication\<close>

text \<open>The distance to line 113 with \<open>b\<close> refusals to come; a refused refresh costs a delay and a new
  pass.\<close>

fun wait_rank :: "loop_pc \<Rightarrow> nat \<Rightarrow> nat" where
  "wait_rank L100 b = 1" | "wait_rank L91 b = 2" | "wait_rank L90 b = 3"
| "wait_rank L89 b = 4 + 10 * b" | "wait_rank L88 b = 5 + 10 * b" | "wait_rank L87 b = 6 + 10 * b"
| "wait_rank L86 b = 7 + 10 * b" | "wait_rank L85 b = 8 + 10 * b" | "wait_rank L95 b = 9 + 10 * b"
| "wait_rank L94 b = 10 + 10 * b" | "wait_rank L93 b = 11 + 10 * b" | "wait_rank L117 b = 12 + 10 * b"
| "wait_rank L114 b = 13 + 10 * b" | "wait_rank pc b = 0"

lemma wait_rank_mono: "b \<le> c \<Longrightarrow> wait_rank pc b \<le> wait_rank pc c"
  by (cases pc) simp_all

text \<open>Worker \<open>t\<close> is in its loop, has not been asked to stop and is not about to publish.\<close>

definition awaiting ::
  "('c, 'w) env \<Rightarrow> ('w \<Rightarrow> AuthResponse \<times> 'w) \<Rightarrow> nat \<Rightarrow> ('c, 'w) process \<Rightarrow> bool" where
  "awaiting E login t p \<longleftrightarrow>
     t < length (pr_threads p) \<and> \<not> snd (pr_threads p ! t) \<and>
     fst (pr_threads p ! t) \<notin> {L113, L120, L123, LDone} \<and> linked E p \<and> backend_login (pr_svc p) = Some login \<and>
     (\<exists>pc. pr_callers p = [pc] \<and> caller_inv E pc p)"

lemma awaiting_alive: "awaiting E login t p \<Longrightarrow> \<not> finished t p"
  by (simp add: awaiting_def finished_def)

text \<open>Meanwhile no other worker makes a step, and the caller is not inside \<open>start\<close>.\<close>

lemma awaiting_alone:
  assumes "awaiting E login t p" and "i < length (pr_threads p)" and "\<not> finished i p"
  shows "i = t"
  using assms awaiting_alive [OF assms(1)] caller_inv_threads
  by (metis awaiting_def)

lemma awaiting_caller:
  assumes "awaiting E login t p" and "pr_callers p = [pc]"
  shows "\<not> idle p" "caller_inv E pc p"
  using assms awaiting_alive [OF assms(1)] by (auto simp: awaiting_def idle_def)

context patience
begin

lemma loop_step_wait:
  assumes "loop_step E False pc s = (pc', s')" and "backend_login s = Some login"
    and "pc \<notin> {L113, L120, L123, LDone}" and "\<not> reconnecting pc" and "\<not> reconnecting pc'" and "pc' \<noteq> L113"
  shows "wait_rank pc' (budget (svc_world s')) < wait_rank pc (budget (svc_world s))"
proof (cases pc)
  case L86
  obtain n s1 where n: "svc_needs_token E s = (n, s1)" by fastforce
  with needs_token_keeps [OF n] L86 assms(1) show ?thesis by (auto split: if_splits)
next
  case L89
  obtain n s1 where n: "svc_refresh E s = (n, s1)" by fastforce
  show ?thesis
  proof (cases n)
    case True
    with n L89 assms(1) show ?thesis by auto
  next
    case False
    with refresh_falls [of s s1] n assms(2) have "budget (svc_world s1) < budget (svc_world s)" by simp
    with False n L89 assms(1) show ?thesis by auto
  qed
next
  case L88
  with assms(1) say_keeps show ?thesis by (auto simp: less_Suc_eq_le)
next
  case L93
  with assms(1) say_keeps show ?thesis by (auto simp: less_Suc_eq_le)
next
  case L95
  with assms(1) sleep_keeps show ?thesis by (auto simp: svc_sleep_def less_Suc_eq_le)
next
  case L114
  with assms(1) say_keeps show ?thesis by (auto simp: less_Suc_eq_le)
next
  case L117
  with assms(1) have "pc' = L85" "s' = svc_sleep E kPublishIntervalSec s" by simp_all
  with L117 sleep_keeps [of kPublishIntervalSec "svc_world s"] show ?thesis by (simp add: svc_sleep_def)
qed (use assms in \<open>auto split: if_splits\<close>)

end


context patience
begin

lemma caller_step_wait:
  assumes "caller_step E pc p = Some (pc', p')" and "caller_inv E pc p" and "\<not> idle p"
  shows "budget (svc_world (pr_svc p')) \<le> budget (svc_world (pr_svc p))"
  using assms say_keeps
  by (cases pc) (auto simp: on_svc_def set_state_def split: if_splits option.splits)

lemma others_wait:
  assumes "awaiting E login t p" and "sched E ch p = Some p'" and "ch \<noteq> Worker t"
  shows "budget (svc_world (pr_svc p')) \<le> budget (svc_world (pr_svc p))"
proof (cases ch)
  case (Worker i)
  with assms(2) have "i < length (pr_threads p)" "\<not> finished i p" by (auto split: if_splits)
  with awaiting_alone [OF assms(1)] Worker assms(3) show ?thesis by simp
next
  case (Caller j)
  obtain pc where pc: "pr_callers p = [pc]" using assms(1) by (auto simp: awaiting_def)
  with Caller assms(2) obtain pc' p1 where "caller_step E pc p = Some (pc', p1)" "p' = p1\<lparr>pr_callers := [pc']\<rparr>"
    by (auto split: if_splits option.splits)
  with caller_step_wait awaiting_caller [OF assms(1) pc] show ?thesis by simp
next
  case (CallPublish j)
  obtain ok s where p: "publishTelemetry E (pr_svc p) = (ok, s)" by fastforce
  with CallPublish assms(2) have "p' = p\<lparr>pr_svc := s\<rparr>" by (auto simp: on_svc_def split: if_splits)
  with publishTelemetry_keeps [OF p] show ?thesis by simp
qed (use assms(2) in \<open>auto split: if_splits\<close>)

lemma worker_waits:
  assumes "awaiting E login t p" and "awaiting E login t p'" and "sched E (Worker t) p = Some p'"
  shows "wait_rank (fst (pr_threads p' ! t)) (budget (svc_world (pr_svc p'))) <
    wait_rank (fst (pr_threads p ! t)) (budget (svc_world (pr_svc p)))"
proof -
  have t: "t < length (pr_threads p)" "\<not> snd (pr_threads p ! t)" using assms(1) by (simp_all add: awaiting_def)
  obtain l s where st: "loop_step E False (fst (pr_threads p ! t)) (pr_svc p) = (l, s)" by fastforce
  with assms(3) t have p': "pr_svc p' = s" "fst (pr_threads p' ! t) = l" by (auto split: if_splits)
  have calm: "\<not> reconnecting (fst (pr_threads q ! t))" if "awaiting E login t q" for q
    using that by (auto simp: awaiting_def linked_def linked_pc_def)
  have "\<not> reconnecting l" "l \<noteq> L113" using calm [OF assms(2)] assms(2) p'(2) by (auto simp: awaiting_def)
  with loop_step_wait [OF st _ _ calm [OF assms(1)]] assms(1) p' show ?thesis by (auto simp: awaiting_def)
qed

end

sublocale patience \<subseteq> publishing: ranked "sched E" "awaiting E login t" "Worker t"
  "\<lambda>p. wait_rank (fst (pr_threads p ! t)) (budget (svc_world (pr_svc p)))" for t
proof (unfold_locales, goal_cases)
  case (1 p p')
  then show ?case by (rule worker_waits)
next
  case (2 p p' a)
  have "fst (pr_threads p' ! t) = fst (pr_threads p ! t)"
    using sched_thread [OF 2(4), of t] 2(1,3) by (simp add: awaiting_def)
  with wait_rank_mono [OF others_wait [OF 2(1,4,3)]] show ?case by simp
qed

context patience
begin

lemma wait_ends:
  assumes "fair_run A (sched E) act p" and "Worker t \<in> A"
  shows "\<exists>j\<ge>n. \<not> awaiting E login t (p j)"
proof (rule ccontr)
  assume "\<not> ?thesis"
  then have waits: "awaiting E login t (p j)" if "n \<le> j" for j using that by metis
  from publishing.blocks [OF assms waits] obtain j where "n \<le> j" "sched E (Worker t) (p j) = None" by blast
  with waits [of j] awaiting_alive [of E login t "p j"] show False
    by (auto simp: awaiting_def split: prod.splits)
qed

end

section \<open>The worker comes to publish\<close>

text \<open>A worker leaves its loop only when it has been asked to stop.\<close>

definition exits_asked :: "('c, 'w) process \<Rightarrow> bool" where
  "exits_asked p \<longleftrightarrow>
     (\<forall>t < length (pr_threads p). fst (pr_threads p ! t) \<in> {L120, L123, LDone} \<longrightarrow> snd (pr_threads p ! t))"

lemma loop_step_exits:
  "loop_step E b pc s = (pc', s') \<Longrightarrow> pc' \<in> {L120, L123, LDone} \<Longrightarrow> pc \<in> {L120, L123, LDone} \<or> b"
  by (cases pc) (auto split: if_splits prod.splits)

lemma exits_asked_caller:
  assumes "exits_asked p" and "caller_step E pc p = Some (pc', p')"
  shows "exits_asked p'"
proof -
  have "fst (pr_threads p' ! t) \<in> {L120, L123, LDone} \<longrightarrow> snd (pr_threads p' ! t)"
    if t: "t < length (pr_threads p')" for t
  proof (cases "t < length (pr_threads p)")
    case True
    with caller_step_threads [OF assms(2) this] assms(1) show ?thesis by (auto simp: exits_asked_def)
  next
    case False
    with t assms(2) have "pr_threads p' ! t = (L85, False)"
      by (cases pc) (auto simp: nth_append less_Suc_eq split: if_splits option.splits prod.splits)
    then show ?thesis by simp
  qed
  then show ?thesis by (simp add: exits_asked_def)
qed

lemma exits_asked_sched:
  assumes "exits_asked p" and "sched E ch p = Some p'"
  shows "exits_asked p'"
proof (cases ch)
  case (Worker i)
  then have i: "i < length (pr_threads p)" using assms(2) by (auto split: if_splits)
  obtain l s where st: "loop_step E (snd (pr_threads p ! i)) (fst (pr_threads p ! i)) (pr_svc p) = (l, s)"
    by fastforce
  with Worker assms(2) have "pr_threads p' = (pr_threads p)[i := (l, snd (pr_threads p ! i))]"
    by (auto split: if_splits)
  with assms(1) i loop_step_exits [OF st] show ?thesis
    by (auto simp: exits_asked_def nth_list_update)
next
  case (Caller j)
  with assms(2) obtain pc' p1 where "caller_step E (pr_callers p ! j) p = Some (pc', p1)"
    and "p' = p1\<lparr>pr_callers := (pr_callers p)[j := pc']\<rparr>"
    by (auto split: if_splits option.splits)
  with exits_asked_caller [OF assms(1)] show ?thesis by (simp add: exits_asked_def)
qed (use assms in \<open>auto simp: exits_asked_def split: if_splits\<close>)


text \<open>C9: The worker comes back from refused logins and publishes again and again: take a service with
  one calling thread whose backend refuses only finitely often in a row, and any run that is fair to
  worker \<open>t\<close>. From any time at which the worker exists it comes to the publication of line 113, unless it
  has been asked to stop; no refused refresh, expired token or interference of the caller keeps it from
  publishing for ever.\<close>

theorem fair_worker_publishes:
  assumes "mqtt_client (env_ops E) I" and "store_inv I s" and "\<not> svc_running s"
    and "svc_state s = Stopped" and "\<not> svc_online E s"
    and "patience E login budget" and "backend_login s = Some login"
    and "fair_run A (sched E) act p" and "Worker t \<in> A" and "p 0 = launch 1 s"
    and "t < length (pr_threads (p n))"
  shows "\<exists>j\<ge>n. snd (pr_threads (p j) ! t) \<or> fst (pr_threads (p j) ! t) = L113"
proof (rule ccontr)
  assume "\<not> ?thesis"
  then have never: "\<not> snd (pr_threads (p j) ! t)" "fst (pr_threads (p j) ! t) \<noteq> L113" if "n \<le> j" for j
    using that by metis+
  have run: "run_of (sched E) act p" using assms(8) by (simp add: fair_run_def)
  have reach: "proc_reach E (launch 1 s) (p j)" for j
  proof (rule run_keeps [OF run _ le0])
    show "proc_reach E (launch 1 s) (p 0)" using assms(10) by (simp add: reach_start)
  qed (blast intro: reach_step proc_step)
  have exits: "exits_asked (p j)" for j
    by (rule run_keeps [OF run _ le0 exits_asked_sched]) (simp add: assms(10) exits_asked_def launch_def)
  have login: "backend_login (pr_svc (p j)) = Some login" for j
    by (rule run_keeps [OF run _ le0]) (simp_all add: assms(7,10) launch_def backend_login_cong [OF sched_login] del: sched.simps)
  have there: "t < length (pr_threads (p j))" if "n \<le> j" for j
    by (rule run_keeps [where P = "\<lambda>q. t < length (pr_threads q)", OF run assms(11) that])
      (blast dest: sched_thread)
  have inv: "\<exists>pc. pr_callers (p j) = [pc] \<and> caller_inv E pc (p j)" for j
    using mqtt_client.single_caller_reach [OF assms(1) reach refl assms(2-5)] by blast
  have waits: "awaiting E login t (p j)" if "n \<le> j" for j
    using never [OF that] exits [of j] login [of j] there [OF that] inv [of j]
      mqtt_client.linked_reach [OF assms(1) reach refl assms(2-5), of j]
    by (auto simp: awaiting_def exits_asked_def)
  with patience.wait_ends [OF assms(6,8,9)] show False by blast
qed

text \<open>The login of the sample program is patient with every environment: it has a name and a password,
  so its backend grants it.\<close>

definition sample_login :: "'w \<Rightarrow> AuthResponse \<times> 'w" where
  "sample_login = DemoAuthBackend \<lparr>vehicle_id = sc_client_id demo_someip_config, vehicle_secret = kDemoVehicleSecret\<rparr>"

lemma sample_login_granted: "sample_login w = (\<lparr>access_token = ''jwt-demo-token'', expires_in = kDemoTokenTtlSec\<rparr>, w)"
  by (simp add: sample_login_def DemoAuthBackend_def demo_someip_config_def kDefaultEcuClientId_def
      kDemoVehicleSecret_def)

lemma main_login: "main_init now io w = Some s \<Longrightarrow> backend_login s = Some sample_login"
  by (auto simp: main_init_def backend_login_def svc_login_def AuthClient_new_def ConnectivityService_new_def
      sample_login_def split: option.splits prod.splits)

interpretation patient_sample: patience "program_env S now lt sl src" sample_login "\<lambda>_. 0" for S now lt sl src
  by unfold_locales (simp_all add: sample_login_granted)

lemma demo_patient: "patience demo_env (const_backend ''jwt'' 60 q) (\<lambda>_. 0)"
  by unfold_locales (auto simp: const_backend_def)

theorem fair_worker_publishes_witness:
  "\<exists>act p j. fair_run (insert (Caller 0) (range Worker)) (sched demo_env) act p \<and>
     p 0 = launch 1 (demo_service ''jwt'') \<and> pr_threads (p 13) = [(L85, False)] \<and> 13 \<le> j \<and>
     (snd (pr_threads (p j) ! 0) \<or> fst (pr_threads (p j) ! 0) = L113)"
proof -
  let ?act = "recurring serving_turn started_schedule"
  let ?p = "states_of (sched demo_env) ?act (launch 1 (demo_service ''jwt''))"
  have fair: "fair_run (insert (Caller 0) (range Worker)) (sched demo_env) ?act ?p" by (rule serving_fair)
  obtain s where s: "run_schedule demo_env started_schedule (launch 1 (demo_service ''jwt'')) =
     Some \<lparr>pr_svc = s, pr_worker = Some 0, pr_threads = [(L85, False)],
       pr_callers = [Ready (Some (Start, True))]\<rparr>" using demo_started by blast
  have "length started_schedule = 13" by (simp add: started_schedule_def)
  with states_of_schedule [OF s, of serving_turn "[]"] have t: "pr_threads (?p 13) = [(L85, False)]" by simp
  have login: "backend_login (demo_service ''jwt'') = Some (const_backend ''jwt'' 60 \<lparr>vehicle_id = ''V'', vehicle_secret = ''S''\<rparr>)"
    by (simp add: backend_login_def svc_login_def demo_auth_def)
  have "0 < length (pr_threads (?p 13))" by (simp only: t) simp
  with fair_worker_publishes [OF demo_contract demo_store demo_fresh demo_patient login fair, of 0 13]
  obtain j where "13 \<le> j" "snd (pr_threads (?p j) ! 0) \<or> fst (pr_threads (?p j) ! 0) = L113" by auto
  with fair t show ?thesis by (intro exI [of _ ?act] exI [of _ ?p] exI [of _ j]) simp
qed

end
