(* ===== verification/Adaptive_Services.thy ===== *)
theory Adaptive_Services
  imports Cxx_Format
begin

text \<open>
  The small classes beside the connectivity service: \<open>ConnectivityRuntime\<close>
  (\<open>src/connectivity/connectivity_runtime.cpp\<close>), \<open>MqttGateway\<close> (\<open>src/mqtt/mqtt_gateway.cpp\<close>),
  \<open>DiagnosticsService\<close> and \<open>VehicleSignalService\<close> (\<open>src/services\<close>) and \<open>Vehicle\<close>
  (\<open>src/vehicle.cpp\<close>), with their headers. The names of the record fields that other classes use
  too carry a prefix.
\<close>

section \<open>ConnectivityRuntime\<close>

definition kDefaultBrokerHost :: string where
  "kDefaultBrokerHost = ''localhost''"

definition kDefaultBrokerPort :: u16 where
  "kDefaultBrokerPort = 1883"

definition kDefaultClientId :: string where
  "kDefaultClientId = ''cvp-client''"

record ConnectivityConfig =
  brokerHost :: string
  brokerPort :: u16
  clientId :: string

definition ConnectivityConfig_default :: ConnectivityConfig where
  "ConnectivityConfig_default =
     \<lparr>brokerHost = kDefaultBrokerHost, brokerPort = kDefaultBrokerPort, clientId = kDefaultClientId\<rparr>"

record ConnectivityRuntime =
  rt_config :: ConnectivityConfig
  rt_connected :: bool

definition ConnectivityRuntime_new :: "ConnectivityConfig \<Rightarrow> ConnectivityRuntime" where
  "ConnectivityRuntime_new config = \<lparr>rt_config = config, rt_connected = False\<rparr>"

definition ConnectivityRuntime_connect :: "ConnectivityRuntime \<Rightarrow> bool \<times> ConnectivityRuntime" where
  "ConnectivityRuntime_connect rt =
     (let rt' = rt\<lparr>rt_connected := brokerHost (rt_config rt) \<noteq> []\<rparr> in (rt_connected rt', rt'))"

definition ConnectivityRuntime_disconnect :: "ConnectivityRuntime \<Rightarrow> bool \<times> ConnectivityRuntime" where
  "ConnectivityRuntime_disconnect rt = (True, rt\<lparr>rt_connected := False\<rparr>)"

definition ConnectivityRuntime_isConnected :: "ConnectivityRuntime \<Rightarrow> bool" where
  "ConnectivityRuntime_isConnected rt = rt_connected rt"

definition ConnectivityRuntime_config :: "ConnectivityRuntime \<Rightarrow> ConnectivityConfig" where
  "ConnectivityRuntime_config rt = rt_config rt"

section \<open>MqttGateway\<close>

record MqttGateway =
  gw_topic :: string

definition MqttGateway_new :: "string \<Rightarrow> MqttGateway" where
  "MqttGateway_new topic = \<lparr>gw_topic = topic\<rparr>"

definition MqttGateway_default :: MqttGateway where
  "MqttGateway_default = MqttGateway_new ''vehicle/signals''"

definition MqttGateway_publish :: "MqttGateway \<Rightarrow> string \<Rightarrow> bool" where
  "MqttGateway_publish gw payload \<longleftrightarrow> payload \<noteq> []"

definition MqttGateway_subscribe :: "MqttGateway \<Rightarrow> string \<Rightarrow> bool" where
  "MqttGateway_subscribe gw topic \<longleftrightarrow> topic \<noteq> []"

definition MqttGateway_topic :: "MqttGateway \<Rightarrow> string" where
  "MqttGateway_topic gw = gw_topic gw"

section \<open>DiagnosticsService and VehicleSignalService\<close>

record DiagnosticReport =
  dr_code :: string
  dr_severity :: string
  dr_detail :: string

definition publishDiagnostic :: "DiagnosticReport \<Rightarrow> bool" where
  "publishDiagnostic report \<longleftrightarrow> dr_code report \<noteq> [] \<and> dr_severity report \<noteq> []"

record VehicleSignalSnapshot =
  vs_speed :: u16
  vs_batteryVoltage :: double

text \<open>The double nearest to 12.4, as the literal of the source denotes it.\<close>

definition readSignalSnapshot :: VehicleSignalSnapshot where
  "readSignalSnapshot = \<lparr>vs_speed = 0, vs_batteryVoltage = Fin False 6980579422424269 (-49)\<rparr>"

section \<open>Vehicle\<close>

record Vehicle =
  vh_make :: string
  vh_model :: string
  vh_year :: int

definition Vehicle_describe :: "Vehicle \<Rightarrow> string" where
  "Vehicle_describe v = vh_make v @ '' '' @ vh_model v @ '' ('' @ to_string (vh_year v) @ '')''"

section \<open>Properties\<close>

datatype runtime_call = RtConnect | RtDisconnect

fun runtime_call_op :: "runtime_call \<Rightarrow> ConnectivityRuntime \<Rightarrow> bool \<times> ConnectivityRuntime" where
  "runtime_call_op RtConnect rt = ConnectivityRuntime_connect rt"
| "runtime_call_op RtDisconnect rt = ConnectivityRuntime_disconnect rt"

definition run_runtime :: "runtime_call list \<Rightarrow> ConnectivityRuntime \<Rightarrow> ConnectivityRuntime" where
  "run_runtime cs rt = foldl (\<lambda>rt c. snd (runtime_call_op c rt)) rt cs"

lemma run_runtime_snoc:
  "run_runtime (cs @ [c]) rt = snd (runtime_call_op c (run_runtime cs rt))"
  by (simp add: run_runtime_def)

lemma run_runtime_config: "rt_config (run_runtime cs rt) = rt_config rt"
proof (induction cs rule: rev_induct)
  case Nil
  then show ?case by (simp add: run_runtime_def)
next
  case (snoc c cs)
  then show ?case
    by (cases c) (simp_all add: run_runtime_snoc ConnectivityRuntime_connect_def
        ConnectivityRuntime_disconnect_def)
qed

text \<open>After any sequence of calls on a new \<open>ConnectivityRuntime\<close> the configuration is the one it
  was given, and the runtime is connected exactly when the last call was \<open>connect\<close> and the broker
  host is not empty.\<close>

theorem runtime_connected_iff:
  "ConnectivityRuntime_config (run_runtime cs (ConnectivityRuntime_new config)) = config \<and>
   (ConnectivityRuntime_isConnected (run_runtime cs (ConnectivityRuntime_new config)) \<longleftrightarrow>
     cs \<noteq> [] \<and> last cs = RtConnect \<and> brokerHost config \<noteq> [])"
proof (cases cs rule: rev_cases)
  case Nil
  then show ?thesis
    by (simp add: run_runtime_def ConnectivityRuntime_new_def ConnectivityRuntime_config_def
        ConnectivityRuntime_isConnected_def)
next
  case (snoc cs' c)
  have "rt_config (run_runtime cs' (ConnectivityRuntime_new config)) = config"
    by (simp add: run_runtime_config ConnectivityRuntime_new_def)
  with snoc show ?thesis
    by (cases c) (simp_all add: run_runtime_snoc ConnectivityRuntime_connect_def
        ConnectivityRuntime_disconnect_def ConnectivityRuntime_config_def
        ConnectivityRuntime_isConnected_def)
qed

text \<open>Reading the year back out of a description.\<close>

definition read_year :: "string \<Rightarrow> int" where
  "read_year s = read_int (rev (takeWhile (\<lambda>c. c \<noteq> CHR ''('') (tl (rev s))))"

text \<open>The year of a vehicle, negative or not, can be read back from its description, whatever
  characters make and model contain.\<close>

theorem describe_year_roundtrip:
  "read_year (Vehicle_describe v) = vh_year v"
proof -
  have ne: "CHR ''('' \<notin> set (to_string (vh_year v))"
  proof
    assume "CHR ''('' \<in> set (to_string (vh_year v))"
    then have "is_digit (CHR ''('') \<or> CHR ''('' = CHR ''-''"
      unfolding to_string_def by (rule show_int_chars)
    then show False by (simp add: is_digit_def)
  qed
  have "tl (rev (Vehicle_describe v)) =
      rev (to_string (vh_year v)) @ CHR ''('' # rev (vh_make v @ '' '' @ vh_model v @ '' '')"
    by (simp add: Vehicle_describe_def)
  moreover have "takeWhile (\<lambda>c. c \<noteq> CHR ''('') (rev (to_string (vh_year v)) @ CHR ''('' #
      rev (vh_make v @ '' '' @ vh_model v @ '' '')) = rev (to_string (vh_year v))"
    using ne by (intro takeWhile_append_stop) auto
  ultimately show ?thesis by (simp only: read_year_def rev_rev_ident read_to_string)
qed

end
