(* ===== verification/CommonAPI_Types.thy ===== *)
theory CommonAPI_Types
  imports Cxx_Format
begin

text \<open>
  What the CommonAPI SOME/IP bindings of \<open>generated/\<close> share: the values they pass, the three
  interfaces of \<open>fidl/\<close> with their methods and signatures, and the part of the CommonAPI runtime that
  they call. The runtime is not in the repository: it is a record of operations, a parameter of the
  model.
\<close>

section \<open>Values and types\<close>

datatype capi_value = VBool bool | VString string | VU16 u16 | VDouble double

datatype capi_type = TBool | TString | TU16 | TDouble

fun value_type :: "capi_value \<Rightarrow> capi_type" where
  "value_type (VBool b) = TBool"
| "value_type (VString s) = TString"
| "value_type (VU16 n) = TU16"
| "value_type (VDouble d) = TDouble"

definition has_types :: "capi_value list \<Rightarrow> capi_type list \<Rightarrow> bool" where
  "has_types vs ts \<longleftrightarrow> map value_type vs = ts"

lemma value_type_simps [simp]:
  "value_type v = TBool \<longleftrightarrow> (\<exists>b. v = VBool b)" "value_type v = TString \<longleftrightarrow> (\<exists>s. v = VString s)"
  "value_type v = TU16 \<longleftrightarrow> (\<exists>n. v = VU16 n)" "value_type v = TDouble \<longleftrightarrow> (\<exists>d. v = VDouble d)"
  by (cases v; simp)+

lemma has_types_simps [simp]:
  "has_types [] ts \<longleftrightarrow> ts = []" "has_types vs [] \<longleftrightarrow> vs = []"
  "has_types (v # vs) (t # ts) \<longleftrightarrow> value_type v = t \<and> has_types vs ts"
  by (auto simp: has_types_def)

lemma has_types_Cons: "has_types vs (t # ts) \<longleftrightarrow> (\<exists>v us. vs = v # us \<and> value_type v = t \<and> has_types us ts)"
  by (cases vs) (auto simp: has_types_def)

text \<open>\<open>getValue\<close> of the results of a signature. The runtime keeps number and types of the values it
  is given, so the last equation of each function is never reached.\<close>

fun bool_value :: "capi_value \<Rightarrow> bool" where
  "bool_value (VBool b) = b"
| "bool_value v = False"

fun string_value :: "capi_value \<Rightarrow> string" where
  "string_value (VString s) = s"
| "string_value v = []"

fun u16_value :: "capi_value \<Rightarrow> u16" where
  "u16_value (VU16 n) = n"
| "u16_value v = 0"

definition zero_double :: double where
  "zero_double = Fin False 0 0"

fun double_value :: "capi_value \<Rightarrow> double" where
  "double_value (VDouble d) = d"
| "double_value v = zero_double"

fun reply_bool_string :: "capi_value list \<Rightarrow> bool \<times> string" where
  "reply_bool_string [s, m] = (bool_value s, string_value m)"
| "reply_bool_string vs = (False, [])"

fun reply_u16 :: "capi_value list \<Rightarrow> u16" where
  "reply_u16 [v] = u16_value v"
| "reply_u16 vs = 0"

fun reply_double :: "capi_value list \<Rightarrow> double" where
  "reply_double [v] = double_value v"
| "reply_double vs = zero_double"

section \<open>The interfaces\<close>

text \<open>Name and version, as the interface classes report them.\<close>

definition connectivity_interface :: "string \<times> (u16 \<times> u16)" where
  "connectivity_interface = (''connectivity.ConnectivityService:v1_0'', (1, 0))"

definition diagnostics_interface :: "string \<times> (u16 \<times> u16)" where
  "diagnostics_interface = (''diagnostics.DiagnosticsService:v1_0'', (1, 0))"

definition vehicle_interface :: "string \<times> (u16 \<times> u16)" where
  "vehicle_interface = (''vehicle.VehicleSignalService:v1_0'', (1, 0))"

text \<open>The interface description: methods with their argument and result types (\<open>fidl/*.fidl\<close>) and
  their identifiers (\<open>fidl/ConnectedVehiclePlatform.fdepl\<close>).\<close>

datatype binding = ConnectivityBinding | DiagnosticsBinding | VehicleBinding

datatype fidl_method =
  F_connect | F_disconnect | F_publishDiagnostic | F_getSpeed | F_getBatteryVoltage

fun connectivity_fidl :: "fidl_method \<Rightarrow> (capi_type list \<times> capi_type list) option" where
  "connectivity_fidl F_connect = Some ([TString, TU16, TString], [TBool, TString])"
| "connectivity_fidl F_disconnect = Some ([], [TBool, TString])"
| "connectivity_fidl m = None"

fun diagnostics_fidl :: "fidl_method \<Rightarrow> (capi_type list \<times> capi_type list) option" where
  "diagnostics_fidl F_publishDiagnostic = Some ([TString, TString, TString], [TBool, TString])"
| "diagnostics_fidl m = None"

fun vehicle_fidl :: "fidl_method \<Rightarrow> (capi_type list \<times> capi_type list) option" where
  "vehicle_fidl F_getSpeed = Some ([], [TU16])"
| "vehicle_fidl F_getBatteryVoltage = Some ([], [TDouble])"
| "vehicle_fidl m = None"

definition signal_changed_fidl :: "capi_type list" where
  "signal_changed_fidl = [TU16, TDouble]"

fun fdepl_method_id :: "fidl_method \<Rightarrow> u16" where
  "fdepl_method_id F_connect = 0x1001"
| "fdepl_method_id F_disconnect = 0x1002"
| "fdepl_method_id F_publishDiagnostic = 0x1003"
| "fdepl_method_id F_getSpeed = 0x1004"
| "fdepl_method_id F_getBatteryVoltage = 0x1005"

fun fidl_of :: "binding \<Rightarrow> fidl_method \<Rightarrow> (capi_type list \<times> capi_type list) option" where
  "fidl_of ConnectivityBinding = connectivity_fidl"
| "fidl_of DiagnosticsBinding = diagnostics_fidl"
| "fidl_of VehicleBinding = vehicle_fidl"

section \<open>The runtime\<close>

text \<open>A call names the method identifier and two flags, whether the transport is reliable and whether
  the payload is little endian. \<open>call_with_reply\<close> gets the call information, the arguments and the
  initial values of the results, and gives the status and the results; \<open>call_async\<close> also gets the
  function that is called with the reply, and returns a future. The fields \<open>unset_\<close> are the values a
  \<open>Deployable\<close> holds before it is set. The call status is the runtime's type \<open>'st\<close>; addresses,
  events, futures and call information are of type \<open>'x\<close>: the bindings only pass them on.\<close>

type_synonym call_target = "u16 \<times> bool \<times> bool"

record ('st, 'x, 'w) capi_runtime =
  call_with_reply :: "call_target \<Rightarrow> 'x \<Rightarrow> capi_value list \<Rightarrow> capi_value list \<Rightarrow> 'w
    \<Rightarrow> 'st \<times> capi_value list \<times> 'w"
  call_async :: "call_target \<Rightarrow> 'x \<Rightarrow> capi_value list \<Rightarrow> capi_value list
    \<Rightarrow> ('st \<Rightarrow> capi_value list \<Rightarrow> 'w \<Rightarrow> 'w) \<Rightarrow> 'w \<Rightarrow> 'x \<times> 'w"
  default_call_info :: 'x
  unset_bool :: bool
  unset_string :: string
  unset_u16 :: u16
  unset_double :: double

text \<open>The functions of the runtime's proxy class that the generated classes inherit.\<close>

record ('x, 'w) capi_proxy_base =
  pb_address :: 'x
  pb_isAvailable :: "'w \<Rightarrow> bool \<times> 'w"
  pb_isAvailableBlocking :: "'w \<Rightarrow> bool \<times> 'w"
  pb_statusEvent :: 'x
  pb_versionAttribute :: 'x
  pb_completionFuture :: "'w \<Rightarrow> 'x \<times> 'w"

text \<open>Named values of the runtime that describe an event.\<close>

record 'x event_constants =
  undefined_eventgroup :: u16
  et_event :: 'x
  rt_unreliable :: 'x

end
