(* ===== verification/CommonAPI_Proxies.thy ===== *)
theory CommonAPI_Proxies
  imports CommonAPI_Types
begin

text \<open>
  The client side of \<open>generated/\<close>: the abstract proxy classes (\<open>src-gen/*ProxyBase.hpp\<close>) as records of
  their virtual functions, the SOME/IP proxies that implement them (\<open>proxy/\<close>), and the class
  templates an application uses (\<open>src-gen/*Proxy.hpp\<close>), which forward every call to a delegate.
\<close>

section \<open>The abstract proxies\<close>

text \<open>A synchronous call returns status and results; an asynchronous one takes a callback, which may
  be null, and returns a future. A null \<open>CallInfo\<close> is \<open>None\<close>.\<close>

record 'x event_wrapper =
  ew_group :: u16
  ew_event :: u16
  ew_type :: 'x
  ew_reliability :: 'x
  ew_little_endian :: bool
  ew_args :: "capi_type list"

record ('st, 'x, 'w) connectivity_proxy =
  cp_base :: "('x, 'w) capi_proxy_base"
  cp_connect :: "string \<Rightarrow> u16 \<Rightarrow> string \<Rightarrow> 'x option \<Rightarrow> 'w \<Rightarrow> ('st \<times> bool \<times> string) \<times> 'w"
  cp_connectAsync :: "string \<Rightarrow> u16 \<Rightarrow> string \<Rightarrow> ('st \<Rightarrow> bool \<Rightarrow> string \<Rightarrow> 'w \<Rightarrow> 'w) option
    \<Rightarrow> 'x option \<Rightarrow> 'w \<Rightarrow> 'x \<times> 'w"
  cp_disconnect :: "'x option \<Rightarrow> 'w \<Rightarrow> ('st \<times> bool \<times> string) \<times> 'w"
  cp_disconnectAsync :: "('st \<Rightarrow> bool \<Rightarrow> string \<Rightarrow> 'w \<Rightarrow> 'w) option \<Rightarrow> 'x option \<Rightarrow> 'w \<Rightarrow> 'x \<times> 'w"
  cp_getCompletionFuture :: "'w \<Rightarrow> 'x \<times> 'w"

record ('st, 'x, 'w) diagnostics_proxy =
  dp_base :: "('x, 'w) capi_proxy_base"
  dp_publishDiagnostic :: "string \<Rightarrow> string \<Rightarrow> string \<Rightarrow> 'x option \<Rightarrow> 'w
    \<Rightarrow> ('st \<times> bool \<times> string) \<times> 'w"
  dp_publishDiagnosticAsync :: "string \<Rightarrow> string \<Rightarrow> string
    \<Rightarrow> ('st \<Rightarrow> bool \<Rightarrow> string \<Rightarrow> 'w \<Rightarrow> 'w) option \<Rightarrow> 'x option \<Rightarrow> 'w \<Rightarrow> 'x \<times> 'w"
  dp_getCompletionFuture :: "'w \<Rightarrow> 'x \<times> 'w"

record ('st, 'x, 'w) vehicle_proxy =
  vp_base :: "('x, 'w) capi_proxy_base"
  vp_getSpeed :: "'x option \<Rightarrow> 'w \<Rightarrow> ('st \<times> u16) \<times> 'w"
  vp_getSpeedAsync :: "('st \<Rightarrow> u16 \<Rightarrow> 'w \<Rightarrow> 'w) option \<Rightarrow> 'x option \<Rightarrow> 'w \<Rightarrow> 'x \<times> 'w"
  vp_getBatteryVoltage :: "'x option \<Rightarrow> 'w \<Rightarrow> ('st \<times> double) \<times> 'w"
  vp_getBatteryVoltageAsync :: "('st \<Rightarrow> double \<Rightarrow> 'w \<Rightarrow> 'w) option \<Rightarrow> 'x option \<Rightarrow> 'w \<Rightarrow> 'x \<times> 'w"
  vp_getSignalChangedEvent :: "'x event_wrapper"
  vp_getCompletionFuture :: "'w \<Rightarrow> 'x \<times> 'w"

section \<open>The SOME/IP proxies\<close>

definition info_or_default :: "('st, 'x, 'w) capi_runtime \<Rightarrow> 'x option \<Rightarrow> 'x" where
  "info_or_default R info = (case info of Some i \<Rightarrow> i | None \<Rightarrow> default_call_info R)"

definition SomeIPProxy_connect ::
  "('st, 'x, 'w) capi_runtime \<Rightarrow> string \<Rightarrow> u16 \<Rightarrow> string \<Rightarrow> 'x option \<Rightarrow> 'w
    \<Rightarrow> ('st \<times> bool \<times> string) \<times> 'w" where
  "SomeIPProxy_connect R brokerHost brokerPort clientId info w =
     (case call_with_reply R (0x1001, False, False) (info_or_default R info)
        [VString brokerHost, VU16 brokerPort, VString clientId]
        [VBool (unset_bool R), VString (unset_string R)] w of
        (status, outs, w') \<Rightarrow> ((status, reply_bool_string outs), w'))"

definition SomeIPProxy_connectAsync ::
  "('st, 'x, 'w) capi_runtime \<Rightarrow> string \<Rightarrow> u16 \<Rightarrow> string \<Rightarrow> ('st \<Rightarrow> bool \<Rightarrow> string \<Rightarrow> 'w \<Rightarrow> 'w) option
    \<Rightarrow> 'x option \<Rightarrow> 'w \<Rightarrow> 'x \<times> 'w" where
  "SomeIPProxy_connectAsync R brokerHost brokerPort clientId callback info w =
     call_async R (0x1001, False, False) (info_or_default R info)
       [VString brokerHost, VU16 brokerPort, VString clientId]
       [VBool (unset_bool R), VString (unset_string R)]
       (\<lambda>status outs w. case callback of
          Some f \<Rightarrow> (case reply_bool_string outs of (success, message) \<Rightarrow> f status success message w)
        | None \<Rightarrow> w) w"

definition SomeIPProxy_disconnect ::
  "('st, 'x, 'w) capi_runtime \<Rightarrow> 'x option \<Rightarrow> 'w \<Rightarrow> ('st \<times> bool \<times> string) \<times> 'w" where
  "SomeIPProxy_disconnect R info w =
     (case call_with_reply R (0x1002, False, False) (info_or_default R info) []
        [VBool (unset_bool R), VString (unset_string R)] w of
        (status, outs, w') \<Rightarrow> ((status, reply_bool_string outs), w'))"

definition SomeIPProxy_disconnectAsync ::
  "('st, 'x, 'w) capi_runtime \<Rightarrow> ('st \<Rightarrow> bool \<Rightarrow> string \<Rightarrow> 'w \<Rightarrow> 'w) option \<Rightarrow> 'x option \<Rightarrow> 'w
    \<Rightarrow> 'x \<times> 'w" where
  "SomeIPProxy_disconnectAsync R callback info w =
     call_async R (0x1002, False, False) (info_or_default R info) []
       [VBool (unset_bool R), VString (unset_string R)]
       (\<lambda>status outs w. case callback of
          Some f \<Rightarrow> (case reply_bool_string outs of (success, message) \<Rightarrow> f status success message w)
        | None \<Rightarrow> w) w"

definition SomeIPProxy_publishDiagnostic ::
  "('st, 'x, 'w) capi_runtime \<Rightarrow> string \<Rightarrow> string \<Rightarrow> string \<Rightarrow> 'x option \<Rightarrow> 'w
    \<Rightarrow> ('st \<times> bool \<times> string) \<times> 'w" where
  "SomeIPProxy_publishDiagnostic R code severity detail info w =
     (case call_with_reply R (0x1003, False, False) (info_or_default R info)
        [VString code, VString severity, VString detail]
        [VBool (unset_bool R), VString (unset_string R)] w of
        (status, outs, w') \<Rightarrow> ((status, reply_bool_string outs), w'))"

definition SomeIPProxy_publishDiagnosticAsync ::
  "('st, 'x, 'w) capi_runtime \<Rightarrow> string \<Rightarrow> string \<Rightarrow> string
    \<Rightarrow> ('st \<Rightarrow> bool \<Rightarrow> string \<Rightarrow> 'w \<Rightarrow> 'w) option \<Rightarrow> 'x option \<Rightarrow> 'w \<Rightarrow> 'x \<times> 'w" where
  "SomeIPProxy_publishDiagnosticAsync R code severity detail callback info w =
     call_async R (0x1003, False, False) (info_or_default R info)
       [VString code, VString severity, VString detail]
       [VBool (unset_bool R), VString (unset_string R)]
       (\<lambda>status outs w. case callback of
          Some f \<Rightarrow> (case reply_bool_string outs of (success, message) \<Rightarrow> f status success message w)
        | None \<Rightarrow> w) w"

definition SomeIPProxy_getSpeed ::
  "('st, 'x, 'w) capi_runtime \<Rightarrow> 'x option \<Rightarrow> 'w \<Rightarrow> ('st \<times> u16) \<times> 'w" where
  "SomeIPProxy_getSpeed R info w =
     (case call_with_reply R (0x1004, False, False) (info_or_default R info) []
        [VU16 (unset_u16 R)] w of
        (status, outs, w') \<Rightarrow> ((status, reply_u16 outs), w'))"

definition SomeIPProxy_getSpeedAsync ::
  "('st, 'x, 'w) capi_runtime \<Rightarrow> ('st \<Rightarrow> u16 \<Rightarrow> 'w \<Rightarrow> 'w) option \<Rightarrow> 'x option \<Rightarrow> 'w \<Rightarrow> 'x \<times> 'w" where
  "SomeIPProxy_getSpeedAsync R callback info w =
     call_async R (0x1004, False, False) (info_or_default R info) [] [VU16 (unset_u16 R)]
       (\<lambda>status outs w. case callback of Some f \<Rightarrow> f status (reply_u16 outs) w | None \<Rightarrow> w) w"

definition SomeIPProxy_getBatteryVoltage ::
  "('st, 'x, 'w) capi_runtime \<Rightarrow> 'x option \<Rightarrow> 'w \<Rightarrow> ('st \<times> double) \<times> 'w" where
  "SomeIPProxy_getBatteryVoltage R info w =
     (case call_with_reply R (0x1005, False, False) (info_or_default R info) []
        [VDouble (unset_double R)] w of
        (status, outs, w') \<Rightarrow> ((status, reply_double outs), w'))"

definition SomeIPProxy_getBatteryVoltageAsync ::
  "('st, 'x, 'w) capi_runtime \<Rightarrow> ('st \<Rightarrow> double \<Rightarrow> 'w \<Rightarrow> 'w) option \<Rightarrow> 'x option \<Rightarrow> 'w \<Rightarrow> 'x \<times> 'w" where
  "SomeIPProxy_getBatteryVoltageAsync R callback info w =
     call_async R (0x1005, False, False) (info_or_default R info) [] [VDouble (unset_double R)]
       (\<lambda>status outs w. case callback of Some f \<Rightarrow> f status (reply_double outs) w | None \<Rightarrow> w) w"

text \<open>The event the vehicle proxy listens to, as its constructor sets it up.\<close>

definition SomeIPProxy_signalChanged :: "'x event_constants \<Rightarrow> 'x event_wrapper" where
  "SomeIPProxy_signalChanged K =
     \<lparr>ew_group = undefined_eventgroup K, ew_event = 0x2001, ew_type = et_event K,
      ew_reliability = rt_unreliable K, ew_little_endian = False, ew_args = [TU16, TDouble]\<rparr>"

text \<open>\<open>getOwnVersion\<close> of the three proxies.\<close>

definition ConnectivityServiceSomeIPProxy_getOwnVersion :: "u16 \<times> u16" where
  "ConnectivityServiceSomeIPProxy_getOwnVersion = (1, 0)"

definition DiagnosticsServiceSomeIPProxy_getOwnVersion :: "u16 \<times> u16" where
  "DiagnosticsServiceSomeIPProxy_getOwnVersion = (1, 0)"

definition VehicleSignalServiceSomeIPProxy_getOwnVersion :: "u16 \<times> u16" where
  "VehicleSignalServiceSomeIPProxy_getOwnVersion = (1, 0)"

text \<open>\<open>getCompletionFuture\<close> calls the base class.\<close>

definition ConnectivityServiceSomeIPProxy_getCompletionFuture ::
  "('x, 'w) capi_proxy_base \<Rightarrow> 'w \<Rightarrow> 'x \<times> 'w" where
  "ConnectivityServiceSomeIPProxy_getCompletionFuture B w = pb_completionFuture B w"

definition DiagnosticsServiceSomeIPProxy_getCompletionFuture ::
  "('x, 'w) capi_proxy_base \<Rightarrow> 'w \<Rightarrow> 'x \<times> 'w" where
  "DiagnosticsServiceSomeIPProxy_getCompletionFuture B w = pb_completionFuture B w"

definition VehicleSignalServiceSomeIPProxy_getCompletionFuture ::
  "('x, 'w) capi_proxy_base \<Rightarrow> 'w \<Rightarrow> 'x \<times> 'w" where
  "VehicleSignalServiceSomeIPProxy_getCompletionFuture B w = pb_completionFuture B w"

text \<open>The classes: the operations above behind the abstract proxies.\<close>

definition ConnectivityServiceSomeIPProxy ::
  "('st, 'x, 'w) capi_runtime \<Rightarrow> ('x, 'w) capi_proxy_base \<Rightarrow> ('st, 'x, 'w) connectivity_proxy" where
  "ConnectivityServiceSomeIPProxy R B =
     \<lparr>cp_base = B, cp_connect = SomeIPProxy_connect R, cp_connectAsync = SomeIPProxy_connectAsync R,
      cp_disconnect = SomeIPProxy_disconnect R, cp_disconnectAsync = SomeIPProxy_disconnectAsync R,
      cp_getCompletionFuture = ConnectivityServiceSomeIPProxy_getCompletionFuture B\<rparr>"

definition DiagnosticsServiceSomeIPProxy ::
  "('st, 'x, 'w) capi_runtime \<Rightarrow> ('x, 'w) capi_proxy_base \<Rightarrow> ('st, 'x, 'w) diagnostics_proxy" where
  "DiagnosticsServiceSomeIPProxy R B =
     \<lparr>dp_base = B, dp_publishDiagnostic = SomeIPProxy_publishDiagnostic R,
      dp_publishDiagnosticAsync = SomeIPProxy_publishDiagnosticAsync R,
      dp_getCompletionFuture = DiagnosticsServiceSomeIPProxy_getCompletionFuture B\<rparr>"

definition VehicleSignalServiceSomeIPProxy ::
  "('st, 'x, 'w) capi_runtime \<Rightarrow> 'x event_constants \<Rightarrow> ('x, 'w) capi_proxy_base
    \<Rightarrow> ('st, 'x, 'w) vehicle_proxy" where
  "VehicleSignalServiceSomeIPProxy R K B =
     \<lparr>vp_base = B, vp_getSpeed = SomeIPProxy_getSpeed R, vp_getSpeedAsync = SomeIPProxy_getSpeedAsync R,
      vp_getBatteryVoltage = SomeIPProxy_getBatteryVoltage R,
      vp_getBatteryVoltageAsync = SomeIPProxy_getBatteryVoltageAsync R,
      vp_getSignalChangedEvent = SomeIPProxy_signalChanged K,
      vp_getCompletionFuture = VehicleSignalServiceSomeIPProxy_getCompletionFuture B\<rparr>"

lemmas someip_proxy_defs = ConnectivityServiceSomeIPProxy_def DiagnosticsServiceSomeIPProxy_def
  VehicleSignalServiceSomeIPProxy_def

lemmas proxy_defs = SomeIPProxy_connect_def SomeIPProxy_disconnect_def
  SomeIPProxy_publishDiagnostic_def SomeIPProxy_getSpeed_def SomeIPProxy_getBatteryVoltage_def

lemmas proxy_async_defs = SomeIPProxy_connectAsync_def SomeIPProxy_disconnectAsync_def
  SomeIPProxy_publishDiagnosticAsync_def SomeIPProxy_getSpeedAsync_def
  SomeIPProxy_getBatteryVoltageAsync_def

section \<open>The delegating proxies\<close>

text \<open>The runtime hands the constructor a pointer to its own base class; the constructor casts it to
  the abstract proxy of the interface. The object behind the pointer is of one of the generated
  classes or of a foreign one. A cast to another class gives a null delegate, and a call through it
  is undefined: \<open>None\<close>.\<close>

datatype ('st, 'x, 'w) dyn_proxy =
    DynConnectivity "('st, 'x, 'w) connectivity_proxy"
  | DynDiagnostics "('st, 'x, 'w) diagnostics_proxy"
  | DynVehicle "('st, 'x, 'w) vehicle_proxy"
  | DynForeign

fun as_connectivity :: "('st, 'x, 'w) dyn_proxy \<Rightarrow> ('st, 'x, 'w) connectivity_proxy option" where
  "as_connectivity (DynConnectivity d) = Some d"
| "as_connectivity p = None"

fun as_diagnostics :: "('st, 'x, 'w) dyn_proxy \<Rightarrow> ('st, 'x, 'w) diagnostics_proxy option" where
  "as_diagnostics (DynDiagnostics d) = Some d"
| "as_diagnostics p = None"

fun as_vehicle :: "('st, 'x, 'w) dyn_proxy \<Rightarrow> ('st, 'x, 'w) vehicle_proxy option" where
  "as_vehicle (DynVehicle d) = Some d"
| "as_vehicle p = None"

record 'd delegating =
  dg_delegate :: "'d option"

subsection \<open>\<open>ConnectivityServiceProxy\<close>\<close>

definition ConnectivityServiceProxy_new ::
  "('st, 'x, 'w) dyn_proxy \<Rightarrow> ('st, 'x, 'w) connectivity_proxy delegating" where
  "ConnectivityServiceProxy_new delegate = \<lparr>dg_delegate = as_connectivity delegate\<rparr>"

definition ConnectivityServiceProxy_connect ::
  "('st, 'x, 'w) connectivity_proxy delegating \<Rightarrow> string \<Rightarrow> u16 \<Rightarrow> string \<Rightarrow> 'x option \<Rightarrow> 'w
    \<Rightarrow> (('st \<times> bool \<times> string) \<times> 'w) option" where
  "ConnectivityServiceProxy_connect p brokerHost brokerPort clientId info w =
     map_option (\<lambda>d. cp_connect d brokerHost brokerPort clientId info w) (dg_delegate p)"

definition ConnectivityServiceProxy_connectAsync ::
  "('st, 'x, 'w) connectivity_proxy delegating \<Rightarrow> string \<Rightarrow> u16 \<Rightarrow> string
    \<Rightarrow> ('st \<Rightarrow> bool \<Rightarrow> string \<Rightarrow> 'w \<Rightarrow> 'w) option \<Rightarrow> 'x option \<Rightarrow> 'w \<Rightarrow> ('x \<times> 'w) option" where
  "ConnectivityServiceProxy_connectAsync p brokerHost brokerPort clientId callback info w =
     map_option (\<lambda>d. cp_connectAsync d brokerHost brokerPort clientId callback info w) (dg_delegate p)"

definition ConnectivityServiceProxy_disconnect ::
  "('st, 'x, 'w) connectivity_proxy delegating \<Rightarrow> 'x option \<Rightarrow> 'w
    \<Rightarrow> (('st \<times> bool \<times> string) \<times> 'w) option" where
  "ConnectivityServiceProxy_disconnect p info w =
     map_option (\<lambda>d. cp_disconnect d info w) (dg_delegate p)"

definition ConnectivityServiceProxy_disconnectAsync ::
  "('st, 'x, 'w) connectivity_proxy delegating \<Rightarrow> ('st \<Rightarrow> bool \<Rightarrow> string \<Rightarrow> 'w \<Rightarrow> 'w) option
    \<Rightarrow> 'x option \<Rightarrow> 'w \<Rightarrow> ('x \<times> 'w) option" where
  "ConnectivityServiceProxy_disconnectAsync p callback info w =
     map_option (\<lambda>d. cp_disconnectAsync d callback info w) (dg_delegate p)"

definition ConnectivityServiceProxy_getAddress ::
  "('st, 'x, 'w) connectivity_proxy delegating \<Rightarrow> 'x option" where
  "ConnectivityServiceProxy_getAddress p = map_option (\<lambda>d. pb_address (cp_base d)) (dg_delegate p)"

definition ConnectivityServiceProxy_isAvailable ::
  "('st, 'x, 'w) connectivity_proxy delegating \<Rightarrow> 'w \<Rightarrow> (bool \<times> 'w) option" where
  "ConnectivityServiceProxy_isAvailable p w =
     map_option (\<lambda>d. pb_isAvailable (cp_base d) w) (dg_delegate p)"

definition ConnectivityServiceProxy_isAvailableBlocking ::
  "('st, 'x, 'w) connectivity_proxy delegating \<Rightarrow> 'w \<Rightarrow> (bool \<times> 'w) option" where
  "ConnectivityServiceProxy_isAvailableBlocking p w =
     map_option (\<lambda>d. pb_isAvailableBlocking (cp_base d) w) (dg_delegate p)"

definition ConnectivityServiceProxy_getProxyStatusEvent ::
  "('st, 'x, 'w) connectivity_proxy delegating \<Rightarrow> 'x option" where
  "ConnectivityServiceProxy_getProxyStatusEvent p =
     map_option (\<lambda>d. pb_statusEvent (cp_base d)) (dg_delegate p)"

definition ConnectivityServiceProxy_getInterfaceVersionAttribute ::
  "('st, 'x, 'w) connectivity_proxy delegating \<Rightarrow> 'x option" where
  "ConnectivityServiceProxy_getInterfaceVersionAttribute p =
     map_option (\<lambda>d. pb_versionAttribute (cp_base d)) (dg_delegate p)"

definition ConnectivityServiceProxy_getCompletionFuture ::
  "('st, 'x, 'w) connectivity_proxy delegating \<Rightarrow> 'w \<Rightarrow> ('x \<times> 'w) option" where
  "ConnectivityServiceProxy_getCompletionFuture p w =
     map_option (\<lambda>d. cp_getCompletionFuture d w) (dg_delegate p)"

subsection \<open>\<open>DiagnosticsServiceProxy\<close>\<close>

definition DiagnosticsServiceProxy_new ::
  "('st, 'x, 'w) dyn_proxy \<Rightarrow> ('st, 'x, 'w) diagnostics_proxy delegating" where
  "DiagnosticsServiceProxy_new delegate = \<lparr>dg_delegate = as_diagnostics delegate\<rparr>"

definition DiagnosticsServiceProxy_publishDiagnostic ::
  "('st, 'x, 'w) diagnostics_proxy delegating \<Rightarrow> string \<Rightarrow> string \<Rightarrow> string \<Rightarrow> 'x option \<Rightarrow> 'w
    \<Rightarrow> (('st \<times> bool \<times> string) \<times> 'w) option" where
  "DiagnosticsServiceProxy_publishDiagnostic p code severity detail info w =
     map_option (\<lambda>d. dp_publishDiagnostic d code severity detail info w) (dg_delegate p)"

definition DiagnosticsServiceProxy_publishDiagnosticAsync ::
  "('st, 'x, 'w) diagnostics_proxy delegating \<Rightarrow> string \<Rightarrow> string \<Rightarrow> string
    \<Rightarrow> ('st \<Rightarrow> bool \<Rightarrow> string \<Rightarrow> 'w \<Rightarrow> 'w) option \<Rightarrow> 'x option \<Rightarrow> 'w \<Rightarrow> ('x \<times> 'w) option" where
  "DiagnosticsServiceProxy_publishDiagnosticAsync p code severity detail callback info w =
     map_option (\<lambda>d. dp_publishDiagnosticAsync d code severity detail callback info w) (dg_delegate p)"

definition DiagnosticsServiceProxy_getAddress ::
  "('st, 'x, 'w) diagnostics_proxy delegating \<Rightarrow> 'x option" where
  "DiagnosticsServiceProxy_getAddress p = map_option (\<lambda>d. pb_address (dp_base d)) (dg_delegate p)"

definition DiagnosticsServiceProxy_isAvailable ::
  "('st, 'x, 'w) diagnostics_proxy delegating \<Rightarrow> 'w \<Rightarrow> (bool \<times> 'w) option" where
  "DiagnosticsServiceProxy_isAvailable p w =
     map_option (\<lambda>d. pb_isAvailable (dp_base d) w) (dg_delegate p)"

definition DiagnosticsServiceProxy_isAvailableBlocking ::
  "('st, 'x, 'w) diagnostics_proxy delegating \<Rightarrow> 'w \<Rightarrow> (bool \<times> 'w) option" where
  "DiagnosticsServiceProxy_isAvailableBlocking p w =
     map_option (\<lambda>d. pb_isAvailableBlocking (dp_base d) w) (dg_delegate p)"

definition DiagnosticsServiceProxy_getProxyStatusEvent ::
  "('st, 'x, 'w) diagnostics_proxy delegating \<Rightarrow> 'x option" where
  "DiagnosticsServiceProxy_getProxyStatusEvent p =
     map_option (\<lambda>d. pb_statusEvent (dp_base d)) (dg_delegate p)"

definition DiagnosticsServiceProxy_getInterfaceVersionAttribute ::
  "('st, 'x, 'w) diagnostics_proxy delegating \<Rightarrow> 'x option" where
  "DiagnosticsServiceProxy_getInterfaceVersionAttribute p =
     map_option (\<lambda>d. pb_versionAttribute (dp_base d)) (dg_delegate p)"

definition DiagnosticsServiceProxy_getCompletionFuture ::
  "('st, 'x, 'w) diagnostics_proxy delegating \<Rightarrow> 'w \<Rightarrow> ('x \<times> 'w) option" where
  "DiagnosticsServiceProxy_getCompletionFuture p w =
     map_option (\<lambda>d. dp_getCompletionFuture d w) (dg_delegate p)"

subsection \<open>\<open>VehicleSignalServiceProxy\<close>\<close>

definition VehicleSignalServiceProxy_new ::
  "('st, 'x, 'w) dyn_proxy \<Rightarrow> ('st, 'x, 'w) vehicle_proxy delegating" where
  "VehicleSignalServiceProxy_new delegate = \<lparr>dg_delegate = as_vehicle delegate\<rparr>"

definition VehicleSignalServiceProxy_getSpeed ::
  "('st, 'x, 'w) vehicle_proxy delegating \<Rightarrow> 'x option \<Rightarrow> 'w \<Rightarrow> (('st \<times> u16) \<times> 'w) option" where
  "VehicleSignalServiceProxy_getSpeed p info w = map_option (\<lambda>d. vp_getSpeed d info w) (dg_delegate p)"

definition VehicleSignalServiceProxy_getSpeedAsync ::
  "('st, 'x, 'w) vehicle_proxy delegating \<Rightarrow> ('st \<Rightarrow> u16 \<Rightarrow> 'w \<Rightarrow> 'w) option \<Rightarrow> 'x option \<Rightarrow> 'w
    \<Rightarrow> ('x \<times> 'w) option" where
  "VehicleSignalServiceProxy_getSpeedAsync p callback info w =
     map_option (\<lambda>d. vp_getSpeedAsync d callback info w) (dg_delegate p)"

definition VehicleSignalServiceProxy_getBatteryVoltage ::
  "('st, 'x, 'w) vehicle_proxy delegating \<Rightarrow> 'x option \<Rightarrow> 'w \<Rightarrow> (('st \<times> double) \<times> 'w) option" where
  "VehicleSignalServiceProxy_getBatteryVoltage p info w =
     map_option (\<lambda>d. vp_getBatteryVoltage d info w) (dg_delegate p)"

definition VehicleSignalServiceProxy_getBatteryVoltageAsync ::
  "('st, 'x, 'w) vehicle_proxy delegating \<Rightarrow> ('st \<Rightarrow> double \<Rightarrow> 'w \<Rightarrow> 'w) option \<Rightarrow> 'x option \<Rightarrow> 'w
    \<Rightarrow> ('x \<times> 'w) option" where
  "VehicleSignalServiceProxy_getBatteryVoltageAsync p callback info w =
     map_option (\<lambda>d. vp_getBatteryVoltageAsync d callback info w) (dg_delegate p)"

definition VehicleSignalServiceProxy_getSignalChangedEvent ::
  "('st, 'x, 'w) vehicle_proxy delegating \<Rightarrow> 'x event_wrapper option" where
  "VehicleSignalServiceProxy_getSignalChangedEvent p =
     map_option vp_getSignalChangedEvent (dg_delegate p)"

definition VehicleSignalServiceProxy_getAddress ::
  "('st, 'x, 'w) vehicle_proxy delegating \<Rightarrow> 'x option" where
  "VehicleSignalServiceProxy_getAddress p = map_option (\<lambda>d. pb_address (vp_base d)) (dg_delegate p)"

definition VehicleSignalServiceProxy_isAvailable ::
  "('st, 'x, 'w) vehicle_proxy delegating \<Rightarrow> 'w \<Rightarrow> (bool \<times> 'w) option" where
  "VehicleSignalServiceProxy_isAvailable p w =
     map_option (\<lambda>d. pb_isAvailable (vp_base d) w) (dg_delegate p)"

definition VehicleSignalServiceProxy_isAvailableBlocking ::
  "('st, 'x, 'w) vehicle_proxy delegating \<Rightarrow> 'w \<Rightarrow> (bool \<times> 'w) option" where
  "VehicleSignalServiceProxy_isAvailableBlocking p w =
     map_option (\<lambda>d. pb_isAvailableBlocking (vp_base d) w) (dg_delegate p)"

definition VehicleSignalServiceProxy_getProxyStatusEvent ::
  "('st, 'x, 'w) vehicle_proxy delegating \<Rightarrow> 'x option" where
  "VehicleSignalServiceProxy_getProxyStatusEvent p =
     map_option (\<lambda>d. pb_statusEvent (vp_base d)) (dg_delegate p)"

definition VehicleSignalServiceProxy_getInterfaceVersionAttribute ::
  "('st, 'x, 'w) vehicle_proxy delegating \<Rightarrow> 'x option" where
  "VehicleSignalServiceProxy_getInterfaceVersionAttribute p =
     map_option (\<lambda>d. pb_versionAttribute (vp_base d)) (dg_delegate p)"

definition VehicleSignalServiceProxy_getCompletionFuture ::
  "('st, 'x, 'w) vehicle_proxy delegating \<Rightarrow> 'w \<Rightarrow> ('x \<times> 'w) option" where
  "VehicleSignalServiceProxy_getCompletionFuture p w =
     map_option (\<lambda>d. vp_getCompletionFuture d w) (dg_delegate p)"

lemmas delegating_new_defs = ConnectivityServiceProxy_new_def DiagnosticsServiceProxy_new_def
  VehicleSignalServiceProxy_new_def

lemmas delegating_call_defs =
  ConnectivityServiceProxy_connect_def ConnectivityServiceProxy_disconnect_def
  DiagnosticsServiceProxy_publishDiagnostic_def VehicleSignalServiceProxy_getSpeed_def
  VehicleSignalServiceProxy_getBatteryVoltage_def

lemmas delegating_async_defs =
  ConnectivityServiceProxy_connectAsync_def ConnectivityServiceProxy_disconnectAsync_def
  DiagnosticsServiceProxy_publishDiagnosticAsync_def VehicleSignalServiceProxy_getSpeedAsync_def
  VehicleSignalServiceProxy_getBatteryVoltageAsync_def

lemmas delegating_base_defs =
  ConnectivityServiceProxy_getAddress_def
  ConnectivityServiceProxy_isAvailable_def
  ConnectivityServiceProxy_isAvailableBlocking_def
  ConnectivityServiceProxy_getProxyStatusEvent_def
  ConnectivityServiceProxy_getInterfaceVersionAttribute_def
  ConnectivityServiceProxy_getCompletionFuture_def
  DiagnosticsServiceProxy_getAddress_def
  DiagnosticsServiceProxy_isAvailable_def
  DiagnosticsServiceProxy_isAvailableBlocking_def
  DiagnosticsServiceProxy_getProxyStatusEvent_def
  DiagnosticsServiceProxy_getInterfaceVersionAttribute_def
  DiagnosticsServiceProxy_getCompletionFuture_def
  VehicleSignalServiceProxy_getAddress_def
  VehicleSignalServiceProxy_isAvailable_def
  VehicleSignalServiceProxy_isAvailableBlocking_def
  VehicleSignalServiceProxy_getProxyStatusEvent_def
  VehicleSignalServiceProxy_getInterfaceVersionAttribute_def
  VehicleSignalServiceProxy_getCompletionFuture_def
  VehicleSignalServiceProxy_getSignalChangedEvent_def

section \<open>Delegating proxies as proxies\<close>

text \<open>A class template implements the abstract proxy of its interface itself: an object of it, seen
  through a pointer to that class. Without a delegate its functions are undefined.\<close>

definition ConnectivityServiceProxy_object ::
  "('st, 'x, 'w) connectivity_proxy delegating \<Rightarrow> ('st, 'x, 'w) connectivity_proxy option" where
  "ConnectivityServiceProxy_object p =
     (case dg_delegate p of
        None \<Rightarrow> None
      | Some d \<Rightarrow> Some
          \<lparr>cp_base =
             \<lparr>pb_address = the (ConnectivityServiceProxy_getAddress p),
              pb_isAvailable = (\<lambda>w. the (ConnectivityServiceProxy_isAvailable p w)),
              pb_isAvailableBlocking = (\<lambda>w. the (ConnectivityServiceProxy_isAvailableBlocking p w)),
              pb_statusEvent = the (ConnectivityServiceProxy_getProxyStatusEvent p),
              pb_versionAttribute = the (ConnectivityServiceProxy_getInterfaceVersionAttribute p),
              pb_completionFuture = (\<lambda>w. the (ConnectivityServiceProxy_getCompletionFuture p w))\<rparr>,
           cp_connect = (\<lambda>brokerHost brokerPort clientId info w. the (ConnectivityServiceProxy_connect p brokerHost brokerPort clientId info w)),
           cp_connectAsync = (\<lambda>brokerHost brokerPort clientId callback info w. the (ConnectivityServiceProxy_connectAsync p brokerHost brokerPort clientId callback info w)),
           cp_disconnect = (\<lambda>info w. the (ConnectivityServiceProxy_disconnect p info w)),
           cp_disconnectAsync = (\<lambda>callback info w. the (ConnectivityServiceProxy_disconnectAsync p callback info w)),
           cp_getCompletionFuture = (\<lambda>w. the (ConnectivityServiceProxy_getCompletionFuture p w))\<rparr>)"

definition DiagnosticsServiceProxy_object ::
  "('st, 'x, 'w) diagnostics_proxy delegating \<Rightarrow> ('st, 'x, 'w) diagnostics_proxy option" where
  "DiagnosticsServiceProxy_object p =
     (case dg_delegate p of
        None \<Rightarrow> None
      | Some d \<Rightarrow> Some
          \<lparr>dp_base =
             \<lparr>pb_address = the (DiagnosticsServiceProxy_getAddress p),
              pb_isAvailable = (\<lambda>w. the (DiagnosticsServiceProxy_isAvailable p w)),
              pb_isAvailableBlocking = (\<lambda>w. the (DiagnosticsServiceProxy_isAvailableBlocking p w)),
              pb_statusEvent = the (DiagnosticsServiceProxy_getProxyStatusEvent p),
              pb_versionAttribute = the (DiagnosticsServiceProxy_getInterfaceVersionAttribute p),
              pb_completionFuture = (\<lambda>w. the (DiagnosticsServiceProxy_getCompletionFuture p w))\<rparr>,
           dp_publishDiagnostic = (\<lambda>code severity detail info w. the (DiagnosticsServiceProxy_publishDiagnostic p code severity detail info w)),
           dp_publishDiagnosticAsync = (\<lambda>code severity detail callback info w. the (DiagnosticsServiceProxy_publishDiagnosticAsync p code severity detail callback info w)),
           dp_getCompletionFuture = (\<lambda>w. the (DiagnosticsServiceProxy_getCompletionFuture p w))\<rparr>)"

definition VehicleSignalServiceProxy_object ::
  "('st, 'x, 'w) vehicle_proxy delegating \<Rightarrow> ('st, 'x, 'w) vehicle_proxy option" where
  "VehicleSignalServiceProxy_object p =
     (case dg_delegate p of
        None \<Rightarrow> None
      | Some d \<Rightarrow> Some
          \<lparr>vp_base =
             \<lparr>pb_address = the (VehicleSignalServiceProxy_getAddress p),
              pb_isAvailable = (\<lambda>w. the (VehicleSignalServiceProxy_isAvailable p w)),
              pb_isAvailableBlocking = (\<lambda>w. the (VehicleSignalServiceProxy_isAvailableBlocking p w)),
              pb_statusEvent = the (VehicleSignalServiceProxy_getProxyStatusEvent p),
              pb_versionAttribute = the (VehicleSignalServiceProxy_getInterfaceVersionAttribute p),
              pb_completionFuture = (\<lambda>w. the (VehicleSignalServiceProxy_getCompletionFuture p w))\<rparr>,
           vp_getSpeed = (\<lambda>info w. the (VehicleSignalServiceProxy_getSpeed p info w)),
           vp_getSpeedAsync = (\<lambda>callback info w. the (VehicleSignalServiceProxy_getSpeedAsync p callback info w)),
           vp_getBatteryVoltage = (\<lambda>info w. the (VehicleSignalServiceProxy_getBatteryVoltage p info w)),
           vp_getBatteryVoltageAsync = (\<lambda>callback info w. the (VehicleSignalServiceProxy_getBatteryVoltageAsync p callback info w)),
           vp_getSignalChangedEvent = the (VehicleSignalServiceProxy_getSignalChangedEvent p),
           vp_getCompletionFuture = (\<lambda>w. the (VehicleSignalServiceProxy_getCompletionFuture p w))\<rparr>)"

lemmas object_defs = ConnectivityServiceProxy_object_def DiagnosticsServiceProxy_object_def
  VehicleSignalServiceProxy_object_def

text \<open>A delegating proxy is its delegate, if that completes as its base does.\<close>

lemma connectivity_object:
  assumes "pb_completionFuture (cp_base d) = cp_getCompletionFuture d"
  shows "ConnectivityServiceProxy_object (ConnectivityServiceProxy_new (DynConnectivity d)) = Some d"
proof -
  have "cp_base d = \<lparr>pb_address = pb_address (cp_base d), pb_isAvailable = pb_isAvailable (cp_base d),
      pb_isAvailableBlocking = pb_isAvailableBlocking (cp_base d), pb_statusEvent = pb_statusEvent (cp_base d),
      pb_versionAttribute = pb_versionAttribute (cp_base d), pb_completionFuture = cp_getCompletionFuture d\<rparr>"
    unfolding assms [symmetric] by simp
  then show ?thesis
    by (cases d) (simp add: object_defs delegating_new_defs delegating_call_defs delegating_async_defs
        delegating_base_defs)
qed

lemma diagnostics_object:
  assumes "pb_completionFuture (dp_base d) = dp_getCompletionFuture d"
  shows "DiagnosticsServiceProxy_object (DiagnosticsServiceProxy_new (DynDiagnostics d)) = Some d"
proof -
  have "dp_base d = \<lparr>pb_address = pb_address (dp_base d), pb_isAvailable = pb_isAvailable (dp_base d),
      pb_isAvailableBlocking = pb_isAvailableBlocking (dp_base d), pb_statusEvent = pb_statusEvent (dp_base d),
      pb_versionAttribute = pb_versionAttribute (dp_base d), pb_completionFuture = dp_getCompletionFuture d\<rparr>"
    unfolding assms [symmetric] by simp
  then show ?thesis
    by (cases d) (simp add: object_defs delegating_new_defs delegating_call_defs delegating_async_defs
        delegating_base_defs)
qed

lemma vehicle_object:
  assumes "pb_completionFuture (vp_base d) = vp_getCompletionFuture d"
  shows "VehicleSignalServiceProxy_object (VehicleSignalServiceProxy_new (DynVehicle d)) = Some d"
proof -
  have "vp_base d = \<lparr>pb_address = pb_address (vp_base d), pb_isAvailable = pb_isAvailable (vp_base d),
      pb_isAvailableBlocking = pb_isAvailableBlocking (vp_base d), pb_statusEvent = pb_statusEvent (vp_base d),
      pb_versionAttribute = pb_versionAttribute (vp_base d), pb_completionFuture = vp_getCompletionFuture d\<rparr>"
    unfolding assms [symmetric] by simp
  then show ?thesis
    by (cases d) (simp add: object_defs delegating_new_defs delegating_call_defs delegating_async_defs
        delegating_base_defs)
qed

end
