(* ===== verification/CommonAPI_Stubs.thy ===== *)
theory CommonAPI_Stubs
  imports CommonAPI_Types
begin

text \<open>
  The server side of \<open>generated/\<close>: the stub classes (\<open>src-gen/*Stub.hpp\<close>) as records of the virtual
  functions an implementation provides, the default stubs (\<open>src-gen/*StubDefault.hpp\<close>), and the stub
  adapters (\<open>stub/\<close>) with their dispatchers and events.
\<close>

section \<open>Stubs\<close>

text \<open>A method of a stub gets the client, the arguments and the function to call with the reply;
  nothing obliges it to call that function, or to call it once.\<close>

record ('c, 'w) connectivity_stub =
  cs_getInterfaceVersion :: "'c \<Rightarrow> u16 \<times> u16"
  cs_connect :: "'c \<Rightarrow> string \<Rightarrow> u16 \<Rightarrow> string \<Rightarrow> (bool \<Rightarrow> string \<Rightarrow> 'w \<Rightarrow> 'w) \<Rightarrow> 'w \<Rightarrow> 'w"
  cs_disconnect :: "'c \<Rightarrow> (bool \<Rightarrow> string \<Rightarrow> 'w \<Rightarrow> 'w) \<Rightarrow> 'w \<Rightarrow> 'w"

record ('c, 'w) diagnostics_stub =
  ds_getInterfaceVersion :: "'c \<Rightarrow> u16 \<times> u16"
  ds_publishDiagnostic :: "'c \<Rightarrow> string \<Rightarrow> string \<Rightarrow> string \<Rightarrow> (bool \<Rightarrow> string \<Rightarrow> 'w \<Rightarrow> 'w) \<Rightarrow> 'w \<Rightarrow> 'w"

record ('c, 'w) vehicle_stub =
  vs_getInterfaceVersion :: "'c \<Rightarrow> u16 \<times> u16"
  vs_getSpeed :: "'c \<Rightarrow> (u16 \<Rightarrow> 'w \<Rightarrow> 'w) \<Rightarrow> 'w \<Rightarrow> 'w"
  vs_getBatteryVoltage :: "'c \<Rightarrow> (double \<Rightarrow> 'w \<Rightarrow> 'w) \<Rightarrow> 'w \<Rightarrow> 'w"

definition ConnectivityServiceStub_hasElement :: "u32 \<Rightarrow> bool" where
  "ConnectivityServiceStub_hasElement i \<longleftrightarrow> i < 2"

definition DiagnosticsServiceStub_hasElement :: "u32 \<Rightarrow> bool" where
  "DiagnosticsServiceStub_hasElement i \<longleftrightarrow> i < 1"

definition VehicleSignalServiceStub_hasElement :: "u32 \<Rightarrow> bool" where
  "VehicleSignalServiceStub_hasElement i \<longleftrightarrow> i < 3"

section \<open>Default stubs\<close>

text \<open>The handlers of remote events: a pointer to the default stub they belong to, here its number.
  The interfaces have no attributes, so there are no such events.\<close>

datatype connectivity_handler = ConnectivityRemoteEventHandler (defaultStub_c: nat)

datatype diagnostics_handler = DiagnosticsRemoteEventHandler (defaultStub_d: nat)

datatype vehicle_handler = VehicleRemoteEventHandler (defaultStub_v: nat)

text \<open>The fields of a default stub: the weak pointer to its adapter, here the adapter's number, the
  handler of remote events, and the interface version.\<close>

record 'h stub_default =
  sb_adapter :: "nat option"
  sb_handler :: 'h
  sb_version :: "u16 \<times> u16"

definition ConnectivityServiceStubDefault_new :: "nat \<Rightarrow> connectivity_handler stub_default" where
  "ConnectivityServiceStubDefault_new this =
     \<lparr>sb_adapter = None, sb_handler = ConnectivityRemoteEventHandler this, sb_version = snd connectivity_interface\<rparr>"

definition DiagnosticsServiceStubDefault_new :: "nat \<Rightarrow> diagnostics_handler stub_default" where
  "DiagnosticsServiceStubDefault_new this =
     \<lparr>sb_adapter = None, sb_handler = DiagnosticsRemoteEventHandler this, sb_version = snd diagnostics_interface\<rparr>"

definition VehicleSignalServiceStubDefault_new :: "nat \<Rightarrow> vehicle_handler stub_default" where
  "VehicleSignalServiceStubDefault_new this =
     \<lparr>sb_adapter = None, sb_handler = VehicleRemoteEventHandler this, sb_version = snd vehicle_interface\<rparr>"

definition ConnectivityServiceStubDefault_initStubAdapter ::
  "nat option \<Rightarrow> connectivity_handler stub_default \<Rightarrow> connectivity_handler \<times> connectivity_handler stub_default" where
  "ConnectivityServiceStubDefault_initStubAdapter adapter d = (sb_handler d, d\<lparr>sb_adapter := adapter\<rparr>)"

definition DiagnosticsServiceStubDefault_initStubAdapter ::
  "nat option \<Rightarrow> diagnostics_handler stub_default \<Rightarrow> diagnostics_handler \<times> diagnostics_handler stub_default" where
  "DiagnosticsServiceStubDefault_initStubAdapter adapter d = (sb_handler d, d\<lparr>sb_adapter := adapter\<rparr>)"

definition VehicleSignalServiceStubDefault_initStubAdapter ::
  "nat option \<Rightarrow> vehicle_handler stub_default \<Rightarrow> vehicle_handler \<times> vehicle_handler stub_default" where
  "VehicleSignalServiceStubDefault_initStubAdapter adapter d = (sb_handler d, d\<lparr>sb_adapter := adapter\<rparr>)"

definition ConnectivityServiceStubDefault :: "connectivity_handler stub_default \<Rightarrow> ('c, 'w) connectivity_stub" where
  "ConnectivityServiceStubDefault d =
     \<lparr>cs_getInterfaceVersion = (\<lambda>client. sb_version d),
      cs_connect = (\<lambda>client brokerHost brokerPort clientId reply w. reply False [] w),
      cs_disconnect = (\<lambda>client reply w. reply False [] w)\<rparr>"

definition DiagnosticsServiceStubDefault :: "diagnostics_handler stub_default \<Rightarrow> ('c, 'w) diagnostics_stub" where
  "DiagnosticsServiceStubDefault d =
     \<lparr>ds_getInterfaceVersion = (\<lambda>client. sb_version d),
      ds_publishDiagnostic = (\<lambda>client code severity detail reply w. reply False [] w)\<rparr>"

definition VehicleSignalServiceStubDefault :: "vehicle_handler stub_default \<Rightarrow> ('c, 'w) vehicle_stub" where
  "VehicleSignalServiceStubDefault d =
     \<lparr>vs_getInterfaceVersion = (\<lambda>client. sb_version d),
      vs_getSpeed = (\<lambda>client reply w. reply 0 w),
      vs_getBatteryVoltage = (\<lambda>client reply w. reply zero_double w)\<rparr>"

section \<open>Dispatchers\<close>

text \<open>
  A dispatcher is an object of the runtime; the adapter sets it up with the types of arguments and
  results, the byte order, whether the stub has the element, and a pointer to a member function of the
  stub class. A member function is a function of the stub, the client, the arguments and the function
  to call with the reply; it can be applied to the argument lists of its C++ type, \<open>None\<close> stands for the
  others. How the runtime decodes a message and calls the function is not part of the bindings.
\<close>

type_synonym ('s, 'c, 'w) stub_member =
  "'s \<Rightarrow> 'c \<Rightarrow> capi_value list \<Rightarrow> (capi_value list \<Rightarrow> 'w \<Rightarrow> 'w) \<Rightarrow> 'w \<Rightarrow> 'w option"

text \<open>\<open>sd_member\<close> is the member function on the stub the adapter points to, \<open>None\<close> if that pointer is null.\<close>

record ('c, 'w) dispatcher =
  sd_in :: "capi_type list"
  sd_out :: "capi_type list"
  sd_little_endian :: bool
  sd_has_element :: bool
  sd_member :: "('c \<Rightarrow> capi_value list \<Rightarrow> (capi_value list \<Rightarrow> 'w \<Rightarrow> 'w) \<Rightarrow> 'w \<Rightarrow> 'w option) option"

fun connect_member :: "(('c, 'w) connectivity_stub, 'c, 'w) stub_member" where
  "connect_member s client [VString h, VU16 p, VString c] reply w =
     Some (cs_connect s client h p c (\<lambda>success message. reply [VBool success, VString message]) w)"
| "connect_member s client args reply w = None"

fun disconnect_member :: "(('c, 'w) connectivity_stub, 'c, 'w) stub_member" where
  "disconnect_member s client [] reply w =
     Some (cs_disconnect s client (\<lambda>success message. reply [VBool success, VString message]) w)"
| "disconnect_member s client args reply w = None"

fun publishDiagnostic_member :: "(('c, 'w) diagnostics_stub, 'c, 'w) stub_member" where
  "publishDiagnostic_member st client [VString c, VString s, VString d] reply w =
     Some (ds_publishDiagnostic st client c s d (\<lambda>success message. reply [VBool success, VString message]) w)"
| "publishDiagnostic_member st client args reply w = None"

fun getSpeed_member :: "(('c, 'w) vehicle_stub, 'c, 'w) stub_member" where
  "getSpeed_member s client [] reply w = Some (vs_getSpeed s client (\<lambda>speed. reply [VU16 speed]) w)"
| "getSpeed_member s client args reply w = None"

fun getBatteryVoltage_member :: "(('c, 'w) vehicle_stub, 'c, 'w) stub_member" where
  "getBatteryVoltage_member s client [] reply w =
     Some (vs_getBatteryVoltage s client (\<lambda>voltage. reply [VDouble voltage]) w)"
| "getBatteryVoltage_member s client args reply w = None"

section \<open>Stub adapters\<close>

text \<open>The runtime hands the constructor of an adapter a pointer to its own stub class; the object
  behind it is of one of the three interfaces. \<open>hasElement\<close> is virtual.\<close>

datatype ('c, 'w) dyn_stub =
    StubConnectivity "('c, 'w) connectivity_stub"
  | StubDiagnostics "('c, 'w) diagnostics_stub"
  | StubVehicle "('c, 'w) vehicle_stub"

fun stub_hasElement :: "('c, 'w) dyn_stub \<Rightarrow> u32 \<Rightarrow> bool" where
  "stub_hasElement (StubConnectivity s) = ConnectivityServiceStub_hasElement"
| "stub_hasElement (StubDiagnostics s) = DiagnosticsServiceStub_hasElement"
| "stub_hasElement (StubVehicle s) = VehicleSignalServiceStub_hasElement"

fun stub_as_connectivity :: "('c, 'w) dyn_stub \<Rightarrow> ('c, 'w) connectivity_stub option" where
  "stub_as_connectivity (StubConnectivity s) = Some s"
| "stub_as_connectivity stub = None"

fun stub_as_diagnostics :: "('c, 'w) dyn_stub \<Rightarrow> ('c, 'w) diagnostics_stub option" where
  "stub_as_diagnostics (StubDiagnostics s) = Some s"
| "stub_as_diagnostics stub = None"

fun stub_as_vehicle :: "('c, 'w) dyn_stub \<Rightarrow> ('c, 'w) vehicle_stub option" where
  "stub_as_vehicle (StubVehicle s) = Some s"
| "stub_as_vehicle stub = None"

definition connectStubDispatcher :: "('c, 'w) dyn_stub \<Rightarrow> ('c, 'w) dispatcher" where
  "connectStubDispatcher stub =
     \<lparr>sd_in = [TString, TU16, TString], sd_out = [TBool, TString], sd_little_endian = False,
      sd_has_element = stub_hasElement stub 0, sd_member = map_option connect_member (stub_as_connectivity stub)\<rparr>"

definition disconnectStubDispatcher :: "('c, 'w) dyn_stub \<Rightarrow> ('c, 'w) dispatcher" where
  "disconnectStubDispatcher stub =
     \<lparr>sd_in = [], sd_out = [TBool, TString], sd_little_endian = False,
      sd_has_element = stub_hasElement stub 1, sd_member = map_option disconnect_member (stub_as_connectivity stub)\<rparr>"

definition publishDiagnosticStubDispatcher :: "('c, 'w) dyn_stub \<Rightarrow> ('c, 'w) dispatcher" where
  "publishDiagnosticStubDispatcher stub =
     \<lparr>sd_in = [TString, TString, TString], sd_out = [TBool, TString], sd_little_endian = False,
      sd_has_element = stub_hasElement stub 0,
      sd_member = map_option publishDiagnostic_member (stub_as_diagnostics stub)\<rparr>"

definition getSpeedStubDispatcher :: "('c, 'w) dyn_stub \<Rightarrow> ('c, 'w) dispatcher" where
  "getSpeedStubDispatcher stub =
     \<lparr>sd_in = [], sd_out = [TU16], sd_little_endian = False,
      sd_has_element = stub_hasElement stub 0, sd_member = map_option getSpeed_member (stub_as_vehicle stub)\<rparr>"

definition getBatteryVoltageStubDispatcher :: "('c, 'w) dyn_stub \<Rightarrow> ('c, 'w) dispatcher" where
  "getBatteryVoltageStubDispatcher stub =
     \<lparr>sd_in = [], sd_out = [TDouble], sd_little_endian = False,
      sd_has_element = stub_hasElement stub 1, sd_member = map_option getBatteryVoltage_member (stub_as_vehicle stub)\<rparr>"

text \<open>An adapter: how it reads the version attribute, the dispatchers by method identifier, and the
  events it registers with the runtime.\<close>

record 'x event_registration =
  er_event :: u16
  er_groups :: "u16 list"
  er_type :: 'x
  er_reliability :: 'x

record ('c, 'x, 'w) stub_adapter =
  sa_version :: "'c \<Rightarrow> (u16 \<times> u16) option"
  sa_methods :: "(u16 \<times> ('c, 'w) dispatcher) list"
  sa_events :: "'x event_registration list"

definition ConnectivityServiceSomeIPStubAdapterInternal :: "('c, 'w) dyn_stub \<Rightarrow> ('c, 'x, 'w) stub_adapter" where
  "ConnectivityServiceSomeIPStubAdapterInternal stub =
     \<lparr>sa_version = (\<lambda>client. map_option (\<lambda>s. cs_getInterfaceVersion s client) (stub_as_connectivity stub)),
      sa_methods = [(0x1001, connectStubDispatcher stub), (0x1002, disconnectStubDispatcher stub)],
      sa_events = []\<rparr>"

definition ConnectivityServiceSomeIPStubAdapter :: "('c, 'w) dyn_stub \<Rightarrow> ('c, 'x, 'w) stub_adapter" where
  "ConnectivityServiceSomeIPStubAdapter stub = ConnectivityServiceSomeIPStubAdapterInternal stub"

definition DiagnosticsServiceSomeIPStubAdapterInternal :: "('c, 'w) dyn_stub \<Rightarrow> ('c, 'x, 'w) stub_adapter" where
  "DiagnosticsServiceSomeIPStubAdapterInternal stub =
     \<lparr>sa_version = (\<lambda>client. map_option (\<lambda>s. ds_getInterfaceVersion s client) (stub_as_diagnostics stub)),
      sa_methods = [(0x1003, publishDiagnosticStubDispatcher stub)],
      sa_events = []\<rparr>"

definition DiagnosticsServiceSomeIPStubAdapter :: "('c, 'w) dyn_stub \<Rightarrow> ('c, 'x, 'w) stub_adapter" where
  "DiagnosticsServiceSomeIPStubAdapter stub = DiagnosticsServiceSomeIPStubAdapterInternal stub"

definition VehicleSignalServiceSomeIPStubAdapterInternal ::
  "'x event_constants \<Rightarrow> ('c, 'w) dyn_stub \<Rightarrow> ('c, 'x, 'w) stub_adapter" where
  "VehicleSignalServiceSomeIPStubAdapterInternal K stub =
     \<lparr>sa_version = (\<lambda>client. map_option (\<lambda>s. vs_getInterfaceVersion s client) (stub_as_vehicle stub)),
      sa_methods = [(0x1004, getSpeedStubDispatcher stub), (0x1005, getBatteryVoltageStubDispatcher stub)],
      sa_events = [\<lparr>er_event = 0x2001, er_groups = [undefined_eventgroup K], er_type = et_event K,
        er_reliability = rt_unreliable K\<rparr>]\<rparr>"

definition VehicleSignalServiceSomeIPStubAdapter ::
  "'x event_constants \<Rightarrow> ('c, 'w) dyn_stub \<Rightarrow> ('c, 'x, 'w) stub_adapter" where
  "VehicleSignalServiceSomeIPStubAdapter K stub = VehicleSignalServiceSomeIPStubAdapterInternal K stub"

text \<open>The destructors: managed instances, of which there are none, then the runtime's \<open>deinit\<close>.\<close>

definition deactivateManagedInstances :: "'w \<Rightarrow> 'w" where
  "deactivateManagedInstances w = w"

definition ConnectivityServiceSomeIPStubAdapter_destroy :: "('w \<Rightarrow> 'w) \<Rightarrow> 'w \<Rightarrow> 'w" where
  "ConnectivityServiceSomeIPStubAdapter_destroy deinit w = deinit (deactivateManagedInstances w)"

definition DiagnosticsServiceSomeIPStubAdapter_destroy :: "('w \<Rightarrow> 'w) \<Rightarrow> 'w \<Rightarrow> 'w" where
  "DiagnosticsServiceSomeIPStubAdapter_destroy deinit w = deinit (deactivateManagedInstances w)"

definition VehicleSignalServiceSomeIPStubAdapter_destroy :: "('w \<Rightarrow> 'w) \<Rightarrow> 'w \<Rightarrow> 'w" where
  "VehicleSignalServiceSomeIPStubAdapter_destroy deinit w = deinit (deactivateManagedInstances w)"

text \<open>The runtime has an adapter register handlers for selective broadcasts when a client subscribes
  to one. None of the interfaces has such a broadcast.\<close>

definition Connectivity_registerSelectiveEventHandlers :: "'w \<Rightarrow> 'w" where
  "Connectivity_registerSelectiveEventHandlers w = w"

definition Connectivity_unregisterSelectiveEventHandlers :: "'w \<Rightarrow> 'w" where
  "Connectivity_unregisterSelectiveEventHandlers w = w"

definition Diagnostics_registerSelectiveEventHandlers :: "'w \<Rightarrow> 'w" where
  "Diagnostics_registerSelectiveEventHandlers w = w"

definition Diagnostics_unregisterSelectiveEventHandlers :: "'w \<Rightarrow> 'w" where
  "Diagnostics_unregisterSelectiveEventHandlers w = w"

definition VehicleSignal_registerSelectiveEventHandlers :: "'w \<Rightarrow> 'w" where
  "VehicleSignal_registerSelectiveEventHandlers w = w"

definition VehicleSignal_unregisterSelectiveEventHandlers :: "'w \<Rightarrow> 'w" where
  "VehicleSignal_unregisterSelectiveEventHandlers w = w"

section \<open>The broadcast\<close>

text \<open>\<open>send a\<close> is the runtime's \<open>sendEvent\<close> on adapter \<open>a\<close>: event, byte order, values. The stub
  forwards to its adapter if the weak pointer to it can still be locked.\<close>

definition StubAdapter_fireSignalChangedEvent ::
  "(u16 \<Rightarrow> bool \<Rightarrow> capi_value list \<Rightarrow> 'w \<Rightarrow> 'w) \<Rightarrow> u16 \<Rightarrow> double \<Rightarrow> 'w \<Rightarrow> 'w" where
  "StubAdapter_fireSignalChangedEvent send speed battery w =
     send 0x2001 False [VU16 speed, VDouble battery] w"

definition Stub_fireSignalChangedEvent ::
  "(nat \<Rightarrow> bool) \<Rightarrow> (nat \<Rightarrow> u16 \<Rightarrow> bool \<Rightarrow> capi_value list \<Rightarrow> 'w \<Rightarrow> 'w) \<Rightarrow> vehicle_handler stub_default
    \<Rightarrow> u16 \<Rightarrow> double \<Rightarrow> 'w \<Rightarrow> 'w" where
  "Stub_fireSignalChangedEvent alive send d speed battery w =
     (case sb_adapter d of
        Some a \<Rightarrow> if alive a then StubAdapter_fireSignalChangedEvent (send a) speed battery w else w
      | None \<Rightarrow> w)"

definition VehicleSignalServiceStubDefault_fireSignalChangedEvent ::
  "(nat \<Rightarrow> bool) \<Rightarrow> (nat \<Rightarrow> u16 \<Rightarrow> bool \<Rightarrow> capi_value list \<Rightarrow> 'w \<Rightarrow> 'w) \<Rightarrow> vehicle_handler stub_default
    \<Rightarrow> u16 \<Rightarrow> double \<Rightarrow> 'w \<Rightarrow> 'w" where
  "VehicleSignalServiceStubDefault_fireSignalChangedEvent alive send d speed battery w =
     Stub_fireSignalChangedEvent alive send d speed battery w"

lemmas hasElement_defs = ConnectivityServiceStub_hasElement_def DiagnosticsServiceStub_hasElement_def
  VehicleSignalServiceStub_hasElement_def

lemmas dispatcher_defs = connectStubDispatcher_def disconnectStubDispatcher_def
  publishDiagnosticStubDispatcher_def getSpeedStubDispatcher_def getBatteryVoltageStubDispatcher_def

lemmas adapter_defs = ConnectivityServiceSomeIPStubAdapter_def DiagnosticsServiceSomeIPStubAdapter_def
  VehicleSignalServiceSomeIPStubAdapter_def ConnectivityServiceSomeIPStubAdapterInternal_def
  DiagnosticsServiceSomeIPStubAdapterInternal_def VehicleSignalServiceSomeIPStubAdapterInternal_def

lemmas stub_default_defs = ConnectivityServiceStubDefault_def DiagnosticsServiceStubDefault_def
  VehicleSignalServiceStubDefault_def

end
