(* ===== verification/CommonAPI_Bindings.thy ===== *)
theory CommonAPI_Bindings
  imports CommonAPI_Proxies CommonAPI_Stubs
begin

text \<open>
  The two sides of \<open>generated/\<close> put together: creation functions and their registration with the
  factory of the runtime, the delivery of calls and events from an application's proxy to a stub, and
  the agreement of the generated code with the interface description of \<open>fidl/\<close>.
\<close>

section \<open>Creation and registration\<close>

definition createConnectivityServiceSomeIPProxy ::
  "('st, 'x, 'w) capi_runtime \<Rightarrow> ('x, 'w) capi_proxy_base \<Rightarrow> ('st, 'x, 'w) dyn_proxy" where
  "createConnectivityServiceSomeIPProxy R B = DynConnectivity (ConnectivityServiceSomeIPProxy R B)"

definition createDiagnosticsServiceSomeIPProxy ::
  "('st, 'x, 'w) capi_runtime \<Rightarrow> ('x, 'w) capi_proxy_base \<Rightarrow> ('st, 'x, 'w) dyn_proxy" where
  "createDiagnosticsServiceSomeIPProxy R B = DynDiagnostics (DiagnosticsServiceSomeIPProxy R B)"

definition createVehicleSignalServiceSomeIPProxy ::
  "('st, 'x, 'w) capi_runtime \<Rightarrow> 'x event_constants \<Rightarrow> ('x, 'w) capi_proxy_base
    \<Rightarrow> ('st, 'x, 'w) dyn_proxy" where
  "createVehicleSignalServiceSomeIPProxy R K B = DynVehicle (VehicleSignalServiceSomeIPProxy R K B)"

definition createConnectivityServiceSomeIPStubAdapter :: "('c, 'w) dyn_stub \<Rightarrow> ('c, 'x, 'w) stub_adapter" where
  "createConnectivityServiceSomeIPStubAdapter stub = ConnectivityServiceSomeIPStubAdapter stub"

definition createDiagnosticsServiceSomeIPStubAdapter :: "('c, 'w) dyn_stub \<Rightarrow> ('c, 'x, 'w) stub_adapter" where
  "createDiagnosticsServiceSomeIPStubAdapter stub = DiagnosticsServiceSomeIPStubAdapter stub"

definition createVehicleSignalServiceSomeIPStubAdapter ::
  "'x event_constants \<Rightarrow> ('c, 'w) dyn_stub \<Rightarrow> ('c, 'x, 'w) stub_adapter" where
  "createVehicleSignalServiceSomeIPStubAdapter K stub = VehicleSignalServiceSomeIPStubAdapter K stub"

text \<open>The creation function a binding stands for in the factory.\<close>

fun create_proxy ::
  "binding \<Rightarrow> ('st, 'x, 'w) capi_runtime \<Rightarrow> 'x event_constants \<Rightarrow> ('x, 'w) capi_proxy_base
    \<Rightarrow> ('st, 'x, 'w) dyn_proxy" where
  "create_proxy ConnectivityBinding R K B = createConnectivityServiceSomeIPProxy R B"
| "create_proxy DiagnosticsBinding R K B = createDiagnosticsServiceSomeIPProxy R B"
| "create_proxy VehicleBinding R K B = createVehicleSignalServiceSomeIPProxy R K B"

fun create_adapter ::
  "binding \<Rightarrow> 'x event_constants \<Rightarrow> ('c, 'w) dyn_stub \<Rightarrow> ('c, 'x, 'w) stub_adapter" where
  "create_adapter ConnectivityBinding K stub = createConnectivityServiceSomeIPStubAdapter stub"
| "create_adapter DiagnosticsBinding K stub = createDiagnosticsServiceSomeIPStubAdapter stub"
| "create_adapter VehicleBinding K stub = createVehicleSignalServiceSomeIPStubAdapter K stub"

lemmas create_proxy_defs = createConnectivityServiceSomeIPProxy_def
  createDiagnosticsServiceSomeIPProxy_def createVehicleSignalServiceSomeIPProxy_def

lemmas create_adapter_defs = createConnectivityServiceSomeIPStubAdapter_def
  createDiagnosticsServiceSomeIPStubAdapter_def createVehicleSignalServiceSomeIPStubAdapter_def

text \<open>Before \<open>main\<close>, six static initialisers register the creation functions of proxies and stub
  adapters with the factory of the runtime, under the name of the interface. Which creation function
  it is, is told by the binding.\<close>

record 'f registry_ops =
  registerProxyCreateMethod :: "string \<Rightarrow> binding \<Rightarrow> 'f \<Rightarrow> 'f"
  registerStubAdapterCreateMethod :: "string \<Rightarrow> binding \<Rightarrow> 'f \<Rightarrow> 'f"

definition initializeConnectivityServiceSomeIPProxy :: "'f registry_ops \<Rightarrow> 'f \<Rightarrow> 'f" where
  "initializeConnectivityServiceSomeIPProxy R =
     registerProxyCreateMethod R ''connectivity.ConnectivityService:v1_0'' ConnectivityBinding"

definition initializeDiagnosticsServiceSomeIPProxy :: "'f registry_ops \<Rightarrow> 'f \<Rightarrow> 'f" where
  "initializeDiagnosticsServiceSomeIPProxy R =
     registerProxyCreateMethod R ''diagnostics.DiagnosticsService:v1_0'' DiagnosticsBinding"

definition initializeVehicleSignalServiceSomeIPProxy :: "'f registry_ops \<Rightarrow> 'f \<Rightarrow> 'f" where
  "initializeVehicleSignalServiceSomeIPProxy R =
     registerProxyCreateMethod R ''vehicle.VehicleSignalService:v1_0'' VehicleBinding"

definition initializeConnectivityServiceSomeIPStubAdapter :: "'f registry_ops \<Rightarrow> 'f \<Rightarrow> 'f" where
  "initializeConnectivityServiceSomeIPStubAdapter R =
     registerStubAdapterCreateMethod R ''connectivity.ConnectivityService:v1_0'' ConnectivityBinding"

definition initializeDiagnosticsServiceSomeIPStubAdapter :: "'f registry_ops \<Rightarrow> 'f \<Rightarrow> 'f" where
  "initializeDiagnosticsServiceSomeIPStubAdapter R =
     registerStubAdapterCreateMethod R ''diagnostics.DiagnosticsService:v1_0'' DiagnosticsBinding"

definition initializeVehicleSignalServiceSomeIPStubAdapter :: "'f registry_ops \<Rightarrow> 'f \<Rightarrow> 'f" where
  "initializeVehicleSignalServiceSomeIPStubAdapter R =
     registerStubAdapterCreateMethod R ''vehicle.VehicleSignalService:v1_0'' VehicleBinding"

text \<open>The order in which static initialisers of different files run is not specified.\<close>

datatype initializer = ProxyInit binding | StubInit binding

fun run_initializer :: "'f registry_ops \<Rightarrow> initializer \<Rightarrow> 'f \<Rightarrow> 'f" where
  "run_initializer R (ProxyInit ConnectivityBinding) = initializeConnectivityServiceSomeIPProxy R"
| "run_initializer R (ProxyInit DiagnosticsBinding) = initializeDiagnosticsServiceSomeIPProxy R"
| "run_initializer R (ProxyInit VehicleBinding) = initializeVehicleSignalServiceSomeIPProxy R"
| "run_initializer R (StubInit ConnectivityBinding) = initializeConnectivityServiceSomeIPStubAdapter R"
| "run_initializer R (StubInit DiagnosticsBinding) = initializeDiagnosticsServiceSomeIPStubAdapter R"
| "run_initializer R (StubInit VehicleBinding) = initializeVehicleSignalServiceSomeIPStubAdapter R"

text \<open>A factory that keeps two maps from interface names to creation functions.\<close>

type_synonym registry = "(string \<Rightarrow> binding option) \<times> (string \<Rightarrow> binding option)"

definition map_registry :: "registry registry_ops" where
  "map_registry =
     \<lparr>registerProxyCreateMethod = (\<lambda>n b (ps, ss). (ps(n \<mapsto> b), ss)),
      registerStubAdapterCreateMethod = (\<lambda>n b (ps, ss). (ps, ss(n \<mapsto> b)))\<rparr>"

fun interface_name :: "binding \<Rightarrow> string" where
  "interface_name ConnectivityBinding = fst connectivity_interface"
| "interface_name DiagnosticsBinding = fst diagnostics_interface"
| "interface_name VehicleBinding = fst vehicle_interface"

lemmas registration_defs = initializeConnectivityServiceSomeIPProxy_def
  initializeDiagnosticsServiceSomeIPProxy_def initializeVehicleSignalServiceSomeIPProxy_def
  initializeConnectivityServiceSomeIPStubAdapter_def
  initializeDiagnosticsServiceSomeIPStubAdapter_def
  initializeVehicleSignalServiceSomeIPStubAdapter_def

lemma interface_name_inj: "interface_name a = interface_name b \<longleftrightarrow> a = b"
  by (cases a; cases b)
    (simp_all add: connectivity_interface_def diagnostics_interface_def vehicle_interface_def)

lemma run_initializer_map:
  "run_initializer map_registry (ProxyInit b) (ps, ss) = (ps(interface_name b \<mapsto> b), ss)"
  "run_initializer map_registry (StubInit b) (ps, ss) = (ps, ss(interface_name b \<mapsto> b))"
  by (cases b; simp add: map_registry_def registration_defs connectivity_interface_def
      diagnostics_interface_def vehicle_interface_def)+

definition run_initializers :: "initializer list \<Rightarrow> registry" where
  "run_initializers inits = foldl (\<lambda>r i. run_initializer map_registry i r) (\<lambda>_. None, \<lambda>_. None) inits"

lemma run_initializers_lookup:
  "fst (run_initializers inits) (interface_name b) = (if ProxyInit b \<in> set inits then Some b else None) \<and>
   snd (run_initializers inits) (interface_name b) = (if StubInit b \<in> set inits then Some b else None)"
proof (induction inits rule: rev_induct)
  case Nil
  then show ?case by (simp add: run_initializers_def)
next
  case (snoc i inits)
  obtain ps ss where r: "run_initializers inits = (ps, ss)" by fastforce
  then have "run_initializers (inits @ [i]) = run_initializer map_registry i (ps, ss)"
    by (simp add: run_initializers_def)
  with snoc r show ?case
    by (cases i) (auto simp: run_initializer_map interface_name_inj)
qed

text \<open>Registration does not depend on the order of the static initialisers: when all six have run,
  in any order, the factory finds for each interface, under the name its class reports, the proxy
  and the stub adapter generated for it.\<close>

theorem registration_order_irrelevant:
  assumes "\<And>b. ProxyInit b \<in> set inits \<and> StubInit b \<in> set inits"
  shows "fst (run_initializers inits) (interface_name b) = Some b \<and>
    snd (run_initializers inits) (interface_name b) = Some b"
  using run_initializers_lookup [of inits b] assms by simp

theorem registration_order_irrelevant_witness:
  "fst (run_initializers [StubInit VehicleBinding, ProxyInit DiagnosticsBinding,
      ProxyInit ConnectivityBinding, StubInit ConnectivityBinding, ProxyInit VehicleBinding,
      StubInit DiagnosticsBinding]) ''vehicle.VehicleSignalService:v1_0'' = Some VehicleBinding"
proof -
  let ?inits = "[StubInit VehicleBinding, ProxyInit DiagnosticsBinding, ProxyInit ConnectivityBinding,
      StubInit ConnectivityBinding, ProxyInit VehicleBinding, StubInit DiagnosticsBinding]"
  have "ProxyInit b \<in> set ?inits \<and> StubInit b \<in> set ?inits" for b
    by (cases b) simp_all
  from registration_order_irrelevant [OF this, of VehicleBinding] show ?thesis
    by (simp add: vehicle_interface_def)
qed

section \<open>Typing\<close>

text \<open>The interface a stub is for.\<close>

fun stub_binding :: "('c, 'w) dyn_stub \<Rightarrow> binding" where
  "stub_binding (StubConnectivity s) = ConnectivityBinding"
| "stub_binding (StubDiagnostics s) = DiagnosticsBinding"
| "stub_binding (StubVehicle s) = VehicleBinding"

lemma stub_binding_cases:
  obtains s where "stub = StubConnectivity s" "stub_binding stub = ConnectivityBinding"
  | s where "stub = StubDiagnostics s" "stub_binding stub = DiagnosticsBinding"
  | s where "stub = StubVehicle s" "stub_binding stub = VehicleBinding"
  by (cases stub) auto

definition typed_member ::
  "capi_type list \<Rightarrow> capi_type list
    \<Rightarrow> ('c \<Rightarrow> capi_value list \<Rightarrow> (capi_value list \<Rightarrow> 'w \<Rightarrow> 'w) \<Rightarrow> 'w \<Rightarrow> 'w option) \<Rightarrow> bool" where
  "typed_member ins outs f \<longleftrightarrow>
     (\<forall>client args reply w. f client args reply w \<noteq> None \<longleftrightarrow> has_types args ins) \<and>
     (\<forall>client args w reply reply'. (\<forall>vs v. has_types vs outs \<longrightarrow> reply vs v = reply' vs v) \<longrightarrow>
        f client args reply w = f client args reply' w)"

definition typed_dispatcher :: "capi_type list \<Rightarrow> capi_type list \<Rightarrow> ('c, 'w) dispatcher \<Rightarrow> bool" where
  "typed_dispatcher ins outs d \<longleftrightarrow> sd_in d = ins \<and> sd_out d = outs \<and> sd_has_element d \<and>
     (\<exists>f. sd_member d = Some f \<and> typed_member ins outs f)"

lemma typed_args:
  "has_types args [TString, TU16, TString] \<longleftrightarrow> (\<exists>h p c. args = [VString h, VU16 p, VString c])"
  "has_types args [TString, TString, TString] \<longleftrightarrow> (\<exists>c s d. args = [VString c, VString s, VString d])"
  by (simp only: has_types_Cons has_types_simps value_type_simps, blast)+

lemma reply_pair_cong:
  "(\<And>vs v. has_types vs [TBool, TString] \<Longrightarrow> reply vs v = reply' vs v) \<Longrightarrow>
     (\<lambda>success message. reply [VBool success, VString message]) =
     (\<lambda>success message. reply' [VBool success, VString message])"
  by (intro ext) simp

lemma reply_single_cong:
  "(\<And>vs v. has_types vs [TU16] \<Longrightarrow> reply vs v = reply' vs v) \<Longrightarrow>
     (\<lambda>n. reply [VU16 n]) = (\<lambda>n. reply' [VU16 n])"
  "(\<And>vs v. has_types vs [TDouble] \<Longrightarrow> reply vs v = reply' vs v) \<Longrightarrow>
     (\<lambda>d. reply [VDouble d]) = (\<lambda>d. reply' [VDouble d])"
  by (intro ext; simp)+

lemma connect_member_typed: "typed_member [TString, TU16, TString] [TBool, TString] (connect_member s)"
proof -
  have "connect_member s client args reply w \<noteq> None \<longleftrightarrow> has_types args [TString, TU16, TString]" for client args reply w
    by (induction s client args reply w rule: connect_member.induct) simp_all
  moreover have "connect_member s client args reply w = connect_member s client args reply' w"
    if "\<And>vs v. has_types vs [TBool, TString] \<Longrightarrow> reply vs v = reply' vs v" for client args reply reply' w
    using reply_pair_cong [of reply reply', OF that]
    by (induction s client args reply w rule: connect_member.induct) simp_all
  ultimately show ?thesis unfolding typed_member_def by blast
qed

lemma disconnect_member_typed: "typed_member [] [TBool, TString] (disconnect_member s)"
proof -
  have "disconnect_member s client args reply w \<noteq> None \<longleftrightarrow> has_types args []" for client args reply w
    by (induction s client args reply w rule: disconnect_member.induct) simp_all
  moreover have "disconnect_member s client args reply w = disconnect_member s client args reply' w"
    if "\<And>vs v. has_types vs [TBool, TString] \<Longrightarrow> reply vs v = reply' vs v" for client args reply reply' w
    using reply_pair_cong [of reply reply', OF that]
    by (induction s client args reply w rule: disconnect_member.induct) simp_all
  ultimately show ?thesis unfolding typed_member_def by blast
qed

lemma publishDiagnostic_member_typed: "typed_member [TString, TString, TString] [TBool, TString] (publishDiagnostic_member s)"
proof -
  have "publishDiagnostic_member s client args reply w \<noteq> None \<longleftrightarrow> has_types args [TString, TString, TString]" for client args reply w
    by (induction s client args reply w rule: publishDiagnostic_member.induct) simp_all
  moreover have "publishDiagnostic_member s client args reply w = publishDiagnostic_member s client args reply' w"
    if "\<And>vs v. has_types vs [TBool, TString] \<Longrightarrow> reply vs v = reply' vs v" for client args reply reply' w
    using reply_pair_cong [of reply reply', OF that]
    by (induction s client args reply w rule: publishDiagnostic_member.induct) simp_all
  ultimately show ?thesis unfolding typed_member_def by blast
qed

lemma getSpeed_member_typed: "typed_member [] [TU16] (getSpeed_member s)"
proof -
  have "getSpeed_member s client args reply w \<noteq> None \<longleftrightarrow> has_types args []" for client args reply w
    by (induction s client args reply w rule: getSpeed_member.induct) simp_all
  moreover have "getSpeed_member s client args reply w = getSpeed_member s client args reply' w"
    if "\<And>vs v. has_types vs [TU16] \<Longrightarrow> reply vs v = reply' vs v" for client args reply reply' w
    using reply_single_cong(1) [of reply reply', OF that]
    by (induction s client args reply w rule: getSpeed_member.induct) simp_all
  ultimately show ?thesis unfolding typed_member_def by blast
qed

lemma getBatteryVoltage_member_typed: "typed_member [] [TDouble] (getBatteryVoltage_member s)"
proof -
  have "getBatteryVoltage_member s client args reply w \<noteq> None \<longleftrightarrow> has_types args []" for client args reply w
    by (induction s client args reply w rule: getBatteryVoltage_member.induct) simp_all
  moreover have "getBatteryVoltage_member s client args reply w = getBatteryVoltage_member s client args reply' w"
    if "\<And>vs v. has_types vs [TDouble] \<Longrightarrow> reply vs v = reply' vs v" for client args reply reply' w
    using reply_single_cong(2) [of reply reply', OF that]
    by (induction s client args reply w rule: getBatteryVoltage_member.induct) simp_all
  ultimately show ?thesis unfolding typed_member_def by blast
qed

lemmas members_typed = connect_member_typed disconnect_member_typed publishDiagnostic_member_typed
  getSpeed_member_typed getBatteryVoltage_member_typed

lemma dispatchers_typed:
  "typed_dispatcher [TString, TU16, TString] [TBool, TString] (connectStubDispatcher (StubConnectivity cs))"
  "typed_dispatcher [] [TBool, TString] (disconnectStubDispatcher (StubConnectivity cs))"
  "typed_dispatcher [TString, TString, TString] [TBool, TString] (publishDiagnosticStubDispatcher (StubDiagnostics ds))"
  "typed_dispatcher [] [TU16] (getSpeedStubDispatcher (StubVehicle vs))"
  "typed_dispatcher [] [TDouble] (getBatteryVoltageStubDispatcher (StubVehicle vs))"
  by (simp_all add: typed_dispatcher_def dispatcher_defs hasElement_defs members_typed)

text \<open>C25: Stub adapters are well typed: the adapter made for a stub has a dispatcher for exactly the
  methods of the stub's interface, under the identifiers of the deployment file. Each is declared
  with the argument and result types of the interface description, is enabled, has a stub that is not
  null and a member function that takes exactly the argument lists of these types, and passes on only
  replies of the result types, whatever the stub does.\<close>

theorem adapters_well_typed:
  "(case fidl_of (stub_binding stub) m of
      Some (ins, outs) \<Rightarrow> \<exists>d. map_of (sa_methods (create_adapter (stub_binding stub) K stub))
        (fdepl_method_id m) = Some d \<and> typed_dispatcher ins outs d
    | None \<Rightarrow> map_of (sa_methods (create_adapter (stub_binding stub) K stub)) (fdepl_method_id m) = None) \<and>
   (map_of (sa_methods (create_adapter (stub_binding stub) K stub)) i \<noteq> None \<longleftrightarrow>
     (\<exists>m. fidl_of (stub_binding stub) m \<noteq> None \<and> fdepl_method_id m = i))"
proof (rule conjI, goal_cases)
  case 1
  show ?case
    by (cases stub; cases m) (simp_all add: create_adapter_defs adapter_defs dispatchers_typed)
next
  case 2
  have ids: "(\<exists>m. P m) \<longleftrightarrow> P F_connect \<or> P F_disconnect \<or> P F_publishDiagnostic \<or> P F_getSpeed \<or>
      P F_getBatteryVoltage" for P
    by (metis fidl_method.exhaust)
  show ?case
    unfolding ids by (cases stub) (auto simp: create_adapter_defs adapter_defs)
qed

text \<open>A type check in front of a runtime: a call that is not of the interface, or not with values of
  the types of its signature, is answered with status \<open>err\<close> and never reaches the runtime.\<close>

definition well_typed_call ::
  "binding \<Rightarrow> call_target \<Rightarrow> capi_value list \<Rightarrow> capi_value list \<Rightarrow> bool" where
  "well_typed_call b target args inits \<longleftrightarrow>
     list_ex (\<lambda>m. fdepl_method_id m = fst target \<and>
         (case fidl_of b m of None \<Rightarrow> False | Some (ins, outs) \<Rightarrow> has_types args ins \<and> has_types inits outs))
       [F_connect, F_disconnect, F_publishDiagnostic, F_getSpeed, F_getBatteryVoltage]"

definition checked ::
  "binding \<Rightarrow> 'st \<Rightarrow> 'x \<Rightarrow> ('st, 'x, 'w) capi_runtime \<Rightarrow> ('st, 'x, 'w) capi_runtime" where
  "checked b err fut R = R\<lparr>
     call_with_reply := (\<lambda>t info args inits w.
       if well_typed_call b t args inits then call_with_reply R t info args inits w else (err, inits, w)),
     call_async := (\<lambda>t info args inits callback w.
       if well_typed_call b t args inits then call_async R t info args inits callback w else (fut, w))\<rparr>"

lemma checked_sel [simp]:
  "unset_bool (checked b err fut R) = unset_bool R" "unset_string (checked b err fut R) = unset_string R"
  "unset_u16 (checked b err fut R) = unset_u16 R" "unset_double (checked b err fut R) = unset_double R"
  "info_or_default (checked b err fut R) = info_or_default R"
  by (simp_all add: checked_def info_or_default_def fun_eq_iff split: option.split)

lemma checked_calls:
  "call_with_reply (checked b err fut R) t info args inits w =
     (if well_typed_call b t args inits then call_with_reply R t info args inits w else (err, inits, w))"
  "call_async (checked b err fut R) t info args inits callback w =
     (if well_typed_call b t args inits then call_async R t info args inits callback w else (fut, w))"
  by (simp_all add: checked_def)

text \<open>C26: Proxies are well typed: each generated proxy makes only calls of its own interface, with the
  method's identifier and with arguments and result slots of the types of the method's signature. A
  check of all this in front of the runtime changes nothing, whatever the runtime is.\<close>

theorem proxies_send_typed_calls:
  "ConnectivityServiceSomeIPProxy (checked ConnectivityBinding err fut R) B =
     ConnectivityServiceSomeIPProxy R B \<and>
   DiagnosticsServiceSomeIPProxy (checked DiagnosticsBinding err fut R) B =
     DiagnosticsServiceSomeIPProxy R B \<and>
   VehicleSignalServiceSomeIPProxy (checked VehicleBinding err fut R) K B =
     VehicleSignalServiceSomeIPProxy R K B"
  by (simp add: someip_proxy_defs fun_eq_iff proxy_defs proxy_async_defs checked_calls well_typed_call_def)

section \<open>Calls from an application to a stub\<close>

text \<open>
  The runtime between proxy and adapter is not in the repository. What the calls rely on is what
  CommonAPI documents of it: a call with the identifier and the byte order of a dispatcher, with
  arguments and result slots of its types, calls the member function of the dispatcher; if the stub
  answers by calling the reply function once, at its end, the call returns with status \<open>ok\<close> and the
  values of the reply, and its effect on the world of the application is the stub's.
\<close>

definition delivers ::
  "('st, 'x, 'w) capi_runtime \<Rightarrow> ('c, 'y, 'w) stub_adapter \<Rightarrow> 'c \<Rightarrow> 'st \<Rightarrow> bool" where
  "delivers R A client ok \<longleftrightarrow>
     (\<forall>i d f info args inits w vs w'.
        map_of (sa_methods A) i = Some d \<longrightarrow> sd_has_element d \<longrightarrow> sd_member d = Some f \<longrightarrow>
        has_types args (sd_in d) \<longrightarrow> has_types inits (sd_out d) \<longrightarrow>
        (\<forall>reply. f client args reply w = Some (reply vs w')) \<longrightarrow>
        call_with_reply R (i, False, sd_little_endian d) info args inits w = (ok, vs, w'))"

lemma deliversD:
  assumes "delivers R A client ok" "map_of (sa_methods A) i = Some d" "typed_dispatcher ins outs d"
    "sd_member d = Some f" "\<not> sd_little_endian d" "has_types args ins" "has_types inits outs"
    "\<And>reply. f client args reply w = Some (reply vs w')"
  shows "call_with_reply R (i, False, False) info args inits w = (ok, vs, w')"
proof -
  have "call_with_reply R (i, False, sd_little_endian d) info args inits w = (ok, vs, w')"
    using assms(1) [unfolded delivers_def] assms(2-4,6-8) unfolding typed_dispatcher_def by blast
  with assms(5) show ?thesis by simp
qed

text \<open>Stubs whose methods compute a reply, with any effect on the world, and call the reply function
  once, at their end.\<close>

definition replying_connectivity ::
  "('c \<Rightarrow> string \<Rightarrow> u16 \<Rightarrow> string \<Rightarrow> 'w \<Rightarrow> (bool \<times> string) \<times> 'w) \<Rightarrow> ('c \<Rightarrow> 'w \<Rightarrow> (bool \<times> string) \<times> 'w)
    \<Rightarrow> ('c, 'w) connectivity_stub" where
  "replying_connectivity f g =
     \<lparr>cs_getInterfaceVersion = (\<lambda>client. snd connectivity_interface),
      cs_connect = (\<lambda>client h p c reply w.
        case f client h p c w of ((success, message), w') \<Rightarrow> reply success message w'),
      cs_disconnect = (\<lambda>client reply w.
        case g client w of ((success, message), w') \<Rightarrow> reply success message w')\<rparr>"

definition replying_diagnostics ::
  "('c \<Rightarrow> string \<Rightarrow> string \<Rightarrow> string \<Rightarrow> 'w \<Rightarrow> (bool \<times> string) \<times> 'w) \<Rightarrow> ('c, 'w) diagnostics_stub" where
  "replying_diagnostics f =
     \<lparr>ds_getInterfaceVersion = (\<lambda>client. snd diagnostics_interface),
      ds_publishDiagnostic = (\<lambda>client c s d reply w.
        case f client c s d w of ((success, message), w') \<Rightarrow> reply success message w')\<rparr>"

definition replying_vehicle ::
  "('c \<Rightarrow> 'w \<Rightarrow> u16 \<times> 'w) \<Rightarrow> ('c \<Rightarrow> 'w \<Rightarrow> double \<times> 'w) \<Rightarrow> ('c, 'w) vehicle_stub" where
  "replying_vehicle f g =
     \<lparr>vs_getInterfaceVersion = (\<lambda>client. snd vehicle_interface),
      vs_getSpeed = (\<lambda>client reply w. case f client w of (v, w') \<Rightarrow> reply v w'),
      vs_getBatteryVoltage = (\<lambda>client reply w. case g client w of (v, w') \<Rightarrow> reply v w')\<rparr>"

lemmas replying_defs = replying_connectivity_def replying_diagnostics_def replying_vehicle_def

text \<open>A call of each method, over a runtime that delivers to the adapter of a stub.\<close>

lemma connectivity_call:
  assumes "delivers R (createConnectivityServiceSomeIPStubAdapter (StubConnectivity s)) client ok"
  shows "(\<And>reply. cs_connect s client h p c reply w = reply success message w') \<Longrightarrow>
      SomeIPProxy_connect R h p c info w = ((ok, success, message), w')"
    and "(\<And>reply. cs_disconnect s client reply w = reply success message w') \<Longrightarrow>
      SomeIPProxy_disconnect R info w = ((ok, success, message), w')"
  by (subst proxy_defs, subst deliversD [OF assms _ dispatchers_typed(1),
        where f = "connect_member s" and vs = "[VBool success, VString message]" and w' = w'];
      simp add: create_adapter_defs adapter_defs dispatcher_defs)
    (subst proxy_defs, subst deliversD [OF assms _ dispatchers_typed(2),
        where f = "disconnect_member s" and vs = "[VBool success, VString message]" and w' = w'];
      simp add: create_adapter_defs adapter_defs dispatcher_defs)

lemma diagnostics_call:
  assumes "delivers R (createDiagnosticsServiceSomeIPStubAdapter (StubDiagnostics s)) client ok"
    "\<And>reply. ds_publishDiagnostic s client code sev det reply w = reply success message w'"
  shows "SomeIPProxy_publishDiagnostic R code sev det info w = ((ok, success, message), w')"
  by (subst proxy_defs, subst deliversD [OF assms(1) _ dispatchers_typed(3),
        where f = "publishDiagnostic_member s" and vs = "[VBool success, VString message]" and w' = w'];
      simp add: create_adapter_defs adapter_defs dispatcher_defs assms(2))

lemma vehicle_call:
  assumes "delivers R (createVehicleSignalServiceSomeIPStubAdapter K (StubVehicle s)) client ok"
  shows "(\<And>reply. vs_getSpeed s client reply w = reply speed w') \<Longrightarrow>
      SomeIPProxy_getSpeed R info w = ((ok, speed), w')"
    and "(\<And>reply. vs_getBatteryVoltage s client reply w = reply voltage w') \<Longrightarrow>
      SomeIPProxy_getBatteryVoltage R info w = ((ok, voltage), w')"
  by (subst proxy_defs, subst deliversD [OF assms _ dispatchers_typed(4),
        where f = "getSpeed_member s" and vs = "[VU16 speed]" and w' = w'];
      simp add: create_adapter_defs adapter_defs dispatcher_defs)
    (subst proxy_defs, subst deliversD [OF assms _ dispatchers_typed(5),
        where f = "getBatteryVoltage_member s" and vs = "[VDouble voltage]" and w' = w'];
      simp add: create_adapter_defs adapter_defs dispatcher_defs)

text \<open>The proxy an application holds: the class template over a proxy made by the generated creation
  function.\<close>

definition connectivity_app ::
  "('st, 'x, 'w) capi_runtime \<Rightarrow> ('x, 'w) capi_proxy_base \<Rightarrow> ('st, 'x, 'w) connectivity_proxy delegating" where
  "connectivity_app R B = ConnectivityServiceProxy_new (createConnectivityServiceSomeIPProxy R B)"

definition diagnostics_app ::
  "('st, 'x, 'w) capi_runtime \<Rightarrow> ('x, 'w) capi_proxy_base \<Rightarrow> ('st, 'x, 'w) diagnostics_proxy delegating" where
  "diagnostics_app R B = DiagnosticsServiceProxy_new (createDiagnosticsServiceSomeIPProxy R B)"

definition vehicle_app ::
  "('st, 'x, 'w) capi_runtime \<Rightarrow> 'x event_constants \<Rightarrow> ('x, 'w) capi_proxy_base
    \<Rightarrow> ('st, 'x, 'w) vehicle_proxy delegating" where
  "vehicle_app R K B = VehicleSignalServiceProxy_new (createVehicleSignalServiceSomeIPProxy R K B)"

lemmas app_defs = connectivity_app_def diagnostics_app_def vehicle_app_def

lemmas app_unfold = app_defs delegating_new_defs create_proxy_defs someip_proxy_defs delegating_call_defs

text \<open>C24: Calls pass through the whole of the generated code unchanged: let proxies and stub adapters
  be made by the generated creation functions, over any runtime that delivers calls to the adapter as
  CommonAPI documents it, and let the stub answer every call once, at its end. Then each of the five
  methods, called on the class template an application uses, reaches the method of the same name of
  the stub, with its arguments in order and the client's identity, and comes back with the success
  status, the values the stub replied, and the effect the stub had on the world.\<close>

theorem application_reaches_stub:
  assumes "delivers RC (createConnectivityServiceSomeIPStubAdapter
        (StubConnectivity (replying_connectivity f g))) client ok"
    and "delivers RD (createDiagnosticsServiceSomeIPStubAdapter
        (StubDiagnostics (replying_diagnostics d))) client ok"
    and "delivers RV (createVehicleSignalServiceSomeIPStubAdapter K
        (StubVehicle (replying_vehicle s v))) client ok"
  shows "ConnectivityServiceProxy_connect (connectivity_app RC B) h p c info w =
     Some (case f client h p c w of (r, w') \<Rightarrow> ((ok, r), w')) \<and>
   ConnectivityServiceProxy_disconnect (connectivity_app RC B) info w =
     Some (case g client w of (r, w') \<Rightarrow> ((ok, r), w')) \<and>
   DiagnosticsServiceProxy_publishDiagnostic (diagnostics_app RD B) code sev det info w =
     Some (case d client code sev det w of (r, w') \<Rightarrow> ((ok, r), w')) \<and>
   VehicleSignalServiceProxy_getSpeed (vehicle_app RV K B) info w =
     Some (case s client w of (r, w') \<Rightarrow> ((ok, r), w')) \<and>
   VehicleSignalServiceProxy_getBatteryVoltage (vehicle_app RV K B) info w =
     Some (case v client w of (r, w') \<Rightarrow> ((ok, r), w'))"
  by (auto simp: app_unfold replying_defs split: prod.split
      intro!: connectivity_call [OF assms(1)] diagnostics_call [OF assms(2)] vehicle_call [OF assms(3)])

text \<open>Some runtime does deliver: one whose world also holds the replies that were sent, and which takes
  the last of them.\<close>

definition stacking_call ::
  "('c, 'y, 'v \<times> capi_value list list) stub_adapter \<Rightarrow> 'c \<Rightarrow> u16 \<Rightarrow> capi_value list \<Rightarrow> capi_value list
    \<Rightarrow> 'v \<times> capi_value list list \<Rightarrow> bool \<times> capi_value list \<times> 'v \<times> capi_value list list" where
  "stacking_call A client i args inits w =
     (case Option.bind (map_of (sa_methods A) i) (\<lambda>d. Option.bind (sd_member d)
         (\<lambda>f. f client args (\<lambda>vs (v, rs). (v, rs @ [vs])) w)) of
        Some (v, rs) \<Rightarrow> (True, last rs, v, butlast rs)
      | None \<Rightarrow> (False, inits, w))"

definition stacking_runtime ::
  "('c, 'y, 'v \<times> capi_value list list) stub_adapter \<Rightarrow> 'c
    \<Rightarrow> (bool, unit, 'v \<times> capi_value list list) capi_runtime" where
  "stacking_runtime A client =
     \<lparr>call_with_reply = (\<lambda>t info args inits w. stacking_call A client (fst t) args inits w),
      call_async = (\<lambda>t info args inits callback w.
        case stacking_call A client (fst t) args inits w of (status, outs, w') \<Rightarrow> ((), callback status outs w')),
      default_call_info = (),
      unset_bool = False, unset_string = [], unset_u16 = 0, unset_double = zero_double\<rparr>"

lemma stacking_delivers:
  fixes A :: "('c, 'y, 'v \<times> capi_value list list) stub_adapter"
  shows "delivers (stacking_runtime A client) A client True"
  unfolding delivers_def
proof (intro allI impI)
  fix i info args inits vs and w w' :: "'v \<times> capi_value list list"
    and d :: "('c, 'v \<times> capi_value list list) dispatcher"
    and f :: "'c \<Rightarrow> capi_value list \<Rightarrow> (capi_value list \<Rightarrow> 'v \<times> capi_value list list \<Rightarrow> 'v \<times> capi_value list list)
      \<Rightarrow> 'v \<times> capi_value list list \<Rightarrow> ('v \<times> capi_value list list) option"
  assume d: "map_of (sa_methods A) i = Some d" "sd_member d = Some f"
    and f: "\<forall>reply. f client args reply w = Some (reply vs w')"
  obtain v rs where w': "w' = (v, rs)" by fastforce
  show "call_with_reply (stacking_runtime A client) (i, False, sd_little_endian d) info args inits w = (True, vs, w')"
    by (simp add: stacking_runtime_def stacking_call_def d f [rule_format] w')
qed

definition demo_base :: "(unit, nat \<times> capi_value list list) capi_proxy_base" where
  "demo_base = \<lparr>pb_address = (), pb_isAvailable = Pair True, pb_isAvailableBlocking = Pair True,
     pb_statusEvent = (), pb_versionAttribute = (), pb_completionFuture = Pair ()\<rparr>"

definition demo_constants :: "unit event_constants" where
  "demo_constants = \<lparr>undefined_eventgroup = 0xFFFF, et_event = (), rt_unreliable = ()\<rparr>"

text \<open>The stubs of the witness count the calls in the world.\<close>

definition demo_connect ::
  "string \<Rightarrow> string \<Rightarrow> u16 \<Rightarrow> string \<Rightarrow> nat \<times> 'r \<Rightarrow> (bool \<times> string) \<times> nat \<times> 'r" where
  "demo_connect client h p c w = ((p = 1883, h @ c @ client), Suc (fst w), snd w)"

definition demo_disconnect :: "string \<Rightarrow> nat \<times> 'r \<Rightarrow> (bool \<times> string) \<times> nat \<times> 'r" where
  "demo_disconnect client w = ((fst w = 0, client), Suc (fst w), snd w)"

definition demo_publish ::
  "string \<Rightarrow> string \<Rightarrow> string \<Rightarrow> string \<Rightarrow> nat \<times> 'r \<Rightarrow> (bool \<times> string) \<times> nat \<times> 'r" where
  "demo_publish client c s d w = ((True, c @ s @ d), Suc (fst w), snd w)"

theorem application_reaches_stub_witness:
  "ConnectivityServiceProxy_connect
     (connectivity_app (stacking_runtime (createConnectivityServiceSomeIPStubAdapter
          (StubConnectivity (replying_connectivity demo_connect demo_disconnect)) :: (_, unit, _) stub_adapter) ''z'') demo_base)
     ''h'' 1883 ''c'' None (4, []) = Some ((True, True, ''hcz''), 5, [])"
  by (rule application_reaches_stub [OF stacking_delivers stacking_delivers stacking_delivers,
    where f = demo_connect and g = demo_disconnect and d = demo_publish and K = demo_constants
      and s = "\<lambda>client w. (88, w)" and v = "\<lambda>client w. (zero_double, w)" and B = demo_base
      and client = "''z''" and h = "''h''" and p = 1883 and c = "''c''" and info = None and w = "(4, [])",
    THEN conjunct1, THEN trans]) (simp add: demo_connect_def)

text \<open>The asynchronous methods of the application's proxies do what the synchronous ones do: over
  a runtime that answers an asynchronous call by calling the function it was given with status and
  results of the blocking call, the callback receives the status and values that the blocking method
  returns, and a null callback is not called.\<close>

theorem async_agrees_with_sync:
  assumes "\<And>t i args inits cb w. call_async R t i args inits cb w =
    (case call_with_reply R t i args inits w of (status, outs, w') \<Rightarrow> (fut, cb status outs w'))"
  shows "SomeIPProxy_connectAsync R h p c cb info w =
      (case SomeIPProxy_connect R h p c info w of ((status, success, message), w') \<Rightarrow>
        (fut, case cb of Some f \<Rightarrow> f status success message w' | None \<Rightarrow> w')) \<and>
    SomeIPProxy_disconnectAsync R cb info w =
      (case SomeIPProxy_disconnect R info w of ((status, success, message), w') \<Rightarrow>
        (fut, case cb of Some f \<Rightarrow> f status success message w' | None \<Rightarrow> w')) \<and>
    SomeIPProxy_publishDiagnosticAsync R code sev det cb info w =
      (case SomeIPProxy_publishDiagnostic R code sev det info w of ((status, success, message), w') \<Rightarrow>
        (fut, case cb of Some f \<Rightarrow> f status success message w' | None \<Rightarrow> w')) \<and>
    SomeIPProxy_getSpeedAsync R scb info w =
      (case SomeIPProxy_getSpeed R info w of ((status, v), w') \<Rightarrow>
        (fut, case scb of Some f \<Rightarrow> f status v w' | None \<Rightarrow> w')) \<and>
    SomeIPProxy_getBatteryVoltageAsync R vcb info w =
      (case SomeIPProxy_getBatteryVoltage R info w of ((status, v), w') \<Rightarrow>
        (fut, case vcb of Some f \<Rightarrow> f status v w' | None \<Rightarrow> w'))"
  by (simp add: assms proxy_defs proxy_async_defs split: prod.split option.split)

definition default_connectivity :: "('c, 'w) dyn_stub" where
  "default_connectivity = StubConnectivity (ConnectivityServiceStubDefault (ConnectivityServiceStubDefault_new 0))"

lemma stacking_runtime_async:
  "call_async (stacking_runtime A client) t i args inits cb w =
     (case call_with_reply (stacking_runtime A client) t i args inits w of
        (status, outs, w') \<Rightarrow> ((), cb status outs w'))"
  by (simp add: stacking_runtime_def)

theorem async_agrees_with_sync_witness:
  "SomeIPProxy_connectAsync
     (stacking_runtime (createConnectivityServiceSomeIPStubAdapter default_connectivity :: (unit, unit, _) stub_adapter) ())
     ''h'' 1883 ''c'' (Some (\<lambda>status success message (v, rs). (v @ [(status, success, message)], rs))) None ([], []) =
   ((), [(True, False, [])], [])"
  using async_agrees_with_sync [OF stacking_runtime_async,
    of "createConnectivityServiceSomeIPStubAdapter default_connectivity :: (unit, unit, _) stub_adapter" "()"
      "''h''" 1883 "''c''" "Some (\<lambda>status success message (v, rs). (v @ [(status, success, message)], rs))"
      None "([], [])"]
  by (simp add: proxy_defs stacking_runtime_def stacking_call_def default_connectivity_def create_adapter_defs
      adapter_defs dispatcher_defs stub_default_defs)

section \<open>Delegates\<close>

text \<open>The class templates are transparent: seen through the abstract proxy of its interface, a template
  object around the generated SOME/IP proxy is that proxy, in every function, the inherited ones
  included; so is one around such an object. A proxy created for another interface leaves the
  delegate null.\<close>

theorem proxies_are_their_delegates:
  "ConnectivityServiceProxy_object (ConnectivityServiceProxy_new (create_proxy b R K B)) =
     (if b = ConnectivityBinding then Some (ConnectivityServiceSomeIPProxy R B) else None) \<and>
   DiagnosticsServiceProxy_object (DiagnosticsServiceProxy_new (create_proxy b R K B)) =
     (if b = DiagnosticsBinding then Some (DiagnosticsServiceSomeIPProxy R B) else None) \<and>
   VehicleSignalServiceProxy_object (VehicleSignalServiceProxy_new (create_proxy b R K B)) =
     (if b = VehicleBinding then Some (VehicleSignalServiceSomeIPProxy R K B) else None)"
proof (cases b)
  case ConnectivityBinding
  have "pb_completionFuture (cp_base (ConnectivityServiceSomeIPProxy R B)) =
      cp_getCompletionFuture (ConnectivityServiceSomeIPProxy R B)"
    by (simp add: someip_proxy_defs ConnectivityServiceSomeIPProxy_getCompletionFuture_def fun_eq_iff)
  from connectivity_object [OF this] ConnectivityBinding show ?thesis
    by (simp add: create_proxy_defs object_defs delegating_new_defs)
next
  case DiagnosticsBinding
  have "pb_completionFuture (dp_base (DiagnosticsServiceSomeIPProxy R B)) =
      dp_getCompletionFuture (DiagnosticsServiceSomeIPProxy R B)"
    by (simp add: someip_proxy_defs DiagnosticsServiceSomeIPProxy_getCompletionFuture_def fun_eq_iff)
  from diagnostics_object [OF this] DiagnosticsBinding show ?thesis
    by (simp add: create_proxy_defs object_defs delegating_new_defs)
next
  case VehicleBinding
  have "pb_completionFuture (vp_base (VehicleSignalServiceSomeIPProxy R K B)) =
      vp_getCompletionFuture (VehicleSignalServiceSomeIPProxy R K B)"
    by (simp add: someip_proxy_defs VehicleSignalServiceSomeIPProxy_getCompletionFuture_def fun_eq_iff)
  from vehicle_object [OF this] VehicleBinding show ?thesis
    by (simp add: create_proxy_defs object_defs delegating_new_defs)
qed

section \<open>The broadcast\<close>

text \<open>Both sides of the broadcast speak of the same event: what the default stub hands to the runtime,
  once it was told its adapter and while that adapter lives, has the identifier and the byte order of
  the event object an application gets from its proxy, and values of the types that object decodes,
  which are those of the interface description; the adapter has registered exactly that event with
  the runtime, and the other two adapters have registered none. How the runtime delivers an event to
  its subscribers is not part of the bindings.\<close>

theorem event_agrees_on_both_sides:
  "\<exists>e. VehicleSignalServiceProxy_getSignalChangedEvent (vehicle_app R K B) = Some e \<and>
     VehicleSignalServiceStubDefault_fireSignalChangedEvent alive send
       (snd (VehicleSignalServiceStubDefault_initStubAdapter adapter (VehicleSignalServiceStubDefault_new this)))
       speed battery w =
     (case adapter of
        Some a \<Rightarrow> if alive a then send a (ew_event e) (ew_little_endian e) [VU16 speed, VDouble battery] w else w
      | None \<Rightarrow> w) \<and>
     has_types [VU16 speed, VDouble battery] (ew_args e) \<and> ew_args e = signal_changed_fidl \<and>
     sa_events (create_adapter b K stub) =
       (if b = VehicleBinding
        then [\<lparr>er_event = ew_event e, er_groups = [ew_group e], er_type = ew_type e, er_reliability = ew_reliability e\<rparr>]
        else [])"
  by (cases b)
    (simp_all add: app_unfold delegating_base_defs SomeIPProxy_signalChanged_def signal_changed_fidl_def
      create_adapter_defs adapter_defs VehicleSignalServiceStubDefault_fireSignalChangedEvent_def
      Stub_fireSignalChangedEvent_def StubAdapter_fireSignalChangedEvent_def
      VehicleSignalServiceStubDefault_initStubAdapter_def VehicleSignalServiceStubDefault_new_def
      split: option.split)

section \<open>Versions, defaults and failures\<close>

text \<open>The version a default stub reports to clients through its adapter is the version the proxies are
  built for, which is that of the interface.\<close>

lemma versions_agree:
  "sa_version (create_adapter ConnectivityBinding K
     (StubConnectivity (ConnectivityServiceStubDefault (ConnectivityServiceStubDefault_new this)))) client =
     Some ConnectivityServiceSomeIPProxy_getOwnVersion"
  "sa_version (create_adapter DiagnosticsBinding K
     (StubDiagnostics (DiagnosticsServiceStubDefault (DiagnosticsServiceStubDefault_new this)))) client =
     Some DiagnosticsServiceSomeIPProxy_getOwnVersion"
  "sa_version (create_adapter VehicleBinding K
     (StubVehicle (VehicleSignalServiceStubDefault (VehicleSignalServiceStubDefault_new this)))) client =
     Some VehicleSignalServiceSomeIPProxy_getOwnVersion"
  by (simp_all add: create_adapter_defs adapter_defs stub_default_defs
      ConnectivityServiceStubDefault_new_def DiagnosticsServiceStubDefault_new_def
      VehicleSignalServiceStubDefault_new_def connectivity_interface_def diagnostics_interface_def
      vehicle_interface_def ConnectivityServiceSomeIPProxy_getOwnVersion_def
      DiagnosticsServiceSomeIPProxy_getOwnVersion_def VehicleSignalServiceSomeIPProxy_getOwnVersion_def)

text \<open>Default stubs refuse: the call succeeds, the reply is false with an empty message, speed 0 and
  voltage 0.\<close>

lemma default_stub_replies:
  "delivers R (createConnectivityServiceSomeIPStubAdapter
      (StubConnectivity (ConnectivityServiceStubDefault cd))) client ok \<Longrightarrow>
    SomeIPProxy_connect R h p c info w = ((ok, False, []), w) \<and>
    SomeIPProxy_disconnect R info w = ((ok, False, []), w)"
  "delivers R (createDiagnosticsServiceSomeIPStubAdapter
      (StubDiagnostics (DiagnosticsServiceStubDefault dd))) client ok \<Longrightarrow>
    SomeIPProxy_publishDiagnostic R code sev det info w = ((ok, False, []), w)"
  "delivers R (createVehicleSignalServiceSomeIPStubAdapter K
      (StubVehicle (VehicleSignalServiceStubDefault vd))) client ok \<Longrightarrow>
    SomeIPProxy_getSpeed R info w = ((ok, 0), w) \<and>
    SomeIPProxy_getBatteryVoltage R info w = ((ok, zero_double), w)"
  by (auto simp: stub_default_defs intro: connectivity_call diagnostics_call vehicle_call)

text \<open>The results of a call that fails are overwritten all the same: \<open>success\<close> and \<open>message\<close> are set
  from the deployables after every call, although the documentation of the proxy says that only the
  call status is set then.\<close>

lemma failed_call_sets_results:
  assumes "call_with_reply R (0x1002, False, False) (info_or_default R info) []
      [VBool (unset_bool R), VString (unset_string R)] w =
    (status, [VBool (unset_bool R), VString (unset_string R)], w')"
  shows "SomeIPProxy_disconnect R info w = ((status, unset_bool R, unset_string R), w')"
  using assms by (simp add: SomeIPProxy_disconnect_def)

end
