(* ===== verification/Binding_Generator.thy ===== *)
theory Binding_Generator
  imports CommonAPI_Types "HOL-Library.Sublist"
begin

text \<open>
  The script \<open>scripts/generate_commonapi.py\<close>: it reads interface descriptions with four regular
  expressions and writes six C++ files for each interface it finds. The expressions are translated to the
  scanners they denote; all of their repetitions are over disjoint character classes, so that a greedy match
  is the only one. Texts are ASCII. Against the scanners stand the tokens of the text: a keyword
  counts exactly if it is a whole word before another word. For descriptions in the layout of \<open>fidl/\<close> this
  decides which methods an interface gets.
\<close>

section \<open>Characters\<close>

text \<open>The class \<open>[A-Za-z0-9_]\<close>, which is also what \<open>\b\<close> looks at, and \<open>\s\<close>.\<close>

definition code_of :: "char \<Rightarrow> nat" where
  "code_of c = of_char c"

definition word_char :: "char \<Rightarrow> bool" where
  "word_char c \<longleftrightarrow> 48 \<le> code_of c \<and> code_of c \<le> 57 \<or> 65 \<le> code_of c \<and> code_of c \<le> 90 \<or>
     code_of c = 95 \<or> 97 \<le> code_of c \<and> code_of c \<le> 122"

definition space_char :: "char \<Rightarrow> bool" where
  "space_char c \<longleftrightarrow> 9 \<le> code_of c \<and> code_of c \<le> 13 \<or> 28 \<le> code_of c \<and> code_of c \<le> 32"

definition package_char :: "char \<Rightarrow> bool" where
  "package_char c \<longleftrightarrow> word_char c \<or> c = CHR ''.''"

lemma space_not_word [simp]: "space_char c \<Longrightarrow> \<not> word_char c"
  by (auto simp: space_char_def word_char_def)

lemma word_not_space [simp]: "word_char c \<Longrightarrow> \<not> space_char c"
  by (auto simp: space_char_def word_char_def)

section \<open>The regular expressions\<close>

fun strip :: "string \<Rightarrow> string \<Rightarrow> string option" where
  "strip [] ys = Some ys"
| "strip (x # xs) [] = None"
| "strip (x # xs) (y # ys) = (if x = y then strip xs ys else None)"

lemma strip_Some: "strip w ys = Some r \<longleftrightarrow> ys = w @ r"
  by (induction w ys rule: strip.induct) auto

text \<open>A keyword, \<open>\s+\<close>, and a name of characters of the class \<open>P\<close>: the name and what follows it.\<close>

definition after_keyword :: "(char \<Rightarrow> bool) \<Rightarrow> string \<Rightarrow> string \<Rightarrow> (string \<times> string) option" where
  "after_keyword P w text =
     (case strip w text of
        None \<Rightarrow> None
      | Some r \<Rightarrow>
          let n = dropWhile space_char r in
          if takeWhile space_char r = [] \<or> takeWhile P n = [] then None
          else Some (takeWhile P n, dropWhile P n))"

lemma after_keyword_shorter:
  assumes "after_keyword P w text = Some (name, rest)"
  shows "length rest < length text"
proof -
  from assms obtain r where r: "text = w @ r" "takeWhile space_char r \<noteq> []"
    "rest = dropWhile P (dropWhile space_char r)"
    by (auto simp: after_keyword_def strip_Some Let_def split: option.splits if_splits)
  have "length (dropWhile P (dropWhile space_char r)) \<le> length (dropWhile space_char r)"
    by (rule length_dropWhile_le)
  also have "\<dots> < length r"
    using r(2) length_dropWhile_le [of space_char "tl r"] by (cases r) (auto split: if_splits)
  finally show ?thesis using r by simp
qed

text \<open>\<open>^package\s+([A-Za-z0-9_\.]+)\<close> with \<open>MULTILINE\<close>; the flag is the start of a line.\<close>

fun find_package :: "bool \<Rightarrow> string \<Rightarrow> string option" where
  "find_package start [] = None"
| "find_package start (c # cs) =
     (case (if start then after_keyword package_char ''package'' (c # cs) else None) of
        Some (name, rest) \<Rightarrow> Some name
      | None \<Rightarrow> find_package (c = CHR 0x0A) cs)"

text \<open>\<open>\bmethod\s+([A-Za-z0-9_]+)\<close>, and the same for \<open>broadcast\<close>; the flag says that the character before
  is a word character.\<close>

function find_names :: "string \<Rightarrow> bool \<Rightarrow> string \<Rightarrow> string list" where
  "find_names w inside [] = []"
| "find_names w inside (c # cs) =
     (case (if inside then None else after_keyword word_char w (c # cs)) of
        Some (name, rest) \<Rightarrow> name # find_names w True rest
      | None \<Rightarrow> find_names w (word_char c) cs)"
  by pat_completeness auto
termination
  by (relation "measure (\<lambda>(w, inside, text). length text)")
    (auto dest: after_keyword_shorter split: if_splits)

text \<open>\<open>interface\s+([A-Za-z0-9_]+)\s*\{\<close>, with the text from the start of each match on.\<close>

definition match_interface :: "string \<Rightarrow> (string \<times> string) option" where
  "match_interface text =
     (case after_keyword word_char ''interface'' text of
        None \<Rightarrow> None
      | Some (name, rest) \<Rightarrow>
          (case dropWhile space_char rest of
             [] \<Rightarrow> None
           | c # r \<Rightarrow> if c = CHR ''{'' then Some (name, r) else None))"

lemma match_interface_shorter:
  assumes "match_interface text = Some (name, rest)"
  shows "length rest < length text"
proof -
  from assms obtain r where r: "after_keyword word_char ''interface'' text = Some (name, r)"
    "dropWhile space_char r = CHR ''{'' # rest"
    by (auto simp: match_interface_def split: option.splits prod.splits list.splits if_splits)
  have "length rest < length (dropWhile space_char r)" using r(2) by simp
  also have "\<dots> \<le> length r" by (rule length_dropWhile_le)
  finally show ?thesis using after_keyword_shorter [OF r(1)] by simp
qed

function find_interfaces :: "string \<Rightarrow> (string \<times> string) list" where
  "find_interfaces [] = []"
| "find_interfaces (c # cs) =
     (case match_interface (c # cs) of
        Some (name, rest) \<Rightarrow> (name, c # cs) # find_interfaces rest
      | None \<Rightarrow> find_interfaces cs)"
  by pat_completeness auto
termination
  by (relation "measure length") (auto dest: match_interface_shorter)

section \<open>The files\<close>

definition code_line :: "string \<Rightarrow> string" where
  "code_line s = s @ [CHR 0x0A]"

definition code_lines :: "string list \<Rightarrow> string" where
  "code_lines ls = concat (map code_line ls)"

definition namespace_open :: "string \<Rightarrow> string list" where
  "namespace_open pkg = [''namespace '' @ pkg @ '' {'', []]"

definition namespace_close :: "string \<Rightarrow> string list" where
  "namespace_close pkg = [[], ''}  // namespace '' @ pkg]"

definition include_line :: "string \<Rightarrow> string \<Rightarrow> string" where
  "include_line pkg name = ''#include \"'' @ pkg @ ''/'' @ name @ ''.hpp\"''"

definition interface_header :: "string \<Rightarrow> string \<Rightarrow> string list \<Rightarrow> string list \<Rightarrow> string" where
  "interface_header pkg name ms bs = code_lines
     ([''#pragma once'', [], ''#include <string>'', []] @ namespace_open pkg @
      [''class '' @ name @ '' {'', '' public:'', ''  virtual ~'' @ name @ ''() = default;''] @
      map (\<lambda>m. ''  virtual bool '' @ m @ ''(const std::string& payload) = 0;'') ms @
      map (\<lambda>b. ''  virtual void '' @ b @ ''(const std::string& payload) = 0;'') bs @
      [''};''] @ namespace_close pkg)"

definition interface_source :: "string \<Rightarrow> string \<Rightarrow> string" where
  "interface_source pkg name = code_lines ([include_line pkg name, []] @ namespace_open pkg @ [''}  // namespace '' @ pkg])"

definition proxy_header :: "string \<Rightarrow> string \<Rightarrow> string list \<Rightarrow> string list \<Rightarrow> string" where
  "proxy_header pkg name ms bs = code_lines
     ([''#pragma once'', [], ''#include <string>'', ''#include <utility>'', [], include_line pkg name, []] @
      namespace_open pkg @
      [''class '' @ name @ ''Proxy {'', '' public:'',
       ''  explicit '' @ name @ ''Proxy(std::string endpoint = \"local\") : endpoint_(std::move(endpoint)) {}'', [],
       ''  bool invoke(const std::string& method_name, const std::string& payload) const;''] @
      map (\<lambda>m. ''  bool '' @ m @ ''(const std::string& payload) const;'') ms @
      map (\<lambda>b. ''  void '' @ b @ ''(const std::string& payload) const;'') bs @
      [[], '' private:'', ''  std::string endpoint_;'', ''};''] @ namespace_close pkg)"

definition proxy_source :: "string \<Rightarrow> string \<Rightarrow> string list \<Rightarrow> string list \<Rightarrow> string" where
  "proxy_source pkg name ms bs = code_lines
     ([include_line pkg (name @ ''Proxy''), [], ''#include <utility>'', []] @ namespace_open pkg @
      [''bool '' @ name @ ''Proxy::invoke(const std::string& method_name, const std::string& payload) const {'',
       ''  return !method_name.empty() && !payload.empty();'', ''}''] @
      concat (map (\<lambda>m. [''bool '' @ name @ ''Proxy::'' @ m @ ''(const std::string& payload) const {'',
        ''  return invoke(\"'' @ m @ ''\", payload);'', ''}'']) ms) @
      concat (map (\<lambda>b. [''void '' @ name @ ''Proxy::'' @ b @ ''(const std::string& payload) const {'',
        ''  (void)payload;'', ''}'']) bs) @
      namespace_close pkg)"

definition stub_header :: "string \<Rightarrow> string \<Rightarrow> string list \<Rightarrow> string list \<Rightarrow> string" where
  "stub_header pkg name ms bs = code_lines
     ([''#pragma once'', [], ''#include <string>'', [], include_line pkg name, []] @ namespace_open pkg @
      [''class '' @ name @ ''Stub : public '' @ name @ '' {'', '' public:'',
       ''  bool getLastMethod() const { return last_method_called_; }'', [],
       ''  bool getLastMethod() const;''] @
      map (\<lambda>m. ''  bool '' @ m @ ''(const std::string& payload) override;'') ms @
      map (\<lambda>b. ''  void '' @ b @ ''(const std::string& payload) override;'') bs @
      [[], '' private:'', ''  bool last_method_called_{false};'', ''};''] @ namespace_close pkg)"

definition stub_source :: "string \<Rightarrow> string \<Rightarrow> string list \<Rightarrow> string list \<Rightarrow> string" where
  "stub_source pkg name ms bs = code_lines
     ([include_line pkg (name @ ''Stub''), []] @ namespace_open pkg @
      [''bool '' @ name @ ''Stub::getLastMethod() const {'', ''  return last_method_called_;'', ''}''] @
      concat (map (\<lambda>m. [''bool '' @ name @ ''Stub::'' @ m @ ''(const std::string& payload) {'',
        ''  last_method_called_ = true;'', ''  return !payload.empty();'', ''}'']) ms) @
      concat (map (\<lambda>b. [''void '' @ name @ ''Stub::'' @ b @ ''(const std::string& payload) {'',
        ''  (void)payload;'', ''}'']) bs) @
      namespace_close pkg)"

text \<open>What is written for one interface: paths below the output directory, with their contents.\<close>

definition interface_files ::
  "string \<Rightarrow> string \<Rightarrow> string list \<Rightarrow> string list \<Rightarrow> ((string \<times> string) \<times> string) list" where
  "interface_files pkg name ms bs =
     [((pkg, name @ ''.hpp''), interface_header pkg name ms bs),
      ((pkg, name @ ''.cpp''), interface_source pkg name),
      ((pkg, name @ ''Proxy.hpp''), proxy_header pkg name ms bs),
      ((pkg, name @ ''Proxy.cpp''), proxy_source pkg name ms bs),
      ((pkg, name @ ''Stub.hpp''), stub_header pkg name ms bs),
      ((pkg, name @ ''Stub.cpp''), stub_source pkg name ms bs)]"

text \<open>One pass of the outer loop, and the script on the texts of the directory in the order of their names;
  a later write to a path replaces an earlier one.\<close>

definition generate_bindings :: "string \<Rightarrow> ((string \<times> string) \<times> string) list" where
  "generate_bindings input =
     (case find_package True input of
        None \<Rightarrow> []
      | Some pkg \<Rightarrow> concat (map (\<lambda>(name, block).
          interface_files pkg name (find_names ''method'' False block) (find_names ''broadcast'' False block))
          (find_interfaces input)))"

definition generate_commonapi :: "string list \<Rightarrow> (string \<times> string) \<Rightarrow> string option" where
  "generate_commonapi inputs = map_of (rev (concat (map generate_bindings inputs)))"

section \<open>The tokens of a text\<close>

text \<open>Words and single other characters; white space only separates.\<close>

function tokens :: "string \<Rightarrow> string list" where
  "tokens [] = []"
| "tokens (c # cs) =
     (if word_char c then (c # takeWhile word_char cs) # tokens (dropWhile word_char cs)
      else if space_char c then tokens cs else [c] # tokens cs)"
  by pat_completeness auto
termination
  by (relation "measure length") (auto simp: le_imp_less_Suc length_dropWhile_le)

definition is_word :: "string \<Rightarrow> bool" where
  "is_word t \<longleftrightarrow> t \<noteq> [] \<and> list_all word_char t"

text \<open>The names after a keyword, read from the tokens: a name is not looked at again.\<close>

fun names_after :: "string \<Rightarrow> string list \<Rightarrow> string list" where
  "names_after w (a # b # ts) =
     (if a = w \<and> is_word b then b # names_after w ts else names_after w (b # ts))"
| "names_after w ts = []"

lemma names_after_other [simp]: "a \<noteq> w \<Longrightarrow> names_after w (a # ts) = names_after w ts"
  by (cases ts) simp_all

lemma names_after_punctuation: "is_word w \<Longrightarrow> \<not> word_char c \<Longrightarrow> names_after w ([c] # ts) = names_after w ts"
  by (rule names_after_other) (auto simp: is_word_def)

lemma names_after_no_word [simp]: "\<not> is_word b \<Longrightarrow> names_after w (w # b # ts) = names_after w (b # ts)"
  by simp

lemma tokens_skip_spaces [simp]: "tokens (dropWhile space_char xs) = tokens xs"
  by (induction xs) auto

lemma tokens_word:
  assumes "is_word r" and "rest = [] \<or> \<not> word_char (hd rest)"
  shows "tokens (r @ rest) = r # tokens rest"
proof -
  obtain c cs where r: "r = c # cs" "word_char c" "\<forall>x \<in> set cs. word_char x"
    using assms(1) by (cases r) (auto simp: is_word_def list_all_iff)
  have "takeWhile word_char (cs @ rest) = cs" "dropWhile word_char (cs @ rest) = rest"
    using r(3) assms(2) by (cases rest; simp)+
  with r show ?thesis by simp
qed

lemma word_run:
  assumes "word_char c"
  obtains r rest where "c # cs = r @ rest" "is_word r" "rest = [] \<or> \<not> word_char (hd rest)"
proof -
  have "is_word (takeWhile word_char (c # cs))"
    using assms by (auto simp: is_word_def list_all_iff dest: set_takeWhileD)
  moreover have "dropWhile word_char (c # cs) = [] \<or> \<not> word_char (hd (dropWhile word_char (c # cs)))"
    using hd_dropWhile by blast
  ultimately show thesis using that takeWhile_dropWhile_id by metis
qed

section \<open>The expressions read tokens\<close>

lemma keyword_run:
  assumes "is_word r" and "rest = [] \<or> \<not> word_char (hd rest)" and "is_word w"
  shows "after_keyword word_char w (r @ rest) =
    (let n = dropWhile space_char rest in
     if r \<noteq> w \<or> takeWhile space_char rest = [] \<or> takeWhile word_char n = [] then None
     else Some (takeWhile word_char n, dropWhile word_char n))"
proof (cases "r = w")
  case True
  have "strip w (w @ rest) = Some rest" by (simp add: strip_Some)
  with True show ?thesis by (simp add: after_keyword_def)
next
  case False
  have "takeWhile space_char q = []" if "strip w (r @ rest) = Some q" for q
  proof -
    from that obtain us where "r = w @ us \<and> us @ rest = q \<or> w = r @ us \<and> rest = us @ q"
      by (auto simp: strip_Some append_eq_append_conv2)
    moreover have "us \<noteq> []" using calculation False by auto
    ultimately show ?thesis
      using assms by (cases us) (auto simp: is_word_def)
  qed
  with False show ?thesis by (auto simp: after_keyword_def Let_def split: option.split)
qed

lemma keyword_no_word: "is_word w \<Longrightarrow> \<not> word_char c \<Longrightarrow> after_keyword P w (c # cs) = None"
  by (cases w) (auto simp: after_keyword_def is_word_def)

lemma find_names_inside:
  "is_word w \<Longrightarrow> find_names w True xs = find_names w False (dropWhile word_char xs)"
proof (induction xs)
  case Nil
  show ?case by simp
next
  case (Cons c cs)
  then show ?case by (cases "word_char c") (simp_all add: keyword_no_word)
qed

lemma find_names_run:
  assumes "is_word r" and "rest = [] \<or> \<not> word_char (hd rest)" and "is_word w"
  shows "find_names w False (r @ rest) =
    (case after_keyword word_char w (r @ rest) of
       Some (name, rest') \<Rightarrow> name # find_names w False (dropWhile word_char rest')
     | None \<Rightarrow> find_names w False rest)"
proof -
  obtain c cs where r: "r = c # cs" "word_char c" "\<forall>x \<in> set cs. word_char x"
    using assms(1) by (cases r) (auto simp: is_word_def list_all_iff)
  have "dropWhile word_char (cs @ rest) = rest" using r(3) assms(2) by (cases rest) simp_all
  with r(1,2) find_names_inside [OF assms(3)] show ?thesis
    by (simp split: option.split)
qed

text \<open>What follows a word, if not another one after white space.\<close>

lemma names_after_gap:
  assumes "rest = [] \<or> \<not> word_char (hd rest)"
    and "takeWhile space_char rest = [] \<or> takeWhile word_char (dropWhile space_char rest) = []"
  shows "names_after w (t # tokens rest) = names_after w (tokens rest)"
proof -
  have "tokens rest = [] \<or> (\<exists>p ts. tokens rest = [p] # ts \<and> \<not> word_char p)"
  proof (cases "dropWhile space_char rest")
    case Nil
    then have "tokens rest = []" by (metis tokens.simps(1) tokens_skip_spaces)
    then show ?thesis ..
  next
    case (Cons p ps)
    have "\<not> space_char p" using Cons hd_dropWhile [of space_char rest] by simp
    moreover have "\<not> word_char p"
    proof (cases "takeWhile space_char rest")
      case Nil
      then have "rest = p # ps" using Cons takeWhile_dropWhile_id [of space_char rest] by simp
      with assms(1) show ?thesis by simp
    next
      case (Cons x xs)
      with assms(2) \<open>dropWhile space_char rest = p # ps\<close> show ?thesis by (auto split: if_splits)
    qed
    ultimately have "tokens rest = [p] # tokens ps" using Cons tokens_skip_spaces [of rest] by simp
    with \<open>\<not> word_char p\<close> show ?thesis by blast
  qed
  then show ?thesis by (auto simp: is_word_def)
qed

lemma find_names_reads_tokens:
  assumes "is_word w"
  shows "find_names w False xs = names_after w (tokens xs)"
proof (induction xs rule: measure_induct_rule [where f = length])
  case (less xs)
  show ?case
  proof (cases xs)
    case Nil
    then show ?thesis by simp
  next
    case (Cons c cs)
    show ?thesis
    proof (cases "word_char c")
      case False
      with Cons assms less [of cs] show ?thesis by (simp add: keyword_no_word names_after_punctuation)
    next
      case True
      obtain r rest where r: "c # cs = r @ rest" "is_word r" "rest = [] \<or> \<not> word_char (hd rest)"
        using word_run [OF True] by blast
      have shorter: "length rest < length xs" using r Cons by (auto simp: is_word_def dest: arg_cong [where f = length])
      let ?n = "dropWhile space_char rest"
      have toks: "tokens xs = r # tokens rest" using tokens_word [OF r(2,3)] r(1) Cons by simp
      note run = find_names_run [OF r(2,3) assms] keyword_run [OF r(2,3) assms]
      show ?thesis
      proof (cases "r \<noteq> w \<or> takeWhile space_char rest = [] \<or> takeWhile word_char ?n = []")
        case True
        then have "find_names w False xs = find_names w False rest" using run r(1) Cons by (simp add: Let_def)
        moreover have "names_after w (tokens xs) = names_after w (tokens rest)"
          using True names_after_gap [OF r(3)] toks by auto
        ultimately show ?thesis using less [OF shorter] by simp
      next
        case False
        let ?name = "takeWhile word_char ?n" and ?after = "dropWhile word_char ?n"
        have name: "is_word ?name" using False by (auto simp: is_word_def list_all_iff dest: set_takeWhileD)
        have "?after = [] \<or> \<not> word_char (hd ?after)" using hd_dropWhile by blast
        from tokens_word [OF name this] have "tokens rest = ?name # tokens ?after" by simp
        with False toks name have "names_after w (tokens xs) = ?name # names_after w (tokens ?after)" by simp
        moreover have "find_names w False xs = ?name # find_names w False ?after"
          using False run r(1) Cons by (simp add: Let_def)
        moreover have "length ?after < length xs"
          using shorter length_dropWhile_le [of word_char ?n] length_dropWhile_le [of space_char rest] by simp
        ultimately show ?thesis using less by simp
      qed
    qed
  qed
qed

text \<open>Interfaces: a word that ends with the keyword, a name, an opening brace; with each, the tokens from the
  keyword on.\<close>

fun interfaces_in :: "string list \<Rightarrow> (string \<times> string list) list" where
  "interfaces_in (a # b # c # ts) =
     (if suffix ''interface'' a \<and> is_word b \<and> c = ''{''
      then (b, ''interface'' # b # c # ts) # interfaces_in ts
      else interfaces_in (b # c # ts))"
| "interfaces_in ts = []"

definition head_of :: "string list \<Rightarrow> bool" where
  "head_of ts \<longleftrightarrow> (\<exists>b us. ts = b # ''{'' # us \<and> is_word b)"

lemma head_of_brace [simp]: "head_of (b # ''{'' # us) = is_word b"
  by (auto simp: head_of_def)

lemma interfaces_in_skip:
  "\<not> (suffix ''interface'' a \<and> head_of ts) \<Longrightarrow> interfaces_in (a # ts) = interfaces_in ts"
  by (cases "a # ts" rule: interfaces_in.cases) (auto simp: head_of_def)

lemma is_word_interface [simp]: "is_word ''interface''" "is_word ''nterface''"
  by (simp_all add: is_word_def word_char_def code_of_def)

lemma brace_no_word [simp]: "\<not> word_char (CHR ''{'')" "\<not> space_char (CHR ''{'')"
  by (simp_all add: word_char_def space_char_def code_of_def)

lemma tokens_brace:
  assumes "tokens ys = ''{'' # ts"
  obtains r where "dropWhile space_char ys = CHR ''{'' # r" "tokens r = ts"
proof -
  have "tokens (dropWhile space_char ys) = ''{'' # ts" using assms by simp
  moreover have "\<not> space_char p" if "dropWhile space_char ys = p # ps" for p ps
    using that hd_dropWhile [of space_char ys] by simp
  ultimately show thesis
    by (cases "dropWhile space_char ys") (auto split: if_splits intro: that)
qed

lemma tokens_name:
  assumes "tokens rest = b # ts" and "is_word b" and "rest = [] \<or> \<not> word_char (hd rest)"
  shows "takeWhile space_char rest \<noteq> [] \<and> b = takeWhile word_char (dropWhile space_char rest) \<and>
    ts = tokens (dropWhile word_char (dropWhile space_char rest))"
proof -
  have t: "tokens (dropWhile space_char rest) = b # ts" using assms(1) by simp
  then obtain p ps where p: "dropWhile space_char rest = p # ps" "\<not> space_char p"
    using hd_dropWhile [of space_char rest] by (cases "dropWhile space_char rest") auto
  with t assms(2) have w: "word_char p" by (auto simp: is_word_def split: if_splits)
  have "takeWhile space_char rest \<noteq> []"
  proof
    assume "takeWhile space_char rest = []"
    then have "rest = p # ps" using p(1) takeWhile_dropWhile_id [of space_char rest] by simp
    with w assms(3) show False by simp
  qed
  with t p w show ?thesis by auto
qed

lemma match_interface_tokens:
  assumes "rest = [] \<or> \<not> word_char (hd rest)"
  shows "case match_interface (''interface'' @ rest) of
      None \<Rightarrow> \<not> head_of (tokens rest)
    | Some (name, r) \<Rightarrow> is_word name \<and> tokens rest = name # ''{'' # tokens r \<and> length r < length rest"
proof (cases "match_interface (''interface'' @ rest)")
  case None
  have "\<not> head_of (tokens rest)"
  proof
    assume "head_of (tokens rest)"
    then obtain b ts where b: "tokens rest = b # ''{'' # ts" "is_word b" by (auto simp: head_of_def)
    let ?n = "dropWhile space_char rest"
    from tokens_name [OF b assms] have n: "takeWhile space_char rest \<noteq> []" "b = takeWhile word_char ?n"
      "tokens (dropWhile word_char ?n) = ''{'' # ts" by simp_all
    from tokens_brace [OF n(3)] obtain r where "dropWhile space_char (dropWhile word_char ?n) = CHR ''{'' # r" .
    with n(1,2) b(2) keyword_run [OF is_word_interface(1) assms is_word_interface(1)] None show False
      by (auto simp: match_interface_def Let_def is_word_def)
  qed
  with None show ?thesis by simp
next
  case (Some m)
  obtain name r where m: "m = (name, r)" by (cases m)
  let ?n = "dropWhile space_char rest"
  from Some m obtain r1 where k: "after_keyword word_char ''interface'' (''interface'' @ rest) = Some (name, r1)"
    "dropWhile space_char r1 = CHR ''{'' # r"
    by (auto simp: match_interface_def split: option.splits prod.splits list.splits if_splits)
  from k(1) keyword_run [OF is_word_interface(1) assms is_word_interface(1)]
  have n: "name = takeWhile word_char ?n" "r1 = dropWhile word_char ?n" "name \<noteq> []"
    by (auto simp: Let_def split: if_splits)
  have w: "is_word name" using n(1,3) by (auto simp: is_word_def list_all_iff dest: set_takeWhileD)
  have "r1 = [] \<or> \<not> word_char (hd r1)" using n(2) hd_dropWhile by blast
  from tokens_word [OF w this] n have "tokens rest = name # tokens r1" by simp
  moreover have "tokens r1 = ''{'' # tokens r" using k(2) tokens_skip_spaces [of r1] by simp
  moreover have "length r < length rest"
    using arg_cong [OF k(2), of length] length_dropWhile_le [of space_char r1] n(2)
      length_dropWhile_le [of word_char ?n] length_dropWhile_le [of space_char rest] by simp
  ultimately show ?thesis using Some m w by simp
qed

lemma match_interface_other:
  "is_word r \<Longrightarrow> rest = [] \<or> \<not> word_char (hd rest) \<Longrightarrow> r \<noteq> ''interface'' \<Longrightarrow> match_interface (r @ rest) = None"
  using keyword_run [OF _ _ is_word_interface(1)] by (simp add: match_interface_def Let_def)

lemma find_interfaces_run:
  assumes "is_word r" and "rest = [] \<or> \<not> word_char (hd rest)"
  shows "find_interfaces (r @ rest) =
    (if suffix ''interface'' r then find_interfaces (''interface'' @ rest) else find_interfaces rest)"
  using assms(1)
proof (induction r)
  case Nil
  then show ?case by (simp add: is_word_def)
next
  case (Cons c cs)
  show ?case
  proof (cases "c # cs = ''interface''")
    case True
    then show ?thesis by simp
  next
    case False
    from match_interface_other [OF Cons.prems assms(2) False]
    have step: "find_interfaces (c # cs @ rest) = find_interfaces (cs @ rest)" by simp
    show ?thesis
    proof (cases cs)
      case Nil
      then have "\<not> suffix ''interface'' (c # cs)" by (auto simp: suffix_def append_eq_Cons_conv)
      with step Nil show ?thesis by simp
    next
      case (Cons d ds)
      then have "is_word cs" using Cons.prems by (simp add: is_word_def)
      moreover have "suffix ''interface'' (c # cs) \<longleftrightarrow> suffix ''interface'' cs"
        using False suffix_Cons by metis
      ultimately show ?thesis using Cons.IH step by simp
    qed
  qed
qed

lemma find_interfaces_keyword:
  assumes "rest = [] \<or> \<not> word_char (hd rest)"
  shows "find_interfaces (''interface'' @ rest) =
    (case match_interface (''interface'' @ rest) of
       Some (name, r) \<Rightarrow> (name, ''interface'' @ rest) # find_interfaces r
     | None \<Rightarrow> find_interfaces rest)"
proof -
  have "\<not> suffix ''interface'' ''nterface''" by (simp add: suffix_def)
  with find_interfaces_run [OF is_word_interface(2) assms]
  have "find_interfaces (''nterface'' @ rest) = find_interfaces rest" by simp
  then show ?thesis by (simp split: option.split)
qed

lemma find_interfaces_punctuation:
  "\<not> word_char c \<Longrightarrow> find_interfaces (c # cs) = find_interfaces cs"
  by (simp add: match_interface_def keyword_no_word)

lemma interfaces_read_tokens:
  "map (\<lambda>(name, block). (name, tokens block)) (find_interfaces xs) = interfaces_in (tokens xs)"
proof (induction xs rule: measure_induct_rule [where f = length])
  case (less xs)
  show ?case
  proof (cases xs)
    case Nil
    then show ?thesis by simp
  next
    case (Cons c cs)
    show ?thesis
    proof (cases "word_char c")
      case False
      have "\<not> suffix ''interface'' [c]" by (auto simp: suffix_def append_eq_Cons_conv)
      then have "interfaces_in ([c] # tokens cs) = interfaces_in (tokens cs)"
        by (intro interfaces_in_skip) blast
      with Cons False less [of cs] show ?thesis by (simp add: find_interfaces_punctuation del: find_interfaces.simps)
    next
      case True
      obtain r rest where r: "c # cs = r @ rest" "is_word r" "rest = [] \<or> \<not> word_char (hd rest)"
        using word_run [OF True] by blast
      have shorter: "length rest < length xs"
        using r Cons by (auto simp: is_word_def dest: arg_cong [where f = length])
      have toks: "tokens xs = r # tokens rest" using tokens_word [OF r(2,3)] r(1) Cons by simp
      have run: "find_interfaces xs =
          (if suffix ''interface'' r then find_interfaces (''interface'' @ rest) else find_interfaces rest)"
        using find_interfaces_run [OF r(2,3)] r(1) Cons by simp
      note key = find_interfaces_keyword [OF r(3)] match_interface_tokens [OF r(3)]
      show ?thesis
      proof (cases "suffix ''interface'' r \<and> head_of (tokens rest)")
        case False
        then have "find_interfaces xs = find_interfaces rest" using run key by (auto split: option.splits)
        with interfaces_in_skip [OF False] less [OF shorter] toks show ?thesis by simp
      next
        case True
        with key(2) obtain name r1 where m: "match_interface (''interface'' @ rest) = Some (name, r1)"
          "is_word name" "tokens rest = name # ''{'' # tokens r1" "length r1 < length rest"
          by (auto split: option.splits)
        have "tokens (''interface'' @ rest) = ''interface'' # tokens rest"
          by (rule tokens_word [OF is_word_interface(1) r(3)])
        with m True run key(1) less [of r1] shorter toks show ?thesis by simp
      qed
    qed
  qed
qed

section \<open>Interface descriptions\<close>

text \<open>The part of Franca that \<open>fidl/\<close> uses: parameters are pairs of type and name.\<close>

record fidl_operation =
  fo_name :: string
  fo_in :: "(string \<times> string) list"
  fo_out :: "(string \<times> string) list"

record fidl_interface =
  fi_name :: string
  fi_methods :: "fidl_operation list"
  fi_broadcasts :: "fidl_operation list"

definition indent :: "nat \<Rightarrow> string" where
  "indent n = replicate n (CHR '' '')"

definition print_args :: "string \<Rightarrow> (string \<times> string) list \<Rightarrow> string list" where
  "print_args direction args =
     (if args = [] then []
      else [indent 8 @ direction @ '' {''] @ map (\<lambda>(t, x). indent 12 @ t @ '' '' @ x) args @ [indent 8 @ ''}''])"

definition print_operation :: "string \<Rightarrow> fidl_operation \<Rightarrow> string list" where
  "print_operation kind f =
     [[], indent 4 @ kind @ '' '' @ fo_name f @ '' {''] @ print_args ''in'' (fo_in f) @
     print_args ''out'' (fo_out f) @ [indent 4 @ ''}'']"

definition print_interface :: "fidl_interface \<Rightarrow> string list" where
  "print_interface i =
     [[], ''interface '' @ fi_name i @ '' {'', indent 4 @ ''version { major 1 minor 0 }''] @
     concat (map (print_operation ''method'') (fi_methods i)) @
     concat (map (print_operation ''broadcast'') (fi_broadcasts i)) @ [''}'']"

definition print_fidl :: "string \<Rightarrow> fidl_interface list \<Rightarrow> string" where
  "print_fidl pkg is = code_lines ([''package '' @ pkg] @ concat (map print_interface is))"

definition plain_args :: "(string \<times> string) list \<Rightarrow> bool" where
  "plain_args args \<longleftrightarrow>
     list_all (\<lambda>(t, x). is_word t \<and> is_word x \<and> {t, x} \<inter> {''method'', ''broadcast''} = {}) args"

definition plain_operation :: "fidl_operation \<Rightarrow> bool" where
  "plain_operation f \<longleftrightarrow> is_word (fo_name f) \<and> plain_args (fo_in f) \<and> plain_args (fo_out f)"

text \<open>Names are identifiers; no type or parameter is called \<open>method\<close> or \<open>broadcast\<close>.\<close>

definition plain_interface :: "fidl_interface \<Rightarrow> bool" where
  "plain_interface i \<longleftrightarrow> is_word (fi_name i) \<and> list_all plain_operation (fi_methods i @ fi_broadcasts i)"

subsection \<open>The descriptions of the repository\<close>

definition connectivity_description :: fidl_interface where
  "connectivity_description =
     \<lparr>fi_name = ''ConnectivityService'',
      fi_methods =
        [\<lparr>fo_name = ''connect'',
          fo_in = [(''String'', ''brokerHost''), (''UInt16'', ''brokerPort''), (''String'', ''clientId'')],
          fo_out = [(''Boolean'', ''success''), (''String'', ''message'')]\<rparr>,
         \<lparr>fo_name = ''disconnect'', fo_in = [],
          fo_out = [(''Boolean'', ''success''), (''String'', ''message'')]\<rparr>],
      fi_broadcasts = []\<rparr>"

definition diagnostics_description :: fidl_interface where
  "diagnostics_description =
     \<lparr>fi_name = ''DiagnosticsService'',
      fi_methods =
        [\<lparr>fo_name = ''publishDiagnostic'',
          fo_in = [(''String'', ''code''), (''String'', ''severity''), (''String'', ''detail'')],
          fo_out = [(''Boolean'', ''success''), (''String'', ''message'')]\<rparr>],
      fi_broadcasts = []\<rparr>"

definition vehicle_description :: fidl_interface where
  "vehicle_description =
     \<lparr>fi_name = ''VehicleSignalService'',
      fi_methods =
        [\<lparr>fo_name = ''getSpeed'', fo_in = [], fo_out = [(''UInt16'', ''speed'')]\<rparr>,
         \<lparr>fo_name = ''getBatteryVoltage'', fo_in = [], fo_out = [(''Double'', ''voltage'')]\<rparr>],
      fi_broadcasts =
        [\<lparr>fo_name = ''SignalChanged'', fo_in = [],
          fo_out = [(''UInt16'', ''speed''), (''Double'', ''battery'')]\<rparr>]\<rparr>"

section \<open>The tokens of a description\<close>

lemma tokens_append:
  assumes "\<not> word_char c"
  shows "tokens (xs @ c # ys) = tokens xs @ tokens (c # ys)"
proof (induction xs rule: tokens.induct)
  case 1
  then show ?case by simp
next
  case (2 x xs)
  show ?case
  proof (cases "word_char x")
    case True
    have "takeWhile word_char (xs @ c # ys) = takeWhile word_char xs"
      "dropWhile word_char (xs @ c # ys) = dropWhile word_char xs @ c # ys"
      using assms by (induction xs) auto
    with True 2 show ?thesis by simp
  next
    case False
    with 2 show ?thesis by (cases "space_char x") simp_all
  qed
qed

lemma tokens_single: "is_word r \<Longrightarrow> tokens r = [r]"
  using tokens_word [of r "[]"] by simp

lemma tokens_words: "is_word r \<Longrightarrow> \<not> word_char c \<Longrightarrow> tokens (r @ c # ys) = r # tokens (c # ys)"
  by (simp add: tokens_append tokens_single del: tokens.simps(2))

lemma separators [simp]:
  "space_char (CHR '' '')" "\<not> word_char (CHR '' '')" "space_char (CHR 0x0A)" "\<not> word_char (CHR 0x0A)"
  "\<not> word_char (CHR ''}'')" "\<not> space_char (CHR ''}'')"
  by (simp_all add: space_char_def word_char_def code_of_def)

lemma tokens_lines [simp]: "tokens (code_lines ls) = concat (map tokens ls)"
proof (induction ls)
  case Nil
  then show ?case by (simp add: code_lines_def)
next
  case (Cons l ls)
  have "tokens (l @ CHR 0x0A # code_lines ls) = tokens l @ tokens (code_lines ls)" by (simp add: tokens_append)
  with Cons show ?case by (simp add: code_lines_def code_line_def)
qed

lemma tokens_indent [simp]: "tokens (indent n @ xs) = tokens xs"
  by (induction n) (simp_all add: indent_def)

lemma fidl_words [simp]:
  "is_word ''method''" "is_word ''broadcast''" "is_word ''in''" "is_word ''out''" "is_word ''package''"
  "\<not> is_word ''{''" "\<not> is_word ''}''"
  by (simp_all add: is_word_def word_char_def code_of_def)

definition args_tokens :: "string \<Rightarrow> (string \<times> string) list \<Rightarrow> string list" where
  "args_tokens direction args =
     (if args = [] then [] else [direction, ''{''] @ concat (map (\<lambda>(t, x). [t, x]) args) @ [''}''])"

definition operation_tokens :: "string \<Rightarrow> fidl_operation \<Rightarrow> string list" where
  "operation_tokens kind f =
     [kind, fo_name f, ''{''] @ args_tokens ''in'' (fo_in f) @ args_tokens ''out'' (fo_out f) @ [''}'']"

definition version_tokens :: "string list" where
  "version_tokens = [''version'', ''{'', ''major'', ''1'', ''minor'', ''0'', ''}'']"

definition interface_tokens :: "fidl_interface \<Rightarrow> string list" where
  "interface_tokens i =
     [''interface'', fi_name i, ''{''] @ version_tokens @
     concat (map (operation_tokens ''method'') (fi_methods i)) @
     concat (map (operation_tokens ''broadcast'') (fi_broadcasts i)) @ [''}'']"

lemma tokens_opened: "is_word a \<Longrightarrow> is_word b \<Longrightarrow> tokens (a @ '' '' @ b @ '' {'') = [a, b, ''{'']"
  by (simp add: tokens_words)

lemma tokens_args:
  assumes "plain_args args" and "is_word d"
  shows "concat (map tokens (print_args d args)) = args_tokens d args"
proof -
  have "tokens (d @ '' {'') = [d, ''{'']" using assms(2) by (simp add: tokens_words)
  moreover have "tokens (t @ '' '' @ x) = [t, x]" if "(t, x) \<in> set args" for t x
  proof -
    have "is_word t" "is_word x" using that assms(1) by (auto simp: plain_args_def list_all_iff)
    then show ?thesis by (simp add: tokens_words tokens_single)
  qed
  then have "map (\<lambda>p. tokens (fst p @ '' '' @ snd p)) args = map (\<lambda>p. [fst p, snd p]) args" by auto
  then have "concat (map (\<lambda>p. tokens (fst p @ '' '' @ snd p)) args) = concat (map (\<lambda>p. [fst p, snd p]) args)"
    by (rule arg_cong)
  moreover have "tokens (indent 8 @ ''}'') = [''}'']" by (subst tokens_indent) simp
  ultimately show ?thesis
    by (simp add: print_args_def args_tokens_def comp_def case_prod_unfold del: append_Cons append_Nil)
qed

lemma tokens_operation:
  assumes "plain_operation f" and "is_word kind"
  shows "concat (map tokens (print_operation kind f)) = operation_tokens kind f"
  using assms tokens_opened [of kind "fo_name f"] tokens_args
  by (simp add: print_operation_def operation_tokens_def plain_operation_def del: append_Cons append_Nil)

lemma tokens_operations:
  assumes "list_all plain_operation fs" and "is_word kind"
  shows "concat (map tokens (concat (map (print_operation kind) fs))) = concat (map (operation_tokens kind) fs)"
  using assms by (induction fs) (simp_all add: tokens_operation)

lemma tokens_interface:
  assumes "plain_interface i"
  shows "concat (map tokens (print_interface i)) = interface_tokens i"
proof -
  have "tokens (''interface '' @ fi_name i @ '' {'') = [''interface'', fi_name i, ''{'']"
    using assms tokens_opened [of "''interface''" "fi_name i"] by (simp add: plain_interface_def)
  moreover have "tokens ''version { major 1 minor 0 }'' = version_tokens"
    by (simp add: version_tokens_def word_char_def space_char_def code_of_def)
  moreover have "tokens ''}'' = [''}'']" by simp
  ultimately show ?thesis
    using assms tokens_operations
    by (simp add: print_interface_def interface_tokens_def plain_interface_def del: append_Cons append_Nil tokens.simps(2))
qed

lemma tokens_fidl:
  assumes "list_all plain_interface is"
  shows "tokens (print_fidl pkg is) = ''package'' # tokens pkg @ concat (map interface_tokens is)"
proof -
  have "tokens (''package '' @ pkg) = ''package'' # tokens pkg"
    using tokens_words [of "''package''" "CHR '' ''" pkg] by simp
  moreover have "concat (map tokens (concat (map print_interface is))) = concat (map interface_tokens is)"
    using assms by (induction "is") (simp_all add: tokens_interface)
  ultimately show ?thesis by (simp add: print_fidl_def del: append_Cons)
qed

section \<open>What the script finds in a description\<close>

lemma names_after_args:
  assumes "plain_args args" and "w \<in> {''method'', ''broadcast''}" and "d \<in> {''in'', ''out''}"
  shows "names_after w (args_tokens d args @ ts) = names_after w ts"
proof -
  have "names_after w (concat (map (\<lambda>(t, x). [t, x]) args) @ us) = names_after w us" for us
    using assms(1,2) by (induction args) (auto simp: plain_args_def simp del: names_after.simps)
  moreover have "names_after w (d # ''{'' # us) = names_after w us" "names_after w (''}'' # us) = names_after w us" for us
    using assms(2,3) by (auto simp del: names_after.simps)
  ultimately show ?thesis by (simp add: args_tokens_def)
qed

lemma names_after_operation:
  assumes "plain_operation f" and "w \<in> {''method'', ''broadcast''}" and "kind \<in> {''method'', ''broadcast''}"
  shows "names_after w (operation_tokens kind f @ ts) = (if kind = w then [fo_name f] else []) @ names_after w ts"
proof -
  have brace: "names_after w (''{'' # us) = names_after w us" "names_after w (''}'' # us) = names_after w us" for us
    using assms(2) by (auto simp del: names_after.simps)
  have name: "names_after w (a # ''{'' # us) = names_after w us" for a us
    using brace by (cases "a = w") (simp_all del: names_after.simps)
  have "names_after w (kind # fo_name f # ''{'' # us) =
      (if kind = w then [fo_name f] else []) @ names_after w us" for us
    using assms brace name [of "fo_name f" us] by (cases "kind = w") (simp_all add: plain_operation_def)
  with assms brace show ?thesis
    by (simp add: operation_tokens_def plain_operation_def names_after_args del: names_after.simps)
qed

lemma names_after_operations:
  assumes "list_all plain_operation fs" and "w \<in> {''method'', ''broadcast''}" and "kind \<in> {''method'', ''broadcast''}"
  shows "names_after w (concat (map (operation_tokens kind) fs) @ ts) =
    (if kind = w then map fo_name fs else []) @ names_after w ts"
  using assms(1) by (induction fs) (use assms(2,3) in \<open>auto simp: names_after_operation\<close>)

lemma names_after_interface:
  assumes "plain_interface i" and "w \<in> {''method'', ''broadcast''}"
  shows "names_after w (interface_tokens i @ ts) =
    map fo_name (if w = ''method'' then fi_methods i else fi_broadcasts i) @ names_after w ts"
proof -
  have brace: "names_after w (''{'' # us) = names_after w us" "names_after w (''}'' # us) = names_after w us" for us
    using assms(2) by (auto simp del: names_after.simps)
  have "names_after w (''interface'' # fi_name i # ''{'' # us) = names_after w us" for us
    using assms(2) brace by (cases "fi_name i = w") (auto simp del: names_after.simps)
  moreover have "names_after w (version_tokens @ us) = names_after w us" for us
    using assms(2) by (auto simp: version_tokens_def simp del: names_after.simps)
  ultimately show ?thesis
    using assms brace names_after_operations [of "fi_methods i" w "''method''"]
      names_after_operations [of "fi_broadcasts i" w "''broadcast''"]
    by (auto simp: interface_tokens_def plain_interface_def simp del: names_after.simps)
qed

lemma names_after_interfaces:
  assumes "list_all plain_interface is" and "w \<in> {''method'', ''broadcast''}"
  shows "names_after w (concat (map interface_tokens is)) =
    concat (map (\<lambda>i. map fo_name (if w = ''method'' then fi_methods i else fi_broadcasts i)) is)"
  using assms by (induction "is") (simp_all add: names_after_interface)

text \<open>The only interfaces are those that are described.\<close>

lemma no_keyword [simp]:
  "\<not> suffix ''interface'' ''{''" "\<not> suffix ''interface'' ''}''" "\<not> suffix ''interface'' ''in''"
  "\<not> suffix ''interface'' ''out''" "\<not> suffix ''interface'' ''method''" "\<not> suffix ''interface'' ''broadcast''"
  "\<not> suffix ''interface'' ''version''" "\<not> suffix ''interface'' ''major''" "\<not> suffix ''interface'' ''minor''"
  "\<not> suffix ''interface'' ''1''" "\<not> suffix ''interface'' ''0''"
  by (simp_all add: suffix_def append_eq_Cons_conv)

lemma no_head [simp]: "\<not> head_of (''{'' # ts)" "\<not> head_of (''}'' # ts)"
  by (auto simp: head_of_def)

lemma interfaces_in_args:
  assumes "plain_args args" and "d \<in> {''in'', ''out''}"
  shows "interfaces_in (args_tokens d args @ ts) = interfaces_in ts"
proof -
  have "interfaces_in (concat (map (\<lambda>(t, x). [t, x]) args) @ ''}'' # us) = interfaces_in us" for us
    using assms(1)
  proof (induction args)
    case Nil
    show ?case by (simp add: interfaces_in_skip del: interfaces_in.simps)
  next
    case (Cons a args)
    obtain t x where a: "a = (t, x)" by (cases a)
    let ?us = "concat (map (\<lambda>(t, x). [t, x]) args) @ ''}'' # us"
    have word: "is_word t" "is_word x" and rest: "plain_args args"
      using Cons.prems a by (simp_all add: plain_args_def)
    have "hd ?us \<noteq> ''{'' \<and> \<not> head_of ?us"
    proof (cases args)
      case Nil
      then show ?thesis by simp
    next
      case more: (Cons b bs)
      obtain t' x' where "b = (t', x')" "is_word t'" "is_word x'"
        using rest more by (cases b) (auto simp: plain_args_def)
      with more show ?thesis by (auto simp: head_of_def)
    qed
    then have "\<not> head_of (x # ?us)" "\<not> head_of ?us" by (auto simp: head_of_def)
    then have "interfaces_in (t # x # ?us) = interfaces_in ?us" by (simp add: interfaces_in_skip del: interfaces_in.simps)
    with Cons.IH rest a show ?case by simp
  qed
  with assms(2) show ?thesis
    by (auto simp: args_tokens_def interfaces_in_skip simp del: interfaces_in.simps)
qed

lemma interfaces_in_operation:
  assumes "plain_operation f" and "kind \<in> {''method'', ''broadcast''}"
  shows "interfaces_in (operation_tokens kind f @ ts) = interfaces_in ts"
proof -
  have "interfaces_in (kind # us) = interfaces_in us" for us
    using assms(2) by (auto simp: interfaces_in_skip simp del: interfaces_in.simps)
  with assms(1) show ?thesis
    by (simp add: operation_tokens_def plain_operation_def interfaces_in_skip interfaces_in_args
        del: interfaces_in.simps)
qed

lemma interfaces_in_operations:
  assumes "list_all plain_operation fs" and "kind \<in> {''method'', ''broadcast''}"
  shows "interfaces_in (concat (map (operation_tokens kind) fs) @ ts) = interfaces_in ts"
  using assms(1) by (induction fs) (use assms(2) in \<open>auto simp: interfaces_in_operation\<close>)

lemma interfaces_in_interface:
  assumes "plain_interface i"
  shows "interfaces_in (interface_tokens i @ ts) = (fi_name i, interface_tokens i @ ts) # interfaces_in ts"
proof -
  let ?body = "version_tokens @ concat (map (operation_tokens ''method'') (fi_methods i)) @
     concat (map (operation_tokens ''broadcast'') (fi_broadcasts i)) @ ''}'' # ts"
  have "interfaces_in (version_tokens @ us) = interfaces_in us" for us
    by (simp add: version_tokens_def interfaces_in_skip del: interfaces_in.simps)
  then have "interfaces_in ?body = interfaces_in ts"
    using assms by (simp add: plain_interface_def interfaces_in_operations interfaces_in_skip del: interfaces_in.simps)
  moreover have "interface_tokens i @ ts = ''interface'' # fi_name i # ''{'' # ?body"
    by (simp add: interface_tokens_def)
  moreover have "interfaces_in (''interface'' # fi_name i # ''{'' # ?body) =
      (fi_name i, ''interface'' # fi_name i # ''{'' # ?body) # interfaces_in ?body"
    using assms by (simp add: plain_interface_def)
  ultimately show ?thesis by simp
qed

lemma interfaces_in_package:
  assumes "''{'' \<notin> set ts" and "us = [] \<or> (\<exists>n vs. us = ''interface'' # n # vs \<and> is_word n)"
  shows "interfaces_in (ts @ us) = interfaces_in us"
  using assms(1)
proof (induction ts)
  case Nil
  show ?case by simp
next
  case (Cons t ts)
  have "\<not> head_of (ts @ us)"
  proof
    assume "head_of (ts @ us)"
    then obtain b vs where "ts @ us = b # ''{'' # vs" by (auto simp: head_of_def)
    with Cons.prems assms(2) show False
      by (cases ts; cases "tl ts") (auto simp: is_word_def)
  qed
  with Cons show ?case by (simp add: interfaces_in_skip del: interfaces_in.simps)
qed

section \<open>The files of a description\<close>

text \<open>Each interface with the methods and broadcasts of all interfaces from it to the end of the text.\<close>

fun described_files :: "string \<Rightarrow> fidl_interface list \<Rightarrow> ((string \<times> string) \<times> string) list" where
  "described_files pkg [] = []"
| "described_files pkg (i # is) =
     interface_files pkg (fi_name i) (map fo_name (concat (map fi_methods (i # is))))
       (map fo_name (concat (map fi_broadcasts (i # is)))) @
     described_files pkg is"

lemma package_found:
  assumes "pkg \<noteq> []" and "list_all package_char pkg"
  shows "find_package True (print_fidl pkg is) = Some pkg"
proof -
  obtain r where r: "print_fidl pkg is = ''package'' @ CHR '' '' # pkg @ CHR 0x0A # r"
    by (simp add: print_fidl_def code_lines_def code_line_def)
  have nl: "\<not> package_char (CHR 0x0A)" by (simp add: package_char_def)
  have not_space: "\<not> space_char c" if "package_char c" for c
    using that by (auto simp: package_char_def space_char_def code_of_def)
  have "dropWhile space_char (CHR '' '' # pkg @ CHR 0x0A # r) = pkg @ CHR 0x0A # r"
    using assms not_space by (cases pkg) simp_all
  moreover have "takeWhile package_char (pkg @ CHR 0x0A # r) = pkg"
    using assms(2) nl by (simp add: takeWhile_append list_all_iff)
  moreover have "strip ''package'' (print_fidl pkg is) = Some (CHR '' '' # pkg @ CHR 0x0A # r)"
    using r by (simp add: strip_Some)
  ultimately have k: "\<exists>rest. after_keyword package_char ''package'' (print_fidl pkg is) = Some (pkg, rest)"
    using assms(1) by (simp add: after_keyword_def)
  obtain c cs where c: "print_fidl pkg is = c # cs" using r by simp
  from k show ?thesis unfolding c by auto
qed

lemma single_token: "[c] \<in> set (tokens xs) \<Longrightarrow> c \<in> set xs"
  by (induction xs rule: tokens.induct) (auto split: if_splits dest: set_dropWhileD)

lemma interfaces_in_fidl:
  assumes "list_all package_char pkg" and "list_all plain_interface is"
  shows "interfaces_in (tokens (print_fidl pkg is)) = interfaces_in (concat (map interface_tokens is))"
proof -
  have "\<not> package_char (CHR ''{'')" by (simp add: package_char_def)
  with assms(1) have "CHR ''{'' \<notin> set pkg" by (auto simp: list_all_iff)
  then have "''{'' \<notin> set (''package'' # tokens pkg)" using single_token by auto
  moreover have "concat (map interface_tokens is) = [] \<or>
      (\<exists>n vs. concat (map interface_tokens is) = ''interface'' # n # vs \<and> is_word n)"
    using assms(2) by (cases "is") (simp_all add: interface_tokens_def plain_interface_def)
  ultimately show ?thesis
    using interfaces_in_package tokens_fidl [OF assms(2)] by (metis append_Cons)
qed

lemma described_interfaces:
  assumes "list_all plain_interface is"
  shows "concat (map (\<lambda>(name, ts). interface_files pkg name (names_after ''method'' ts) (names_after ''broadcast'' ts))
      (interfaces_in (concat (map interface_tokens is)))) = described_files pkg is"
  using assms
proof (induction "is")
  case Nil
  then show ?case by simp
next
  case (Cons i "is")
  have "names_after ''method'' (concat (map interface_tokens (i # is))) = map fo_name (concat (map fi_methods (i # is)))"
    "names_after ''broadcast'' (concat (map interface_tokens (i # is))) = map fo_name (concat (map fi_broadcasts (i # is)))"
    using names_after_interfaces [OF Cons.prems] by (simp_all add: map_concat comp_def)
  with Cons show ?case by (simp add: interfaces_in_interface del: names_after.simps interfaces_in.simps)
qed

text \<open>C27: What the generator script makes of an interface description: for every package and every list of
  interfaces laid out as in \<open>fidl/\<close>, with any identifiers, types and parameters that are not called
  \<open>method\<close> or \<open>broadcast\<close>, the script finds the package and exactly the described interfaces, in order,
  and writes six files for each. An interface that is alone in its text gets exactly its own methods and
  broadcasts, in order; otherwise it gets those of all later interfaces of the text as well.\<close>

theorem generator_reads_description:
  assumes "pkg \<noteq> []" and "list_all package_char pkg" and "list_all plain_interface is"
  shows "generate_bindings (print_fidl pkg is) = described_files pkg is"
proof -
  let ?files = "\<lambda>(name, ts). interface_files pkg name (names_after ''method'' ts) (names_after ''broadcast'' ts)"
  have "generate_bindings (print_fidl pkg is) =
      concat (map ?files (map (\<lambda>(name, block). (name, tokens block)) (find_interfaces (print_fidl pkg is))))"
    using package_found [OF assms(1,2)]
    by (simp add: generate_bindings_def find_names_reads_tokens comp_def case_prod_unfold)
  with interfaces_read_tokens interfaces_in_fidl [OF assms(2,3)] described_interfaces [OF assms(3)]
  show ?thesis by simp
qed

lemma plain_descriptions:
  "plain_interface connectivity_description" "plain_interface diagnostics_description"
  "plain_interface vehicle_description"
  by (simp_all add: connectivity_description_def diagnostics_description_def vehicle_description_def
      plain_interface_def plain_operation_def plain_args_def is_word_def word_char_def code_of_def)

text \<open>The descriptions of the repository, one by one, and two of them in one text.\<close>

theorem generator_reads_description_witness:
  "generate_bindings (print_fidl ''connectivity'' [connectivity_description]) =
     interface_files ''connectivity'' ''ConnectivityService'' [''connect'', ''disconnect''] [] \<and>
   generate_bindings (print_fidl ''vehicle'' [vehicle_description]) =
     interface_files ''vehicle'' ''VehicleSignalService'' [''getSpeed'', ''getBatteryVoltage''] [''SignalChanged''] \<and>
   generate_bindings (print_fidl ''all'' [diagnostics_description, connectivity_description]) =
     interface_files ''all'' ''DiagnosticsService'' [''publishDiagnostic'', ''connect'', ''disconnect''] [] @
     interface_files ''all'' ''ConnectivityService'' [''connect'', ''disconnect''] []"
proof -
  have pkg: "list_all package_char ''connectivity''" "list_all package_char ''vehicle''" "list_all package_char ''all''"
    by (simp_all add: package_char_def word_char_def code_of_def)
  show ?thesis
    using generator_reads_description [of "''connectivity''" "[connectivity_description]"]
      generator_reads_description [of "''vehicle''" "[vehicle_description]"]
      generator_reads_description [of "''all''" "[diagnostics_description, connectivity_description]"]
      pkg plain_descriptions
    by (simp add: connectivity_description_def diagnostics_description_def vehicle_description_def)
qed

section \<open>Agreement with the generated bindings\<close>

text \<open>The methods of the descriptions, with their types, are those of the interfaces that the generated
  bindings are checked against.\<close>

fun fidl_type :: "string \<Rightarrow> capi_type option" where
  "fidl_type t =
     (if t = ''Boolean'' then Some TBool else if t = ''String'' then Some TString
      else if t = ''UInt16'' then Some TU16 else if t = ''Double'' then Some TDouble else None)"

fun fidl_method_name :: "fidl_method \<Rightarrow> string" where
  "fidl_method_name F_connect = ''connect''"
| "fidl_method_name F_disconnect = ''disconnect''"
| "fidl_method_name F_publishDiagnostic = ''publishDiagnostic''"
| "fidl_method_name F_getSpeed = ''getSpeed''"
| "fidl_method_name F_getBatteryVoltage = ''getBatteryVoltage''"

fun description_of :: "binding \<Rightarrow> fidl_interface" where
  "description_of ConnectivityBinding = connectivity_description"
| "description_of DiagnosticsBinding = diagnostics_description"
| "description_of VehicleBinding = vehicle_description"

lemma descriptions_match_bindings:
  "fidl_of b m = Some (ins, outs) \<longleftrightarrow>
     (\<exists>f \<in> set (fi_methods (description_of b)). fo_name f = fidl_method_name m \<and>
        map (fidl_type \<circ> fst) (fo_in f) = map Some ins \<and> map (fidl_type \<circ> fst) (fo_out f) = map Some outs)"
  by (cases b; cases m)
    (auto simp: connectivity_description_def diagnostics_description_def vehicle_description_def)

lemma broadcast_matches_binding:
  "map (\<lambda>f. (fo_name f, map (fidl_type \<circ> fst) (fo_out f))) (fi_broadcasts vehicle_description) =
     [(''SignalChanged'', map Some signal_changed_fidl)]"
  by (simp add: vehicle_description_def signal_changed_fidl_def)

end
