(* ===== verification/Test_Suite.thy ===== *)
theory Test_Suite
  imports Mqtt_Client Connectivity_Service Auth_Session Adaptive_Services Cloud_Threads
begin

text \<open>
  The tests of the repository (\<open>tests/connectivity_tests.cpp\<close>, \<open>tests/adaptive_autosar_tests.cpp\<close>,
  \<open>tests/someip_tests.cpp\<close>) as
  definitions over the model: the test doubles as implementations of the abstract classes, and each test
  as the list of its expectations, in their order. The tests of one thread hold for every clock; the
  test of the token refresh runs beside the worker, on a clock of its own, and depends on when the
  worker makes its first pass.
\<close>

section \<open>Test doubles\<close>

text \<open>Times are seconds in the tests and nanoseconds on the clock.\<close>

definition FakeAuthBackend :: "bool \<Rightarrow> int \<Rightarrow> 'w auth_backend" where
  "FakeAuthBackend success ttl request w =
     (if \<not> success then (empty_response, w)
      else (\<lparr>access_token = ''jwt-token'', expires_in = ttl\<rparr>, w))"

record DynamicAuthBackend =
  db_success :: bool
  db_token :: string
  db_ttl :: int
  db_authenticate_calls :: nat

definition DynamicAuthBackend_new :: "bool \<Rightarrow> int \<Rightarrow> DynamicAuthBackend" where
  "DynamicAuthBackend_new success ttl =
     \<lparr>db_success = success, db_token = ''jwt-token'', db_ttl = ttl, db_authenticate_calls = 0\<rparr>"

definition DynamicAuthBackend_authenticate :: "DynamicAuthBackend \<Rightarrow> AuthResponse \<times> DynamicAuthBackend" where
  "DynamicAuthBackend_authenticate b =
     (let b' = b\<lparr>db_authenticate_calls := db_authenticate_calls b + 1\<rparr>
      in if \<not> db_success b then (empty_response, b')
         else (\<lparr>access_token = db_token b, expires_in = db_ttl b\<rparr>, b'))"

record FakeMqttBackend =
  fb_connect_result :: bool
  fb_publish_result :: bool
  fb_subscribe_result :: bool
  fb_connected :: bool

definition FakeMqttBackend_new :: FakeMqttBackend where
  "FakeMqttBackend_new = \<lparr>fb_connect_result = True, fb_publish_result = True, fb_subscribe_result = True,
     fb_connected = False\<rparr>"

definition FakeMqttBackend_ops :: "(FakeMqttBackend, 'w) backend_ops" where
  "FakeMqttBackend_ops =
     \<lparr>b_connect = (\<lambda>brk cid b w. (fb_connect_result b, b\<lparr>fb_connected := True\<rparr>, w)),
      b_disconnect = (\<lambda>b w. (True, b\<lparr>fb_connected := False\<rparr>, w)),
      b_publish = (\<lambda>topic payload q b w. (fb_publish_result b, b, w)),
      b_subscribe = (\<lambda>topic q b w. (fb_subscribe_result b, b, w)),
      b_isConnected = (\<lambda>b w. fb_connected b)\<rparr>"

record FakeMqttClient =
  fc_published_topics :: "string list"
  fc_published_payloads :: "string list"
  fc_config :: MqttConfig
  fc_connected :: bool

definition test_config :: MqttConfig where
  "test_config = \<lparr>broker = ''ssl://localhost:8883'', client_id = ''ECU_001'',
     telemetry_topic = ''vehicle/ECU_001/telemetry'', command_topic = ''vehicle/ECU_001/commands'', qos = 1\<rparr>"

definition FakeMqttClient_new :: "bool \<Rightarrow> FakeMqttClient" where
  "FakeMqttClient_new connected =
     \<lparr>fc_published_topics = [], fc_published_payloads = [], fc_config = test_config, fc_connected = connected\<rparr>"

definition FakeMqttClient_ops :: "(FakeMqttClient, 'w) client_ops" where
  "FakeMqttClient_ops =
     \<lparr>m_connect = (\<lambda>c w. (True, c\<lparr>fc_connected := True\<rparr>, w)),
      m_disconnect = (\<lambda>c w. (True, c\<lparr>fc_connected := False\<rparr>, w)),
      m_reconnect = (\<lambda>c w. (True, c\<lparr>fc_connected := True\<rparr>, w)),
      m_publish = (\<lambda>topic payload q c w. (fc_connected c,
        c\<lparr>fc_published_topics := fc_published_topics c @ [topic],
          fc_published_payloads := fc_published_payloads c @ [payload]\<rparr>, w)),
      m_subscribe = (\<lambda>topic q c w. (fc_connected c, c, w)),
      m_isConnected = fc_connected, m_config = fc_config\<rparr>"

section \<open>Tests of one thread\<close>

definition AuthClient_SuccessfulAuthentication :: "'w clock \<Rightarrow> 'w \<Rightarrow> bool list" where
  "AuthClient_SuccessfulAuthentication now w =
     (case AuthClient_new now (Some (FakeAuthBackend True 3600)) ''ECU_001'' ''secret123'' w of (client, w1) \<Rightarrow>
      case AuthClient_authenticate now client w1 of (r, client, w2) \<Rightarrow>
      case AuthClient_isTokenValid now client w2 of (valid, w3) \<Rightarrow>
        [r, AuthClient_token client = ''jwt-token'', valid])"

definition AuthClient_InvalidCredentials :: "'w clock \<Rightarrow> 'w \<Rightarrow> bool list" where
  "AuthClient_InvalidCredentials now w =
     (case AuthClient_new now (Some (FakeAuthBackend False 3600)) ''ECU_001'' ''wrong-secret'' w of (client, w1) \<Rightarrow>
      case AuthClient_authenticate now client w1 of (r, client, w2) \<Rightarrow>
        [\<not> r, AuthClient_token client = []])"

definition AuthClient_TokenExpiry :: "'w clock \<Rightarrow> (int \<Rightarrow> 'w \<Rightarrow> 'w) \<Rightarrow> 'w \<Rightarrow> bool list" where
  "AuthClient_TokenExpiry now sleep w =
     (case AuthClient_new now (Some (FakeAuthBackend True 1)) ''ECU_001'' ''secret123'' w of (client, w1) \<Rightarrow>
      case AuthClient_authenticate now client w1 of (r, client, w2) \<Rightarrow>
      case AuthClient_isTokenValid now client (sleep 2 w2) of (valid, w3) \<Rightarrow> [r, \<not> valid])"

definition MqttClient_ConnectionHandling :: "'w \<Rightarrow> bool list" where
  "MqttClient_ConnectionHandling w =
     (let client = MqttClient_new FakeMqttBackend_new test_config (Some FakeMqttBackend_new) in
      case MqttClient_connect FakeMqttBackend_ops client w of (r, client', w1) \<Rightarrow>
        [\<not> MqttClient_isConnected client, r, MqttClient_isConnected client'])"

definition MqttClient_PublishFailureWhenOffline :: "'w \<Rightarrow> bool list" where
  "MqttClient_PublishFailureWhenOffline w =
     (let client = MqttClient_new FakeMqttBackend_new test_config
            (Some (FakeMqttBackend_new\<lparr>fb_publish_result := False\<rparr>)) in
      case MqttClient_connect FakeMqttBackend_ops client w of (r, client, w1) \<Rightarrow>
      case MqttClient_publish FakeMqttBackend_ops ''vehicle/ECU_001/telemetry'' ''payload'' 1 client w1 of
        (ok, client, w2) \<Rightarrow> [r, \<not> ok])"

definition MqttClient_ReconnectLogic :: "'w \<Rightarrow> bool list" where
  "MqttClient_ReconnectLogic w =
     (let client = MqttClient_new FakeMqttBackend_new test_config (Some FakeMqttBackend_new) in
      case MqttClient_connect FakeMqttBackend_ops client w of (r1, client, w1) \<Rightarrow>
      case MqttClient_disconnect FakeMqttBackend_ops client w1 of (r2, client, w2) \<Rightarrow>
      case MqttClient_reconnect FakeMqttBackend_ops client w2 of (r3, client, w3) \<Rightarrow> [r1, r2, r3])"

text \<open>\<open>find\<close> on a string: whether the text occurs in it.\<close>

fun occurs :: "string \<Rightarrow> string \<Rightarrow> bool" where
  "occurs t [] \<longleftrightarrow> t = []"
| "occurs t (c # s) \<longleftrightarrow> take (length t) (c # s) = t \<or> occurs t s"

definition Telemetry_JsonGenerationAndPublishing :: "'w wall_clock \<Rightarrow> 'w \<Rightarrow> bool list" where
  "Telemetry_JsonGenerationAndPublishing local_time w =
     (let mqtt = (\<lambda>_. FakeMqttClient_new True); manager = TelemetryManager_new ''ECU_001'' (Some 0) in
      case generateSample local_time manager w of (sample, w1) \<Rightarrow>
      case publishSample FakeMqttClient_ops local_time (manager, mqtt) w1 of (r, (manager, mqtt), w2) \<Rightarrow>
        [occurs ''\"vehicle_id\":\"ECU_001\"'' (TelemetrySample_serialize sample), r,
         length (fc_published_topics (mqtt 0)) = 1])"

definition Telemetry_QueueHandlingWhenOffline :: "'w wall_clock \<Rightarrow> 'w \<Rightarrow> bool list" where
  "Telemetry_QueueHandlingWhenOffline local_time w =
     (let mqtt = (\<lambda>_. FakeMqttClient_new False); manager = TelemetryManager_new ''ECU_001'' (Some 0) in
      case publishSample FakeMqttClient_ops local_time (manager, mqtt) w of (r1, (manager, mqtt), w1) \<Rightarrow>
      let pending1 = pendingCount manager in
      case m_connect FakeMqttClient_ops (mqtt 0) w1 of (r2, c, w2) \<Rightarrow>
      case flushQueue FakeMqttClient_ops (manager, mqtt(0 := c)) w2 of (r3, (manager, mqtt), w3) \<Rightarrow>
        [r1, pending1 = 1, r3, pendingCount manager = 0])"

definition VehicleSignalServiceProvidesVehicleSnapshot :: "bool list" where
  "VehicleSignalServiceProvidesVehicleSnapshot =
     [vs_speed readSignalSnapshot = 0,
      vs_batteryVoltage readSignalSnapshot = Fin False 6980579422424269 (-49)]"

text \<open>The providers of the session's test count their calls; \<open>sleep_for\<close> leaves the counter alone.\<close>

definition provider_after :: "nat \<Rightarrow> string \<Rightarrow> nat \<Rightarrow> string \<times> nat" where
  "provider_after n tok calls = (if calls + 1 < n then [] else tok, calls + 1)"

definition AuthSession_TokenRetryLogic :: "bool list" where
  "AuthSession_TokenRetryLogic =
     (let auth = AuthSession_authenticate (\<lambda>ms calls. calls); s0 = AuthSession_new ''test-tenant'' in
      case auth (''initial-token'', None, kDefaultMaxRetries) s0 0 of (r1, s1, c1) \<Rightarrow>
      case auth ([], Some (provider_after 1 ''provided-token-1''), 3) s1 0 of (r2, s2, c2) \<Rightarrow>
      case auth ([], Some (provider_after 3 ''provided-token-2''), 3) s2 0 of (r3, s3, c3) \<Rightarrow>
      case auth ([], Some (provider_after 1 []), 3) s3 0 of (r4, s4, c4) \<Rightarrow>
        [r1, AuthSession_isAuthenticated s1, AuthSession_get_token s1 = ''initial-token'',
         r2, AuthSession_isAuthenticated s2, AuthSession_get_token s2 = ''provided-token-1'', c2 = 1,
         r3, AuthSession_isAuthenticated s3, AuthSession_get_token s3 = ''provided-token-2'', c3 = 3,
         \<not> r4, \<not> AuthSession_isAuthenticated s4, AuthSession_get_token s4 = [], c4 = 3])"


text \<open>The test of the TCP client: a server thread that listens, and then serves one connection. The test
  waits for the first part before it connects; the model runs the second part after the client's calls.
  A failed \<open>ASSERT\<close> leaves the server's function.\<close>

definition runTestServer_listen ::
  "('w, 'z) server_ops_scheme \<Rightarrow> u16 \<Rightarrow> 'w \<Rightarrow> (bool list \<times> int option) \<times> 'w" where
  "runTestServer_listen V port w =
     (case sv_socket V w of (server_fd, w1) \<Rightarrow>
      if server_fd = -1 then (([False], None), w1)
      else
        case sv_bind V server_fd \<lparr>sin_port = htons (sv_big_endian V) port,
            sin_addr = htonl (sv_big_endian V) INADDR_LOOPBACK\<rparr> w1 of (rb, w2) \<Rightarrow>
        if rb \<noteq> 0 then (([True, False], None), w2)
        else case sv_listen V server_fd 1 w2 of (rl, w3) \<Rightarrow>
          (([True, True, rl = 0], if rl = 0 then Some server_fd else None), w3))"

definition runTestServer_serve ::
  "('w, 'z) server_ops_scheme \<Rightarrow> int \<Rightarrow> 'w \<Rightarrow> (bool list \<times> bool) \<times> 'w" where
  "runTestServer_serve V server_fd w =
     (case sv_accept V server_fd w of (client_fd, w1) \<Rightarrow>
      if client_fd = -1 then (([False], False), w1)
      else case sv_recv V client_fd 256 w1 of ((received, bs), w2) \<Rightarrow>
        (([True, 0 < received], True), sv_close V server_fd (sv_close V client_fd w2)))"

definition SomeipClient_ConnectAndPublish ::
  "'w socket_ops \<Rightarrow> ('w, 'z) server_ops_scheme \<Rightarrow> 'w \<Rightarrow> bool list" where
  "SomeipClient_ConnectAndPublish S V w =
     (case runTestServer_listen V 41001 w of
        ((es, None), w1) \<Rightarrow> es
      | ((es, Some server_fd), w1) \<Rightarrow>
          let client = SomeipClient_new (SomeipConfig_default\<lparr>sc_host := ''127.0.0.1'', sc_port := 41001,
            sc_service_id := 0x1234, sc_method_id := 0x0001\<rparr>) in
          case SomeipClient_connect S client w1 of (r1, client, w2) \<Rightarrow>
          case SomeipClient_publish_payload S ''vehicle-payload'' client w2 of (r2, client, w3) \<Rightarrow>
          case SomeipClient_disconnect S client w3 of (r3, client, w4) \<Rightarrow>
          case runTestServer_serve V server_fd w4 of ((es', stop_flag), w5) \<Rightarrow>
            es @ [r1, r2, r3] @ es' @ [stop_flag])"

section \<open>The tests of one thread hold\<close>

text \<open>What they rely on: the clock does not go back, a test takes less than an hour, and \<open>sleep_for\<close>
  takes at least as long as it is told.\<close>

locale test_time =
  fixes now :: "'w clock" and sleep :: "int \<Rightarrow> 'w \<Rightarrow> 'w"
  assumes quick: "now w = (t, w1) \<Longrightarrow> now w1 = (t', w2) \<Longrightarrow> t' < t + nanos 3600"
    and sleeps: "now w = (t, w1) \<Longrightarrow> now (sleep n w1) = (t', w2) \<Longrightarrow> t + nanos n \<le> t'"
begin

lemma auth_client_tests:
  "False \<notin> set (AuthClient_SuccessfulAuthentication now w)"
  "False \<notin> set (AuthClient_InvalidCredentials now w)"
  "False \<notin> set (AuthClient_TokenExpiry now sleep w)"
proof -
  obtain t0 w0 where 0: "now w = (t0, w0)" by fastforce
  obtain t1 w1 where 1: "now w0 = (t1, w1)" by fastforce
  obtain t2 w2 where 2: "now w1 = (t2, w2)" by fastforce
  obtain t3 w3 where 3: "now (sleep 2 w1) = (t3, w3)" by fastforce
  have "t2 < t1 + nanos 3600" "t1 + nanos 2 \<le> t3" using quick [OF 1 2] sleeps [OF 1 3] by simp_all
  with 0 1 2 3 show "False \<notin> set (AuthClient_SuccessfulAuthentication now w)"
    "False \<notin> set (AuthClient_InvalidCredentials now w)" "False \<notin> set (AuthClient_TokenExpiry now sleep w)"
    by (simp_all add: AuthClient_SuccessfulAuthentication_def AuthClient_InvalidCredentials_def
        AuthClient_TokenExpiry_def AuthClient_new_def AuthClient_authenticate_def AuthClient_isTokenValid_def
        FakeAuthBackend_def AuthClient_token_def empty_response_def nanos_def)
qed

end

lemma mqtt_client_tests:
  "False \<notin> set (MqttClient_ConnectionHandling w)" "False \<notin> set (MqttClient_PublishFailureWhenOffline w)"
  "False \<notin> set (MqttClient_ReconnectLogic w)"
  by (simp_all add: MqttClient_ConnectionHandling_def MqttClient_PublishFailureWhenOffline_def
      MqttClient_ReconnectLogic_def MqttClient_new_def MqttClient_defs MqttClient_reconnect_def
      FakeMqttBackend_new_def
      FakeMqttBackend_ops_def MqttClient_isConnected_def Let_def)

lemma occurs_here: "occurs t (t @ ys)"
  by (cases "t @ ys") (simp_all del: append_eq_Cons_conv, metis append_eq_conv_conj)

lemma occurs_append: "occurs t (xs @ t @ ys)"
  by (induction xs) (simp_all add: occurs_here)

lemma telemetry_tests:
  "False \<notin> set (Telemetry_JsonGenerationAndPublishing local_time w)"
  "False \<notin> set (Telemetry_QueueHandlingWhenOffline local_time w)"
proof -
  obtain sample w1 where g: "generateSample local_time (TelemetryManager_new ''ECU_001'' (Some 0)) w = (sample, w1)"
    by fastforce
  obtain sample2 w2 where g2: "generateSample local_time (TelemetryManager_new ''ECU_001'' (Some 0)) w1 = (sample2, w2)"
    by fastforce
  from g have "ts_vehicle_id sample = ''ECU_001''"
    by (auto simp: generateSample_def TelemetryManager_new_def split: prod.splits)
  then obtain ys where "TelemetrySample_serialize sample = ''{'' @ ''\"vehicle_id\":\"ECU_001\"'' @ ys"
    by (simp add: TelemetrySample_serialize_def)
  then have json: "occurs ''\"vehicle_id\":\"ECU_001\"'' (TelemetrySample_serialize sample)"
    by (simp only: occurs_append)
  show "False \<notin> set (Telemetry_JsonGenerationAndPublishing local_time w)"
    using g g2 json
    by (simp add: Telemetry_JsonGenerationAndPublishing_def publishSample_def TelemetryManager_new_def
        FakeMqttClient_ops_def FakeMqttClient_new_def Let_def)
  show "False \<notin> set (Telemetry_QueueHandlingWhenOffline local_time w)"
    using g
    by (simp add: Telemetry_QueueHandlingWhenOffline_def publishSample_def TelemetryManager_new_def
        FakeMqttClient_ops_def FakeMqttClient_new_def Let_def queueMessage_def flushQueue_def pendingCount_def)
qed

lemma service_tests:
  "False \<notin> set VehicleSignalServiceProvidesVehicleSnapshot" "False \<notin> set AuthSession_TokenRetryLogic"
  by (simp_all add: VehicleSignalServiceProvidesVehicleSnapshot_def readSignalSnapshot_def
      AuthSession_TokenRetryLogic_def AuthSession_authenticate_def AuthSession_new_def retry_loop.simps
      provider_after_def AuthSession_isAuthenticated_def AuthSession_get_token_def kDefaultMaxRetries_def)


lemma someip_test: "False \<notin> set (SomeipClient_ConnectAndPublish loop_sockets loop_server quiet_net)"
  by (simp add: SomeipClient_ConnectAndPublish_def runTestServer_listen_def runTestServer_serve_def
      loop_server_def loop_sockets_def quiet_net_def SomeipClient_connect_def SomeipClient_new_def
      SomeipClient_publish_payload_def SomeipClient_publish_def SomeipClient_disconnect_def Let_def
      someip_frame_def)

section \<open>The test beside the worker\<close>

text \<open>The world of \<open>TokenRetryLogic\<close>: the backend the test and the worker share, and the time of the
  worker, which passes only while it sleeps.\<close>

record test_world =
  tw_backend :: DynamicAuthBackend
  tw_now :: int

definition test_login :: "test_world auth_backend" where
  "test_login request w =
     (case DynamicAuthBackend_authenticate (tw_backend w) of (r, b) \<Rightarrow> (r, w\<lparr>tw_backend := b\<rparr>))"

definition test_sleep :: "int \<Rightarrow> test_world \<Rightarrow> test_world" where
  "test_sleep secs w = w\<lparr>tw_now := tw_now w + nanos secs\<rparr>"

definition test_env :: "tm \<Rightarrow> (FakeMqttClient, test_world) env" where
  "test_env stamp =
     \<lparr>env_ops = FakeMqttClient_ops, env_now = (\<lambda>w. (tw_now w, w)), env_local_time = (\<lambda>w. (stamp, w)),
      env_sleep = test_sleep, env_file = ''connectivity_service.cpp''\<rparr>"

interpretation virtual_time: test_time "\<lambda>w. (tw_now w, w)" test_sleep
  by unfold_locales (auto simp: test_sleep_def nanos_def)

text \<open>The worker from the point of view of a thread that sleeps until \<open>t\<close>: it makes the passes whose time
  comes before, at most \<open>fuel\<close> of them.\<close>

fun worker_until ::
  "(FakeMqttClient, test_world) env \<Rightarrow> nat \<Rightarrow> int \<Rightarrow> (FakeMqttClient, test_world) service
    \<Rightarrow> (FakeMqttClient, test_world) service" where
  "worker_until E 0 t s = s"
| "worker_until E (Suc fuel) t s =
     (if tw_now (svc_world s) < t then worker_until E fuel t (loop_body E s) else s)"

lemma worker_until_asleep: "t \<le> tw_now (svc_world s) \<Longrightarrow> worker_until E fuel t s = s"
  by (cases fuel) simp_all

text \<open>What the test thread does to the objects it shares with the worker.\<close>

definition on_backend ::
  "(DynamicAuthBackend \<Rightarrow> DynamicAuthBackend) \<Rightarrow> ('c, test_world) service \<Rightarrow> ('c, test_world) service" where
  "on_backend f s = s\<lparr>svc_world := (svc_world s)\<lparr>tw_backend := f (tw_backend (svc_world s))\<rparr>\<rparr>"

definition test_refuse :: "('c, test_world) service \<Rightarrow> ('c, test_world) service" where
  "test_refuse = on_backend (\<lambda>b. b\<lparr>db_success := False\<rparr>)"

definition test_renew :: "('c, test_world) service \<Rightarrow> ('c, test_world) service" where
  "test_renew = on_backend (\<lambda>b. b\<lparr>db_success := True, db_token := ''new-jwt-token''\<rparr>)"

definition test_clearToken :: "int \<Rightarrow> ('c, test_world) service \<Rightarrow> ('c, test_world) service" where
  "test_clearToken t s =
     s\<lparr>svc_auth := map_option (\<lambda>ac. fst (AuthClient_clearToken (\<lambda>w. (t, w)) ac (svc_world s))) (svc_auth s)\<rparr>"

definition test_token :: "('c, 'w) service \<Rightarrow> string" where
  "test_token s = (case svc_auth s of None \<Rightarrow> [] | Some ac \<Rightarrow> AuthClient_token ac)"

definition test_tokenValid :: "int \<Rightarrow> ('c, 'w) service \<Rightarrow> bool" where
  "test_tokenValid t s =
     (case svc_auth s of None \<Rightarrow> False
      | Some ac \<Rightarrow> fst (AuthClient_isTokenValid (\<lambda>w. (t, w)) ac (svc_world s)))"

definition test_calls :: "('c, test_world) service \<Rightarrow> nat" where
  "test_calls s = db_authenticate_calls (tw_backend (svc_world s))"

text \<open>The service of the test, over a logger that has been made.\<close>

definition test_service :: "Logger \<Rightarrow> log_io \<Rightarrow> (FakeMqttClient, test_world) service" where
  "test_service lg io =
     (let w = \<lparr>tw_backend = DynamicAuthBackend_new True 3600, tw_now = 0\<rparr> in
      ConnectivityService_new
        (Some (fst (AuthClient_new (\<lambda>w. (tw_now w, w)) (Some test_login) ''ECU_001'' ''secret123'' w)))
        (Some 0) (Some (TelemetryManager_new ''ECU_001'' (Some 0))) lg (\<lambda>_. FakeMqttClient_new True) io w)"

text \<open>When the worker makes its first pass: before the test clears the token, between that and the
  refusal, or after both. The expectations are those of the test from \<open>start\<close> to the last one before
  \<open>stop\<close>; the test sleeps until second 3 and until second 6.\<close>

datatype first_pass = BeforeClear | BeforeRefusal | AfterRefusal

definition pass_if :: "(FakeMqttClient, test_world) env \<Rightarrow> bool \<Rightarrow> (FakeMqttClient, test_world) service
    \<Rightarrow> (FakeMqttClient, test_world) service" where
  "pass_if E b s = (if b then loop_body E s else s)"

definition ConnectivityService_TokenRetryLogic :: "tm \<Rightarrow> nat \<Rightarrow> first_pass \<Rightarrow> Logger \<Rightarrow> log_io \<Rightarrow> bool list" where
  "ConnectivityService_TokenRetryLogic stamp fuel first lg io =
     (let E = test_env stamp in
      case service_start E (test_service lg io) of ((started, _), s1) \<Rightarrow>
      let s2 = test_clearToken 0 (pass_if E (first = BeforeClear) s1);
          s3 = test_refuse (pass_if E (first = BeforeRefusal) s2);
          s4 = worker_until E fuel (nanos 3) s3;
          s5 = test_renew s4;
          s6 = worker_until E fuel (nanos 6) s5
      in [started, svc_state s1 = Publishing, test_calls s1 = 1,
          test_token s2 = [], \<not> test_tokenValid 0 s2,
          1 < test_calls s4,
          test_token s6 = ''new-jwt-token'', test_tokenValid (nanos 6) s6, svc_state s6 = Publishing])"


section \<open>Passes of the worker\<close>

text \<open>The part of the service that every pass leaves as it is.\<close>

definition test_online :: "(FakeMqttClient, 'w) service \<Rightarrow> bool" where
  "test_online s \<longleftrightarrow> svc_mqtt s = Some 0 \<and> fc_connected (svc_heap s 0) \<and>
     (\<exists>t. svc_telemetry s = Some t \<and> tl_client t = Some 0)"

lemma test_env_sel [simp]:
  "env_ops (test_env stamp) = FakeMqttClient_ops" "env_now (test_env stamp) = (\<lambda>w. (tw_now w, w))"
  "env_local_time (test_env stamp) = (\<lambda>w. (stamp, w))" "env_sleep (test_env stamp) = test_sleep"
  by (simp_all add: test_env_def)

lemma test_say [simp]: "svc_world (svc_say (test_env stamp) lv m l s) = svc_world s"
  by (simp add: svc_say_def)

lemma test_online_simps [simp]:
  "test_online (svc_say E lv m l s) = test_online s" "test_online (set_state st s) = test_online s"
  "test_online (svc_sleep E n s) = test_online s" "test_online (s\<lparr>svc_auth := a\<rparr>) = test_online s"
  "test_online (s\<lparr>svc_world := w\<rparr>) = test_online s" "test_online (s\<lparr>svc_running := b\<rparr>) = test_online s"
  by (simp_all add: test_online_def)

lemma test_online_svc: "test_online s \<Longrightarrow> svc_online (test_env stamp) s"
  by (simp add: test_online_def svc_online_def FakeMqttClient_ops_def)

lemma test_publish:
  assumes "test_online s"
  shows "test_online (loop_publish (test_env stamp) s) \<and>
    svc_world (loop_publish (test_env stamp) s) = test_sleep kPublishIntervalSec (svc_world s) \<and>
    svc_auth (loop_publish (test_env stamp) s) = svc_auth s \<and>
    svc_state (loop_publish (test_env stamp) s) = svc_state s"
proof -
  obtain t where t: "svc_mqtt s = Some 0" "fc_connected (svc_heap s 0)" "svc_telemetry s = Some t"
    "tl_client t = Some 0" using assms by (auto simp: test_online_def)
  obtain sample where "generateSample (\<lambda>w. (stamp, w)) t (svc_world s) = (sample, svc_world s)"
    by (simp add: generateSample_def currentTimestamp_def)
  with t show ?thesis
    by (simp add: loop_publish_def publishTelemetry_def publishSample_def FakeMqttClient_ops_def Let_def
        test_online_def svc_sleep_def)
qed

text \<open>The token part of a pass, for a client whose login is the backend of the test.\<close>

definition test_client :: "'w AuthClient \<Rightarrow> 'w auth_backend \<Rightarrow> string \<Rightarrow> int \<Rightarrow> bool" where
  "test_client ac backend tok e \<longleftrightarrow> ac_backend ac = Some backend \<and> ac_token ac = tok \<and> ac_expires_at ac = e"

lemma pass_refused:
  assumes "svc_auth s = Some ac" and "test_client ac test_login [] e" and "test_online s"
    and "\<not> db_success (tw_backend (svc_world s))"
  shows "\<exists>ac'. svc_auth (loop_body (test_env stamp) s) = Some ac' \<and> test_client ac' test_login [] (tw_now (svc_world s)) \<and>
    test_online (loop_body (test_env stamp) s) \<and> svc_state (loop_body (test_env stamp) s) = Disconnected \<and>
    svc_world (loop_body (test_env stamp) s) =
      \<lparr>tw_backend = (tw_backend (svc_world s))\<lparr>db_authenticate_calls := test_calls s + 1\<rparr>,
       tw_now = tw_now (svc_world s) + nanos 2\<rparr>"
  using assms
  by (simp add: loop_body_def loop_token_def svc_needs_token_def AuthClient_isTokenValid_def test_client_def
      svc_refresh_def AuthClient_refreshToken_def AuthClient_authenticate_def test_login_def
      DynamicAuthBackend_authenticate_def Let_def empty_response_def svc_sleep_def test_sleep_def
      kReconnectDelaySec_def test_calls_def)

lemma pass_granted:
  assumes "svc_auth s = Some ac" and "test_client ac test_login [] e" and "test_online s"
    and "db_success (tw_backend (svc_world s))" and "db_token (tw_backend (svc_world s)) \<noteq> []"
  shows "\<exists>ac'. svc_auth (loop_body (test_env stamp) s) = Some ac' \<and>
    test_client ac' test_login (db_token (tw_backend (svc_world s)))
      (tw_now (svc_world s) + nanos (db_ttl (tw_backend (svc_world s)))) \<and>
    test_online (loop_body (test_env stamp) s) \<and> svc_state (loop_body (test_env stamp) s) = Publishing \<and>
    svc_world (loop_body (test_env stamp) s) =
      \<lparr>tw_backend = (tw_backend (svc_world s))\<lparr>db_authenticate_calls := test_calls s + 1\<rparr>,
       tw_now = tw_now (svc_world s) + nanos 5\<rparr>"
proof -
  obtain s1 where "loop_token (test_env stamp) s = (True, s1)" and s1: "test_online s1"
    "svc_state s1 = Publishing" "\<exists>ac'. svc_auth s1 = Some ac' \<and>
      test_client ac' test_login (db_token (tw_backend (svc_world s)))
        (tw_now (svc_world s) + nanos (db_ttl (tw_backend (svc_world s))))"
    "svc_world s1 = (svc_world s)\<lparr>tw_backend := (tw_backend (svc_world s))\<lparr>db_authenticate_calls := test_calls s + 1\<rparr>\<rparr>"
    using assms
    by (simp add: loop_token_def svc_needs_token_def AuthClient_isTokenValid_def test_client_def
        svc_refresh_def AuthClient_refreshToken_def AuthClient_authenticate_def test_login_def
        DynamicAuthBackend_authenticate_def Let_def test_calls_def)
  moreover have "loop_connection (test_env stamp) s1 = (True, s1)"
    using test_online_svc [OF s1(1)] by (simp add: loop_connection_def)
  ultimately have "loop_body (test_env stamp) s = loop_publish (test_env stamp) s1"
    by (simp add: loop_body_def)
  with test_publish [OF s1(1), of stamp] s1(2-4) show ?thesis
    by (simp add: test_sleep_def kPublishIntervalSec_def)
qed

lemma pass_valid:
  assumes "svc_auth s = Some ac" and "test_client ac test_login tok e" and "test_online s"
    and "tok \<noteq> []" and "tw_now (svc_world s) < e"
  shows "svc_auth (loop_body (test_env stamp) s) = Some ac \<and> test_online (loop_body (test_env stamp) s) \<and>
    svc_state (loop_body (test_env stamp) s) = svc_state s \<and>
    svc_world (loop_body (test_env stamp) s) = test_sleep 5 (svc_world s)"
proof -
  have "loop_token (test_env stamp) s = (True, s)"
    using assms by (simp add: loop_token_def svc_needs_token_def AuthClient_isTokenValid_def test_client_def)
  moreover have "loop_connection (test_env stamp) s = (True, s)"
    using test_online_svc [OF assms(3)] by (simp add: loop_connection_def)
  ultimately have "loop_body (test_env stamp) s = loop_publish (test_env stamp) s" by (simp add: loop_body_def)
  with test_publish [OF assms(3), of stamp] assms(1) show ?thesis by (simp add: kPublishIntervalSec_def)
qed


text \<open>What the test sees of the service: the token with its expiry, the state, the backend and the
  worker's time.\<close>

definition test_sees ::
  "(FakeMqttClient, test_world) service \<Rightarrow> string \<Rightarrow> int \<Rightarrow> ServiceState \<Rightarrow> DynamicAuthBackend \<Rightarrow> int \<Rightarrow> bool" where
  "test_sees s tok e st b n \<longleftrightarrow>
     (\<exists>ac. svc_auth s = Some ac \<and> test_client ac test_login tok e) \<and> test_online s \<and> svc_state s = st \<and>
     svc_world s = \<lparr>tw_backend = b, tw_now = n\<rparr>"

lemma sees_refused:
  "test_sees s [] e st b n \<Longrightarrow> \<not> db_success b \<Longrightarrow>
     test_sees (loop_body (test_env stamp) s) [] n Disconnected
       (b\<lparr>db_authenticate_calls := db_authenticate_calls b + 1\<rparr>) (n + nanos 2)"
  using pass_refused [of s _ e stamp] by (auto simp: test_sees_def test_calls_def)

lemma sees_granted:
  "test_sees s [] e st b n \<Longrightarrow> db_success b \<Longrightarrow> db_token b \<noteq> [] \<Longrightarrow>
     test_sees (loop_body (test_env stamp) s) (db_token b) (n + nanos (db_ttl b)) Publishing
       (b\<lparr>db_authenticate_calls := db_authenticate_calls b + 1\<rparr>) (n + nanos 5)"
  using pass_granted [of s _ e stamp] by (auto simp: test_sees_def test_calls_def)

lemma sees_valid:
  "test_sees s tok e st b n \<Longrightarrow> tok \<noteq> [] \<Longrightarrow> n < e \<Longrightarrow>
     test_sees (loop_body (test_env stamp) s) tok e st b (n + nanos 5)"
  using pass_valid [of s _ tok e stamp] by (auto simp: test_sees_def test_sleep_def)

lemma sees_backend:
  "test_sees s tok e st b n \<Longrightarrow> test_sees (test_refuse s) tok e st (b\<lparr>db_success := False\<rparr>) n"
  "test_sees s tok e st b n \<Longrightarrow>
     test_sees (test_renew s) tok e st (b\<lparr>db_success := True, db_token := ''new-jwt-token''\<rparr>) n"
  by (simp_all add: test_sees_def test_refuse_def test_renew_def on_backend_def)

lemma sees_clear: "test_sees s tok e st b n \<Longrightarrow> test_sees (test_clearToken t s) [] t st b n"
  by (auto simp: test_sees_def test_clearToken_def AuthClient_clearToken_def test_client_def)

lemma sees_values:
  assumes "test_sees s tok e st b n"
  shows "test_token s = tok" "test_tokenValid t s \<longleftrightarrow> tok \<noteq> [] \<and> t < e" "svc_state s = st"
    "test_calls s = db_authenticate_calls b" "tw_now (svc_world s) = n"
  using assms
  by (auto simp: test_sees_def test_token_def test_tokenValid_def AuthClient_isTokenValid_def AuthClient_token_def
      test_client_def test_calls_def split: if_splits)

lemma test_started:
  "fst (fst (service_start (test_env stamp) (test_service lg io))) \<and>
   test_sees (snd (service_start (test_env stamp) (test_service lg io))) ''jwt-token'' (nanos 3600) Publishing
     ((DynamicAuthBackend_new True 3600)\<lparr>db_authenticate_calls := 1\<rparr>) 0"
  by (simp add: service_start_def test_service_def ConnectivityService_new_def AuthClient_new_def
      svc_authenticate_def AuthClient_authenticate_def test_login_def DynamicAuthBackend_authenticate_def
      DynamicAuthBackend_new_def svc_connect_def svc_on_client_def FakeMqttClient_ops_def FakeMqttClient_new_def
      TelemetryManager_new_def test_sees_def test_client_def test_online_def Let_def nanos_def)

lemma until_pass:
  "tw_now (svc_world s) < t \<Longrightarrow> worker_until E (Suc fuel) t s = worker_until E fuel t (loop_body E s)"
  by simp

text \<open>The tests of one thread hold for every clock that does not run an hour ahead within a test and
  every \<open>sleep_for\<close> that sleeps long enough: all expectations of the suites of \<open>AuthClient\<close>, \<open>MqttClient\<close>,
  \<open>TelemetryManager\<close>, \<open>VehicleSignalService\<close> and \<open>AuthSession\<close> are met by the model, and those of
  \<open>SomeipClient\<close> over a loop-back network.\<close>

theorem test_suite_passes:
  assumes "test_time now sleep"
  shows "False \<notin> set (AuthClient_SuccessfulAuthentication now w @ AuthClient_InvalidCredentials now w @
      AuthClient_TokenExpiry now sleep w @ MqttClient_ConnectionHandling w @
      MqttClient_PublishFailureWhenOffline w @ MqttClient_ReconnectLogic w @
      Telemetry_JsonGenerationAndPublishing local_time w @ Telemetry_QueueHandlingWhenOffline local_time w @
      VehicleSignalServiceProvidesVehicleSnapshot @ AuthSession_TokenRetryLogic @
      SomeipClient_ConnectAndPublish loop_sockets loop_server quiet_net)"
  by (simp add: test_time.auth_client_tests [OF assms] mqtt_client_tests telemetry_tests service_tests
      someip_test)

definition first_world :: test_world where
  "first_world = \<lparr>tw_backend = DynamicAuthBackend_new True 3600, tw_now = 0\<rparr>"

theorem test_suite_passes_witness:
  "False \<notin> set (AuthClient_SuccessfulAuthentication (\<lambda>w. (tw_now w, w)) first_world @
      AuthClient_InvalidCredentials (\<lambda>w. (tw_now w, w)) first_world @
      AuthClient_TokenExpiry (\<lambda>w. (tw_now w, w)) test_sleep first_world @
      MqttClient_ConnectionHandling first_world @ MqttClient_PublishFailureWhenOffline first_world @
      MqttClient_ReconnectLogic first_world @ Telemetry_JsonGenerationAndPublishing demo_wall first_world @
      Telemetry_QueueHandlingWhenOffline demo_wall first_world @
      VehicleSignalServiceProvidesVehicleSnapshot @ AuthSession_TokenRetryLogic @
      SomeipClient_ConnectAndPublish loop_sockets loop_server quiet_net)"
  by (rule test_suite_passes [OF virtual_time.test_time_axioms])

text \<open>The three orders, from the state after \<open>start\<close> on.\<close>

abbreviation db_at :: "nat \<Rightarrow> bool \<Rightarrow> string \<Rightarrow> DynamicAuthBackend" where
  "db_at k ok tok \<equiv> \<lparr>db_success = ok, db_token = tok, db_ttl = 3600, db_authenticate_calls = k\<rparr>"

lemma until_two:
  assumes "tw_now (svc_world s) < t" and "tw_now (svc_world (loop_body E s)) < t"
    and "t \<le> tw_now (svc_world (loop_body E (loop_body E s)))"
  shows "worker_until E (Suc (Suc n)) t s = loop_body E (loop_body E s)"
  using assms by (simp add: numeral_2_eq_2 worker_until_asleep)

lemma until_one:
  assumes "tw_now (svc_world s) < t" and "t \<le> tw_now (svc_world (loop_body E s))"
  shows "worker_until E (Suc (Suc n)) t s = loop_body E s"
  using assms by (simp add: numeral_2_eq_2 worker_until_asleep)

lemma race_after_refusal:
  fixes stamp :: tm and n :: nat
  assumes "test_sees s ''jwt-token'' e Publishing (db_at 1 True ''jwt-token'') 0"
  defines "s3 \<equiv> test_refuse (test_clearToken 0 s)"
  defines "s4 \<equiv> worker_until (test_env stamp) (Suc (Suc n)) (nanos 3) s3"
  defines "s5 \<equiv> test_renew s4"
  shows "test_calls s4 = 3 \<and>
    test_sees (worker_until (test_env stamp) (Suc (Suc n)) (nanos 6) s5) ''new-jwt-token'' (nanos 3604) Publishing
      (db_at 4 True ''new-jwt-token'') (nanos 9)"
proof -
  let ?pass = "loop_body (test_env stamp)"
  have 3: "test_sees s3 [] 0 Publishing (db_at 1 False ''jwt-token'') 0"
    using sees_backend(1) [OF sees_clear [OF assms(1)]] by (simp add: s3_def)
  have 4: "test_sees (?pass s3) [] 0 Disconnected (db_at 2 False ''jwt-token'') (nanos 2)"
    using sees_refused [OF 3, of stamp] by (simp add: eval_nat_numeral)
  have 5: "test_sees (?pass (?pass s3)) [] (nanos 2) Disconnected (db_at 3 False ''jwt-token'') (nanos 4)"
    using sees_refused [OF 4, of stamp] by (simp add: nanos_def eval_nat_numeral)
  have s4: "s4 = ?pass (?pass s3)"
    unfolding s4_def by (rule until_two) (simp_all add: sees_values(5) [OF 3] sees_values(5) [OF 4]
        sees_values(5) [OF 5] nanos_def)
  have 6: "test_sees s5 [] (nanos 2) Disconnected (db_at 3 True ''new-jwt-token'') (nanos 4)"
    using sees_backend(2) [OF 5] by (simp add: s5_def s4)
  have 7: "test_sees (?pass s5) ''new-jwt-token'' (nanos 3604) Publishing (db_at 4 True ''new-jwt-token'') (nanos 9)"
    using sees_granted [OF 6, of stamp] by (simp add: nanos_def eval_nat_numeral)
  have "worker_until (test_env stamp) (Suc (Suc n)) (nanos 6) s5 = ?pass s5"
    by (rule until_one) (simp_all add: sees_values(5) [OF 6] sees_values(5) [OF 7] nanos_def)
  with 7 sees_values(4) [OF 5] s4 show ?thesis by simp
qed

lemma race_before_clear:
  fixes stamp :: tm and n :: nat
  assumes "test_sees s ''jwt-token'' e Publishing (db_at 1 True ''jwt-token'') 0" and "0 < e"
  defines "s3 \<equiv> test_refuse (test_clearToken 0 (loop_body (test_env stamp) s))"
  defines "s4 \<equiv> worker_until (test_env stamp) (Suc (Suc n)) (nanos 3) s3"
  defines "s5 \<equiv> test_renew s4"
  shows "test_calls s4 = 1 \<and>
    test_sees (worker_until (test_env stamp) (Suc (Suc n)) (nanos 6) s5) ''new-jwt-token'' (nanos 3605) Publishing
      (db_at 2 True ''new-jwt-token'') (nanos 10)"
proof -
  let ?pass = "loop_body (test_env stamp)"
  have 2: "test_sees (?pass s) ''jwt-token'' e Publishing (db_at 1 True ''jwt-token'') (nanos 5)"
    using sees_valid [OF assms(1), of stamp] assms(2) by simp
  have 3: "test_sees s3 [] 0 Publishing (db_at 1 False ''jwt-token'') (nanos 5)"
    using sees_backend(1) [OF sees_clear [OF 2]] by (simp add: s3_def)
  have s4: "s4 = s3"
    unfolding s4_def by (rule worker_until_asleep) (simp add: sees_values(5) [OF 3] nanos_def)
  have 5: "test_sees s5 [] 0 Publishing (db_at 1 True ''new-jwt-token'') (nanos 5)"
    using sees_backend(2) [OF 3] by (simp add: s5_def s4)
  have 6: "test_sees (?pass s5) ''new-jwt-token'' (nanos 3605) Publishing (db_at 2 True ''new-jwt-token'') (nanos 10)"
    using sees_granted [OF 5, of stamp] by (simp add: nanos_def eval_nat_numeral)
  have "worker_until (test_env stamp) (Suc (Suc n)) (nanos 6) s5 = ?pass s5"
    by (rule until_one) (simp_all add: sees_values(5) [OF 5] sees_values(5) [OF 6] nanos_def)
  with 6 sees_values(4) [OF 3] s4 show ?thesis by simp
qed

lemma race_before_refusal:
  fixes stamp :: tm and n :: nat
  assumes "test_sees s ''jwt-token'' e Publishing (db_at 1 True ''jwt-token'') 0"
  defines "s3 \<equiv> test_refuse (loop_body (test_env stamp) (test_clearToken 0 s))"
  defines "s4 \<equiv> worker_until (test_env stamp) (Suc (Suc n)) (nanos 3) s3"
  defines "s5 \<equiv> test_renew s4"
  shows "test_calls s4 = 2 \<and>
    test_sees (worker_until (test_env stamp) (Suc (Suc n)) (nanos 6) s5) ''jwt-token'' (nanos 3600) Publishing
      (db_at 2 True ''new-jwt-token'') (nanos 10)"
proof -
  let ?pass = "loop_body (test_env stamp)"
  have 2: "test_sees (?pass (test_clearToken 0 s)) ''jwt-token'' (nanos 3600) Publishing
      (db_at 2 True ''jwt-token'') (nanos 5)"
    using sees_granted [OF sees_clear [OF assms(1), of 0], of stamp] by (simp add: eval_nat_numeral)
  have 3: "test_sees s3 ''jwt-token'' (nanos 3600) Publishing (db_at 2 False ''jwt-token'') (nanos 5)"
    using sees_backend(1) [OF 2] by (simp add: s3_def)
  have s4: "s4 = s3"
    unfolding s4_def by (rule worker_until_asleep) (simp add: sees_values(5) [OF 3] nanos_def)
  have 5: "test_sees s5 ''jwt-token'' (nanos 3600) Publishing (db_at 2 True ''new-jwt-token'') (nanos 5)"
    using sees_backend(2) [OF 3] by (simp add: s5_def s4)
  have 6: "test_sees (?pass s5) ''jwt-token'' (nanos 3600) Publishing (db_at 2 True ''new-jwt-token'') (nanos 10)"
    using sees_valid [OF 5, of stamp] by (simp add: nanos_def eval_nat_numeral)
  have "worker_until (test_env stamp) (Suc (Suc n)) (nanos 6) s5 = ?pass s5"
    by (rule until_one) (simp_all add: sees_values(5) [OF 5] sees_values(5) [OF 6] nanos_def)
  with 6 sees_values(4) [OF 3] s4 show ?thesis by simp
qed

lemma replicate_nine: "replicate 9 True = [True, True, True, True, True, True, True, True, True]"
  by (simp add: eval_nat_numeral)

text \<open>The test of the token refresh depends on the scheduler. Its comment speaks of a retry interval of
  2 seconds, but a worker that has published sleeps for 5. If the worker makes its first pass only after
  the test has cleared the token and made the backend refuse, all expectations hold. If it has made that
  pass before the token is cleared, no refresh has been tried when the test looks after 3 seconds; if it
  makes it between the two, it gets a valid token, which the test, waiting for the new one, still finds
  after 6 seconds.\<close>

theorem token_retry_test_races:
  "ConnectivityService_TokenRetryLogic stamp (Suc (Suc n)) AfterRefusal lg io = replicate 9 True \<and>
   ConnectivityService_TokenRetryLogic stamp (Suc (Suc n)) BeforeClear lg io = (replicate 9 True)[5 := False] \<and>
   ConnectivityService_TokenRetryLogic stamp (Suc (Suc n)) BeforeRefusal lg io = (replicate 9 True)[6 := False]"
proof -
  obtain started x s where s: "service_start (test_env stamp) (test_service lg io) = ((started, x), s)"
    by (metis prod.exhaust)
  have 0: started "test_sees s ''jwt-token'' (nanos 3600) Publishing (db_at 1 True ''jwt-token'') 0"
    using test_started [of stamp lg io] s by (simp_all add: DynamicAuthBackend_new_def)
  note seen = sees_values [OF 0(2)]
  note clear = sees_values [OF sees_clear [OF 0(2), of 0]]
  have late: "0 < nanos 3600" by (simp add: nanos_def)
  have early: "test_sees (loop_body (test_env stamp) s) ''jwt-token'' (nanos 3600) Publishing
      (db_at 1 True ''jwt-token'') (nanos 5)"
    using sees_valid [OF 0(2), of stamp] late by simp
  note early_clear = sees_values [OF sees_clear [OF early, of 0]]
  note A = race_after_refusal [OF 0(2), of stamp n, THEN conjunct1]
    sees_values [OF race_after_refusal [OF 0(2), of stamp n, THEN conjunct2]]
  note B = race_before_clear [OF 0(2) late, of stamp n, THEN conjunct1]
    sees_values [OF race_before_clear [OF 0(2) late, of stamp n, THEN conjunct2]]
  note C = race_before_refusal [OF 0(2), of stamp n, THEN conjunct1]
    sees_values [OF race_before_refusal [OF 0(2), of stamp n, THEN conjunct2]]
  have "nanos 6 < nanos 3600" "nanos 6 < nanos 3604" "nanos 6 < nanos 3605" by (simp_all add: nanos_def)
  then show ?thesis
    by (simp del: worker_until.simps add: ConnectivityService_TokenRetryLogic_def s pass_if_def Let_def
        0(1) seen clear early_clear A B C replicate_nine)
qed

end
