(* ===== verification/Spec2Isabelle.thy ===== *)
theory Spec2Isabelle
  imports Cvp_Prelude Cxx_Format Logger Auth_Interface Auth_Client Auth_Session Mqtt_Interface
    Mqtt_Client Someip_Client Client_Threads Telemetry Json_Text Telemetry_Threads
    Connectivity_Service Fair_Runs Service_Threads Service_Sleeps Service_Liveness Link_Supervision
    Cloud_Demo Cloud_Threads Cloud_Liveness Wire Cloud_Termination Broken_Pipe Program_Signals Service_Recovery
    Adaptive_Services
    CommonAPI_Types CommonAPI_Proxies CommonAPI_Stubs CommonAPI_Bindings Binding_Generator Test_Suite
begin

text \<open>
  A verification library for the connected vehicle platform: a C++20 program in which a vehicle
  authenticates against a cloud, keeps a connection to it and publishes telemetry from a worker
  thread.

  The parts and how they interact. \<open>ConnectivityService\<close> owns the life cycle: \<open>start\<close> logs in through
  \<open>AuthClient\<close>, connects an \<open>IMqttClient\<close> and creates a worker thread; the worker (\<open>runLoop\<close>)
  refreshes the token, reconnects, and asks \<open>TelemetryManager\<close> to publish a sample; \<open>stop\<close> asks the
  worker to end and joins it. The client is \<open>MqttClient\<close>, over a backend that is by default the
  Paho library, or \<open>SomeipClient\<close>, a TCP transport behind the same interface. The service and the
  telemetry manager share one client object. Everything reports through \<open>Logger\<close>. \<open>main.cpp\<close> wires
  a sample together and plays the cloud with a listener thread. \<open>AuthSession\<close>,
  \<open>ConnectivityRuntime\<close>, \<open>MqttGateway\<close>, \<open>DiagnosticsService\<close>, \<open>VehicleSignalService\<close> and \<open>Vehicle\<close>
  are small classes of their own, and \<open>generated/\<close> holds CommonAPI bindings.

  How the code is represented. A class is a record of its fields. A method that may change its
  object is a function from object and world to result, object and world; the world is whatever
  lies outside the repository, of arbitrary type. Clocks, sockets, the Paho library, the
  authentication backend, \<open>sleep_for\<close> and the CommonAPI runtime are operations on the world that
  the definitions take as parameters; nothing is assumed about them unless a theorem says so. A
  shared pointer that may be null is an option; the client shared by service and manager is an
  address into a store. Exceptions that the code can raise are \<open>None\<close> or a value of their own.
  Fixed-width fields are words; times are integers with a theorem on their range; strings are
  lists of bytes. Doubles are sign, magnitude and exponent, with the six-digit output of a stream.

  The theories, with the sources under \<open>src/\<close> they model:

  \<^item> \<open>Cvp_Prelude\<close>: shared types and facts (results, byte strings, little-endian numbers).
  \<^item> \<open>Cxx_Format\<close>: decimal output, \<open>put_time\<close>, output of doubles; the parts of the C++ library that
    the code prints with.
  \<^item> \<open>Logger\<close> (\<open>src/Logger/logger.cpp\<close>): levels, line format, directory creation, both sinks; a
    small-step model of concurrent calls under the mutex.
  \<^item> \<open>Auth_Interface\<close>, \<open>Auth_Client\<close> (\<open>src/AuthClient/auth_client.cpp\<close>), \<open>Auth_Session\<close>
    (\<open>src/auth/auth_session.cpp\<close>): the contract of a holder of credentials, interpreted on both.
  \<^item> \<open>Mqtt_Interface\<close> (\<open>mqtt_client.hpp\<close>): the abstract classes as records of functions, and the
    locales \<open>connection\<close> and \<open>mqtt_client\<close> that state what their users rely on.
  \<^item> \<open>Mqtt_Client\<close> (\<open>src/MqttClient/mqtt_client.cpp\<close>) and \<open>Someip_Client\<close>
    (\<open>src/SomeipClient/someip_client.cpp\<close>): the implementations, which interpret these locales.
  \<^item> \<open>Client_Threads\<close> (the same files): several threads inside the methods of one client, line by line
    under its mutex; the locale \<open>locked_client\<close> ties the lines to the sequential methods and is
    interpreted on both clients.
  \<^item> \<open>Telemetry\<close> (\<open>src/TelemetryManager/telemetry_manager.cpp\<close>): samples, JSON text, the queue.
  \<^item> \<open>Json_Text\<close>: a reader for flat JSON objects against which the serialiser is checked.
  \<^item> \<open>Telemetry_Threads\<close> (the same file): several threads inside \<open>publishSample\<close> and \<open>flushQueue\<close>.
  \<^item> \<open>Connectivity_Service\<close> (\<open>src/ConnectivityService/connectivity_service.cpp\<close>): each statement with
    an effect, \<open>start\<close>, and the body of the loop, for any client that meets the contract.
  \<^item> \<open>Service_Threads\<close> (the same file): worker, callers and destructor as small steps named after source
    lines, with all their interleavings. \<open>Service_Sleeps\<close>: how long a stopped worker sleeps; the locale
    \<open>sleep_meter\<close> is met by any environment beside which a meter is put.
  \<^item> \<open>Fair_Runs\<close>: infinite runs of a step function under a weakly fair scheduler; the locale \<open>ranked\<close> (a
    natural number that falls with every step of one thread and with no step rises makes the thread
    settle) and \<open>joining\<close> (a thread that waits for another that ends goes on).
  \<^item> \<open>Service_Liveness\<close>: both locales interpreted on the callers and the worker. \<open>Link_Supervision\<close>: what
    the worker sees of the link. \<open>Service_Recovery\<close>: the contract \<open>patience\<close> (the backend refuses only
    finitely often in a row), which makes the worker's wait for its next publication \<open>ranked\<close> again.
  \<^item> \<open>Cloud_Demo\<close> (\<open>src/main.cpp\<close>): backend, listener, \<open>main\<close>.
  \<^item> \<open>Cloud_Threads\<close> (the same file): \<open>main\<close>, the listener thread and the worker interleaved; sockets that
    wait. \<open>Cloud_Liveness\<close>: the same locales interpreted on \<open>main\<close> and its joins. \<open>Wire\<close> follows what
    this program hands to \<open>send\<close> and, over a socket that is a byte stream, what the listener prints; its
    locales \<open>guarded_world\<close> and \<open>byte_stream\<close> say which calls of the environment keep an invariant and are
    interpreted on a recording and on a loop-back network. \<open>Cloud_Termination\<close>: the contract
    \<open>draining_network\<close>, two guarded worlds at once, under which the listener does not keep \<open>main\<close> waiting.
    What the system tells of its calls, when \<open>accept\<close> and \<open>recv\<close> wait and whether a signal has ended the
    process, is the parameter \<open>blocking_server\<close>; no thread makes a step after a signal. \<open>Broken_Pipe\<close>: the
    locale \<open>broken_pipe\<close> states what \<open>send\<close> does on a broken connection, with and without \<open>MSG_NOSIGNAL\<close>.
    \<open>Program_Signals\<close>: which step can have the program killed; its locales \<open>calm_calls\<close> and \<open>calm_network\<close> (a
    relation between worlds that every call but \<open>send\<close> keeps) are interpreted on the loop-back network and on
    the recording.
  \<^item> \<open>Adaptive_Services\<close> (\<open>src/connectivity\<close>, \<open>src/mqtt\<close>, \<open>src/services\<close>, \<open>src/vehicle.cpp\<close>).
  \<^item> \<open>CommonAPI_Types\<close>: values, the interfaces of \<open>src/fidl\<close> with their method identifiers, and the
    CommonAPI runtime as a record of operations; \<open>CommonAPI_Proxies\<close>, \<open>CommonAPI_Stubs\<close>: the generated
    classes of \<open>src/generated\<close>; \<open>CommonAPI_Bindings\<close>: their creation and registration, and the two sides
    put together. \<open>Binding_Generator\<close> (\<open>scripts/generate_commonapi.py\<close>): the regular expressions of the
    script as scanners, the files it writes, and what it finds in the texts of \<open>fidl/\<close>.
  \<^item> \<open>Test_Suite\<close> (\<open>tests\<close>): the test doubles as implementations of the abstract classes, each test as the
    list of its expectations, and the worker on a clock of its own beside the test of the token refresh.

  What the theorems show. The logger's output is atomic under concurrency and readable back. The
  authentication client remembers its last login; the retry loop is a bounded search. Both
  clients implement a link that is up or down, the TCP client without leaking descriptors; called
  from several threads they are linearizable, do not deadlock and give all threads one account of
  the link. The telemetry queue loses nothing on publication, is sent in order by \<open>flushQueue\<close>, and
  keeps account of every payload under concurrency; a sample is serialised to JSON exactly when its
  strings need no escapes and its readings are finite. \<open>start\<close> and a pass of the loop are
  characterised on every branch. For one calling thread \<open>start\<close> and \<open>stop\<close> are safe, leave the state
  they promise, never get stuck, and return under every fair scheduler, in every interleaving with the
  worker, which comes to publish again and again if the backend lets it; the small steps refine the
  sequential definitions. The sample program, with all its threads, ends in one of two ways unless a
  signal kills it, waits for nothing but its cloud, comes to rest under every fair scheduler and ends
  under it if the network does its part, and sends nothing but frames of JSON samples, at most one for
  each publication of the worker; the console shows whole log lines and, interleaved with them, the
  beginning of what was sent; a signal can kill the program only in a publication, and does so in any on a
  broken connection. The generated bindings are well typed against their interface descriptions, on both
  sides, and over a runtime that delivers calls as documented a call of an application reaches the stub's
  method of the same name and its reply comes back; both sides of the broadcast name the same event. The
  generator script reads the interface descriptions of \<open>fidl/\<close> as they are meant, one interface at a
  time. The tests of the repository that do not depend on the scheduler hold in the model; the test of the
  token refresh does depend on it.

  Theorems on misbehaviour are stated as the code has it: calling \<open>stop\<close> during \<open>start\<close> from another
  thread throws or leaks the worker; \<open>start\<close> overwrites the worker's state; nothing is queued while the
  client is known to be offline and queued samples are never sent by the service; the clients answer
  \<open>isConnected\<close> from what they did last, so that the worker never notices a lost link and its
  reconnection branch is dead code; the TCP client sends
  without \<open>MSG_NOSIGNAL\<close>, so that a publication on a broken connection kills the process; a reconnect through Paho cannot recover from a failing disconnect; a reconnect is not atomic for other threads; the error path of
  \<open>main\<close> terminates the process, and whether it is taken is a race between \<open>main\<close> and its own
  listener.

  Bounds and fuel. \<open>worker_run\<close> ends for \<open>17 * n + 3\<close> steps and \<open>n\<close> passes, \<open>caller_run\<close> of \<open>start\<close>
  for 12; both are theorems. A worker whose stop token is set takes at most 18 more steps and
  sleeps at most five seconds, the
  listener nine unless it waits, a section of a client eight under its mutex, a call of \<open>start\<close> or
  \<open>stop\<close> at most 16 steps of its caller; these counts are the ranks of the fair-run arguments. All
  other recursions are structural or have a termination proof.

  Not modelled: data races on plain members beyond sequentially consistent interleaving; the fairness of
  mutexes; how a connection comes to be broken, which the network decides; the passing of time but for the
  seconds that a worker sleeps and the clock of \<open>Test_Suite\<close>. In the bindings: the inside of the CommonAPI
  runtime, which is a parameter, with what it is documented to do with a call as a hypothesis, and its
  delivery of events; the
  attribute extensions of the class templates and the deployment files, which hold no code;
  \<open>lockInterfaceVersionAttribute\<close>, whose body is empty. The vendored \<open>nlohmann/json\<close> is included and not
  used. Of \<open>scripts/generate_commonapi.py\<close>, which no build step runs, texts that are not ASCII and its
  directories. Build files and configuration files are
  read by no modelled code; \<open>tests/test_vehicle.cpp\<close> is not built and does not fit the classes it names.
\<close>

end
